(* ===== verification/Carrier_Prelude.thy ===== *)
theory Carrier_Prelude
  imports Main "HOL-Library.Word" "HOL-Library.Multiset" "HOL-Library.AList"
begin

text \<open>
  Shared material of the development: the Go values every component uses (bytes, slices that may
  be nil, errors and panics as values of a sum type), the byte-order helpers of
  \<^verbatim>\<open>encoding/binary\<close> and \<^verbatim>\<open>encoding/hex\<close>, the big-endian value of a byte string, the list
  operations of \<^verbatim>\<open>container/list\<close>, maps with iteration (\<^verbatim>\<open>sync.Map\<close>) and the sorting contract of
  \<^verbatim>\<open>sort.Slice\<close>.
\<close>

unbundle bit_operations_syntax

named_theorems go_simps \<open>unfolding rules for the Go library operations used by the model\<close>
named_theorems inv_intros \<open>operations that keep a component's invariant\<close>

section \<open>Values, errors and panics\<close>

type_synonym byte = "8 word"
type_synonym bytes = "8 word list"
type_synonym uint16 = "16 word"
type_synonym uint32 = "32 word"
type_synonym uint64 = "64 word"

text \<open>
  A Go function that returns \<^verbatim>\<open>(T, error)\<close> is a value of \<open>go_error + 'a\<close>. A run-time panic (nil
  dereference, slice bounds, division by zero, explicit \<^verbatim>\<open>panic\<close>) is the constructor \<open>Panic\<close>, so
  that it can never be confused with an error the caller handles. \<open>Blocks\<close> is a channel operation
  that cannot proceed: the goroutine stays there until another one acts on the channel.
\<close>

datatype go_error = Err string | Panic string | Blocks string

type_synonym 'a result = "go_error + 'a"

fun is_ok :: "'a result \<Rightarrow> bool" where
  "is_ok (Inr _) = True"
| "is_ok (Inl _) = False"

fun panics :: "'a result \<Rightarrow> bool" where
  "panics (Inl (Panic _)) = True"
| "panics _ = False"

definition rbind :: "'a result \<Rightarrow> ('a \<Rightarrow> 'b result) \<Rightarrow> 'b result" where
  "rbind r f = (case r of Inl e \<Rightarrow> Inl e | Inr a \<Rightarrow> f a)"

lemma rbind_simps [simp]:
  "rbind (Inl e) f = Inl e"
  "rbind (Inr a) f = f a"
  by (simp_all add: rbind_def)

lemma rbind_Inr_iff: "rbind r f = Inr b \<longleftrightarrow> (\<exists>a. r = Inr a \<and> f a = Inr b)"
  by (cases r) simp_all

lemma is_ok_iff: "is_ok r \<longleftrightarrow> (\<exists>a. r = Inr a)"
  by (cases r) simp_all

text \<open>A byte slice that the code compares with nil is an option; \<open>slice\<close> reads its contents.\<close>

definition slice :: "bytes option \<Rightarrow> bytes" where
  "slice b = (case b of None \<Rightarrow> [] | Some xs \<Rightarrow> xs)"

lemma slice_simps [simp]: "slice None = []" "slice (Some xs) = xs"
  by (simp_all add: slice_def)

text \<open>The bytes of a Go string.\<close>

definition str_bytes :: "string \<Rightarrow> bytes" where
  "str_bytes s = map of_char s"

lemma length_str_bytes [simp]: "length (str_bytes s) = length s"
  by (simp add: str_bytes_def)

lemma unat_of_char_byte [simp]: "unat (of_char c :: byte) = of_char c"
proof -
  have "unat (of_nat (of_char c) :: byte) = of_char c"
    using nat_of_char_less_256 [of c] by (simp only: unat_of_nat) simp
  then show ?thesis by (simp only: of_nat_of_char)
qed

lemma of_char_byte_inj: "(of_char c :: byte) = of_char d \<Longrightarrow> c = d"
proof -
  assume "(of_char c :: byte) = of_char d"
  then have "unat (of_char c :: byte) = unat (of_char d :: byte)" by (rule arg_cong)
  then show "c = d" by simp
qed

lemma str_bytes_inj [simp]: "str_bytes s = str_bytes t \<longleftrightarrow> s = t"
proof
  assume "str_bytes s = str_bytes t"
  then show "s = t"
    unfolding str_bytes_def
    by (rule map_injective) (auto intro: injI of_char_byte_inj)
qed simp

section \<open>Byte order\<close>

text \<open>\<^verbatim>\<open>binary.BigEndian\<close> and \<^verbatim>\<open>binary.LittleEndian\<close>, shift by shift as the library has them.\<close>

definition BE_PutUint16 :: "uint16 \<Rightarrow> bytes" where
  "BE_PutUint16 v = [ucast (drop_bit 8 v), ucast v]"

definition BE_PutUint32 :: "uint32 \<Rightarrow> bytes" where
  "BE_PutUint32 v = [ucast (drop_bit 24 v), ucast (drop_bit 16 v), ucast (drop_bit 8 v), ucast v]"

definition LE_PutUint32 :: "uint32 \<Rightarrow> bytes" where
  "LE_PutUint32 v = [ucast v, ucast (drop_bit 8 v), ucast (drop_bit 16 v), ucast (drop_bit 24 v)]"

text \<open>The readers panic (index out of range) on a short slice, which is \<open>None\<close> here.\<close>

fun BE_Uint16 :: "bytes \<Rightarrow> uint16 option" where
  "BE_Uint16 (a # b # _) = Some (ucast b OR push_bit 8 (ucast a))"
| "BE_Uint16 _ = None"

fun BE_Uint32 :: "bytes \<Rightarrow> uint32 option" where
  "BE_Uint32 (a # b # c # d # _) =
     Some (ucast d OR push_bit 8 (ucast c) OR push_bit 16 (ucast b) OR push_bit 24 (ucast a))"
| "BE_Uint32 _ = None"

fun LE_Uint32 :: "bytes \<Rightarrow> uint32 option" where
  "LE_Uint32 (a # b # c # d # _) =
     Some (ucast a OR push_bit 8 (ucast b) OR push_bit 16 (ucast c) OR push_bit 24 (ucast d))"
| "LE_Uint32 _ = None"

lemma length_Put [simp]:
  "length (BE_PutUint16 v) = 2" "length (BE_PutUint32 w) = 4" "length (LE_PutUint32 w) = 4"
  by (simp_all add: BE_PutUint16_def BE_PutUint32_def LE_PutUint32_def)

lemma glue16:
  fixes v :: uint16
  shows "ucast (ucast v :: byte) OR push_bit 8 (ucast (ucast (drop_bit 8 v) :: byte)) = v"
  by (rule bit_word_eqI) (auto simp: bit_simps)

lemma glue32:
  fixes v :: uint32
  shows "ucast (ucast v :: byte) OR push_bit 8 (ucast (ucast (drop_bit 8 v) :: byte))
     OR push_bit 16 (ucast (ucast (drop_bit 16 v) :: byte))
     OR push_bit 24 (ucast (ucast (drop_bit 24 v) :: byte)) = v" (is "?g = v")
proof (rule bit_word_eqI)
  fix n
  assume n: "n < LENGTH(32)"
  consider "n < 8" | "8 \<le> n" "n < 16" | "16 \<le> n" "n < 24" | "24 \<le> n" "n < 32"
    using n by fastforce
  then show "bit ?g n = bit v n"
    by cases (auto simp: bit_simps)
qed

lemma glue32_rev:
  fixes v :: uint32
  shows "ucast (ucast v :: byte) OR (push_bit 8 (ucast (ucast (drop_bit 8 v) :: byte))
     OR (push_bit 16 (ucast (ucast (drop_bit 16 v) :: byte))
     OR push_bit 24 (ucast (ucast (drop_bit 24 v) :: byte)))) = v"
  using glue32 [of v] by (simp only: or.assoc)

lemma BE_Uint16_Put [simp]: "BE_Uint16 (BE_PutUint16 v @ r) = Some v"
  by (simp add: BE_PutUint16_def glue16)

lemma BE_Uint32_Put [simp]: "BE_Uint32 (BE_PutUint32 v @ r) = Some v"
  by (simp add: BE_PutUint32_def glue32)

lemma LE_Uint32_Put [simp]: "LE_Uint32 (LE_PutUint32 v @ r) = Some v"
  by (simp add: LE_PutUint32_def glue32)

lemma BE_Put_Nil [simp]:
  "BE_Uint16 (BE_PutUint16 v) = Some v"
  "BE_Uint32 (BE_PutUint32 w) = Some w"
  "LE_Uint32 (LE_PutUint32 w) = Some w"
  using BE_Uint16_Put [of v "[]"] BE_Uint32_Put [of w "[]"] LE_Uint32_Put [of w "[]"]
  by simp_all

text \<open>The number a byte string denotes, most significant byte first.\<close>

fun be_nat :: "bytes \<Rightarrow> nat" where
  "be_nat [] = 0"
| "be_nat (b # bs) = unat b * 256 ^ length bs + be_nat bs"

lemma unat_byte_less [simp]: "unat (b :: byte) < 256"
  using unsigned_less [of b, where 'a = nat] by simp

lemma be_nat_less: "be_nat bs < 256 ^ length bs"
proof (induction bs)
  case (Cons b bs)
  have "unat b * 256 ^ length bs + be_nat bs < unat b * 256 ^ length bs + 256 ^ length bs"
    using Cons.IH by simp
  also have "\<dots> = Suc (unat b) * 256 ^ length bs" by simp
  also have "\<dots> \<le> 256 * 256 ^ length bs"
    using unat_byte_less [of b] by (intro mult_right_mono) linarith+
  finally show ?case by simp
qed simp

lemma be_nat_inj: "length xs = length ys \<Longrightarrow> be_nat xs = be_nat ys \<Longrightarrow> xs = ys"
proof (induction xs ys rule: list_induct2)
  case (Cons x xs y ys)
  let ?m = "256 ^ length ys :: nat"
  have bx: "be_nat xs < ?m" and byy: "be_nat ys < ?m"
    using be_nat_less [of xs] be_nat_less [of ys] Cons.hyps by simp_all
  have eq: "unat x * ?m + be_nat xs = unat y * ?m + be_nat ys"
    using Cons.prems Cons.hyps by simp
  have "unat x = (unat x * ?m + be_nat xs) div ?m" using bx by simp
  also have "\<dots> = unat y" using byy by (simp add: eq)
  finally have "x = y" by (simp only: word_unat_eq_iff)
  moreover have "be_nat xs = be_nat ys" using eq \<open>x = y\<close> by simp
  ultimately show ?case using Cons.IH by simp
qed simp

text \<open>\<^verbatim>\<open>bytes.Compare(a, b) == -1\<close>: lexicographic order, which is the numeric order on slices of
  one length.\<close>

fun bytes_less :: "bytes \<Rightarrow> bytes \<Rightarrow> bool" where
  "bytes_less _ [] = False"
| "bytes_less [] (_ # _) = True"
| "bytes_less (x # xs) (y # ys) = (x < y \<or> x = y \<and> bytes_less xs ys)"

lemma bytes_less_iff_be_nat:
  "length xs = length ys \<Longrightarrow> bytes_less xs ys \<longleftrightarrow> be_nat xs < be_nat ys"
proof (induction xs ys rule: list_induct2)
  case (Cons x xs y ys)
  let ?m = "256 ^ length ys :: nat"
  have bx: "be_nat xs < ?m" and byy: "be_nat ys < ?m"
    using be_nat_less [of xs] be_nat_less [of ys] Cons.hyps by simp_all
  have lt: "unat u * ?m + c < unat v * ?m + d" if "u < v" "c < ?m" for u v :: byte and c d
  proof -
    have "unat u * ?m + c < Suc (unat u) * ?m" using that(2) by simp
    also have "\<dots> \<le> unat v * ?m"
      using that(1) by (intro mult_right_mono) (simp_all add: word_less_nat_alt)
    finally show ?thesis by simp
  qed
  show ?case
    using Cons lt [of x y "be_nat xs" "be_nat ys"] lt [of y x "be_nat ys" "be_nat xs"] bx byy
    by (cases x y rule: linorder_cases) auto
qed simp

lemma bytes_less_asym: "bytes_less xs ys \<Longrightarrow> \<not> bytes_less ys xs"
  by (induction xs ys rule: bytes_less.induct) auto

lemma bytes_less_ntrans: "\<not> bytes_less xs ys \<Longrightarrow> \<not> bytes_less ys zs \<Longrightarrow> \<not> bytes_less xs zs"
proof (induction xs zs arbitrary: ys rule: bytes_less.induct)
  case (2 z zs)
  then show ?case by (cases ys) auto
next
  case (3 x xs z zs)
  then show ?case by (cases ys) force+
qed simp

section \<open>Hexadecimal\<close>

definition hex_digits :: string where
  "hex_digits = ''0123456789abcdef''"

definition hex_byte :: "byte \<Rightarrow> string" where
  "hex_byte b = [hex_digits ! unat (drop_bit 4 b), hex_digits ! unat (b AND 15)]"

definition hex_EncodeToString :: "bytes \<Rightarrow> string" where
  "hex_EncodeToString bs = concat (map hex_byte bs)"

lemma hex_digits_inj: "i < 16 \<Longrightarrow> j < 16 \<Longrightarrow> hex_digits ! i = hex_digits ! j \<longleftrightarrow> i = j"
  by (rule nth_eq_iff_index_eq) (simp_all add: hex_digits_def)

lemma length_hex_byte [simp]: "length (hex_byte b) = 2" "hex_byte b \<noteq> []"
  by (simp_all add: hex_byte_def)

lemma nibbles: "unat (drop_bit 4 (b :: byte)) = unat b div 16" "unat (b AND 15) = unat b mod 16"
proof -
  show "unat (drop_bit 4 b) = unat b div 16"
    by (simp add: drop_bit_eq_div unat_div)
  have "b AND 15 = take_bit 4 b"
    by (simp add: take_bit_eq_mask mask_eq_exp_minus_1)
  then show "unat (b AND 15) = unat b mod 16"
    by (simp add: unsigned_take_bit_eq take_bit_eq_mod unat_mod)
qed

lemma hex_byte_inj [simp]: "hex_byte a = hex_byte b \<longleftrightarrow> a = b"
proof
  assume "hex_byte a = hex_byte b"
  moreover have "unat a div 16 < 16" "unat b div 16 < 16"
    using unat_byte_less [of a] unat_byte_less [of b] by linarith+
  ultimately have "unat a div 16 = unat b div 16" "unat a mod 16 = unat b mod 16"
    unfolding hex_byte_def by (simp_all add: nibbles hex_digits_inj)
  then have "unat a = unat b" by (metis div_mult_mod_eq)
  then show "a = b" by (simp only: word_unat_eq_iff)
qed simp

lemma hex_EncodeToString_simps [simp]:
  "hex_EncodeToString [] = []"
  "hex_EncodeToString (b # bs) = hex_byte b @ hex_EncodeToString bs"
  by (simp_all add: hex_EncodeToString_def)

lemma hex_EncodeToString_inj [simp]:
  "hex_EncodeToString xs = hex_EncodeToString ys \<longleftrightarrow> xs = ys"
proof
  show "hex_EncodeToString xs = hex_EncodeToString ys \<Longrightarrow> xs = ys"
  proof (induction xs arbitrary: ys)
    case Nil
    then show ?case by (cases ys) simp_all
  next
    case (Cons x xs)
    then show ?case by (cases ys) (auto simp: append_eq_append_conv)
  qed
qed simp

text \<open>\<^verbatim>\<open>hex.DecodeString\<close> accepts digits of both cases and rejects anything else and odd lengths.\<close>

fun digit_of :: "char \<Rightarrow> nat \<Rightarrow> char list \<Rightarrow> nat option" where
  "digit_of c i [] = None"
| "digit_of c i (d # ds) = (if c = d then Some i else digit_of c (Suc i) ds)"

definition fromHexChar :: "char \<Rightarrow> byte option" where
  "fromHexChar c =
     (case digit_of c 0 hex_digits of
        Some i \<Rightarrow> Some (of_nat i)
      | None \<Rightarrow> map_option of_nat (digit_of c 10 ''ABCDEF''))"

fun hex_DecodeString :: "string \<Rightarrow> bytes result" where
  "hex_DecodeString [] = Inr []"
| "hex_DecodeString [c] =
     Inl (Err (if fromHexChar c = None then ''encoding/hex: invalid byte'' else ''encoding/hex: odd length hex string''))"
| "hex_DecodeString (c # d # s) =
     (case (fromHexChar c, fromHexChar d) of
        (Some a, Some b) \<Rightarrow> rbind (hex_DecodeString s) (\<lambda>r. Inr ((push_bit 4 a OR b) # r))
      | _ \<Rightarrow> Inl (Err ''encoding/hex: invalid byte''))"

lemma digit_of_nth: "distinct ds \<Longrightarrow> i < length ds \<Longrightarrow> digit_of (ds ! i) k ds = Some (k + i)"
proof (induction ds arbitrary: i k)
  case (Cons d ds)
  then show ?case by (cases i) auto
qed simp

lemma fromHexChar_digit: "i < 16 \<Longrightarrow> fromHexChar (hex_digits ! i) = Some (of_nat i)"
  using digit_of_nth [of hex_digits i 0] by (simp add: fromHexChar_def hex_digits_def)

lemma hex_DecodeString_Encode [simp]: "hex_DecodeString (hex_EncodeToString bs) = Inr bs"
proof (induction bs)
  case (Cons b bs)
  have lt: "unat (drop_bit 4 b) < 16" "unat (b AND 15) < 16"
    using unat_byte_less [of b] by (simp_all add: nibbles less_mult_imp_div_less)
  have "b AND 15 = take_bit 4 b"
    by (simp add: take_bit_eq_mask mask_eq_exp_minus_1)
  moreover have "push_bit 4 (drop_bit 4 b) OR take_bit 4 b = b"
    by (rule bit_word_eqI) (auto simp: bit_simps)
  ultimately have "push_bit 4 (drop_bit 4 b) OR (b AND 15) = b" by simp
  then show ?case
    using Cons lt by (simp add: hex_byte_def fromHexChar_digit)
qed simp

section \<open>Doubly linked lists and sorting\<close>

text \<open>
  A \<^verbatim>\<open>list.List\<close> is the list of its values from \<^verbatim>\<open>Front()\<close> to \<^verbatim>\<open>Back()\<close>. The code finds an element
  by scanning from the front, so removing "the element found" removes the first match.
\<close>

fun remove_first :: "('a \<Rightarrow> bool) \<Rightarrow> 'a list \<Rightarrow> 'a list" where
  "remove_first P [] = []"
| "remove_first P (x # xs) = (if P x then xs else x # remove_first P xs)"

lemma remove_first_none [simp]: "\<forall>x\<in>set xs. \<not> P x \<Longrightarrow> remove_first P xs = xs"
  by (induction xs) auto

lemma set_remove_first_subset: "set (remove_first P xs) \<subseteq> set xs"
  by (induction xs) auto

lemma mset_remove_first:
  "List.find P xs = Some x \<Longrightarrow> mset xs = add_mset x (mset (remove_first P xs))"
  by (induction xs) (auto split: if_splits)

lemma find_Some_props: "List.find P xs = Some x \<Longrightarrow> x \<in> set xs \<and> P x"
  by (induction xs) (auto split: if_splits)

lemma find_None_iff_all: "List.find P xs = None \<longleftrightarrow> (\<forall>x\<in>set xs. \<not> P x)"
  by (induction xs) auto

lemma length_remove_first:
  "List.find P xs = Some x \<Longrightarrow> length xs = Suc (length (remove_first P xs))"
  by (induction xs) (auto split: if_splits)

lemma distinct_map_remove_first:
  "distinct (map f xs) \<Longrightarrow> distinct (map f (remove_first P xs))"
  by (induction xs) (use set_remove_first_subset in fastforce)+

lemma set_remove_first_key:
  assumes "distinct (map f xs)"
  shows "set (remove_first (\<lambda>y. f y = k) xs) = {y \<in> set xs. f y \<noteq> k}"
  using assms by (induction xs) (auto simp: rev_image_eqI)

lemma remove_first_eq_filter:
  "distinct (map f xs) \<Longrightarrow> remove_first (\<lambda>x. f x = k) xs = filter (\<lambda>x. f x \<noteq> k) xs"
proof (induction xs)
  case (Cons x xs)
  then show ?case by (cases "f x = k") (auto intro!: filter_True [symmetric] simp: rev_image_eqI)
qed simp

text \<open>
  A \<^verbatim>\<open>sync.Map\<close>, or a Go map that is iterated, is an association list without repeated keys. The
  library does not specify the order in which \<^verbatim>\<open>Range\<close> visits it, so no property below depends on
  the order of the list.
\<close>

type_synonym ('k, 'v) sync_map = "('k \<times> 'v) list"

definition Load :: "('k, 'v) sync_map \<Rightarrow> 'k \<Rightarrow> 'v option" where
  "Load m k = map_of m k"

definition Store :: "'k \<Rightarrow> 'v \<Rightarrow> ('k, 'v) sync_map \<Rightarrow> ('k, 'v) sync_map" where
  "Store k v m = AList.update k v m"

definition map_Delete :: "'k \<Rightarrow> ('k, 'v) sync_map \<Rightarrow> ('k, 'v) sync_map" where
  "map_Delete k m = AList.delete k m"

definition unique_keys :: "('k, 'v) sync_map \<Rightarrow> bool" where
  "unique_keys m = distinct (map fst m)"

lemma Load_simps [simp]:
  "Load [] k = None"
  "Load (Store k v m) l = (if l = k then Some v else Load m l)"
  "Load (map_Delete k m) l = (if l = k then None else Load m l)"
  by (simp_all add: Load_def Store_def map_Delete_def update_conv' delete_conv')

lemma unique_keys_simps [simp, intro]:
  "unique_keys []"
  "unique_keys m \<Longrightarrow> unique_keys (Store k v m)"
  "unique_keys m \<Longrightarrow> unique_keys (map_Delete k m)"
  by (simp_all add: unique_keys_def Store_def map_Delete_def distinct_update distinct_delete)

lemma Load_iff_in: "unique_keys m \<Longrightarrow> Load m k = Some v \<longleftrightarrow> (k, v) \<in> set m"
  by (simp add: Load_def unique_keys_def)

lemma keys_Load: "fst ` set m = {k. Load m k \<noteq> None}"
  using dom_map_of_conv_image_fst [of m] by (auto simp: Load_def)

lemma Load_in_set: "Load m k = Some v \<Longrightarrow> (k, v) \<in> set m"
  by (simp add: Load_def map_of_SomeD)

text \<open>
  \<^verbatim>\<open>sort.Slice\<close> and \<^verbatim>\<open>sort.SliceStable\<close> with a \<^verbatim>\<open>less\<close> callback, as an insertion sort (which is
  what the library runs on short slices). \<open>weak_order\<close> is the contract the documentation asks of
  \<^verbatim>\<open>less\<close>; under it the result is a sorted permutation, and when \<^verbatim>\<open>less\<close> separates all elements
  the sorted permutation is unique, so that the choice of algorithm is not visible.
\<close>

fun insert_by :: "('a \<Rightarrow> 'a \<Rightarrow> bool) \<Rightarrow> 'a \<Rightarrow> 'a list \<Rightarrow> 'a list" where
  "insert_by lt x [] = [x]"
| "insert_by lt x (y # ys) = (if lt y x then y # insert_by lt x ys else x # y # ys)"

fun sort_slice :: "('a \<Rightarrow> 'a \<Rightarrow> bool) \<Rightarrow> 'a list \<Rightarrow> 'a list" where
  "sort_slice lt [] = []"
| "sort_slice lt (x # xs) = insert_by lt x (sort_slice lt xs)"

lemma mset_insert_by [simp]: "mset (insert_by lt x xs) = add_mset x (mset xs)"
  by (induction xs) auto

lemma mset_sort_slice [simp]: "mset (sort_slice lt xs) = mset xs"
  by (induction xs) auto

lemma set_sort_slice [simp]: "set (sort_slice lt xs) = set xs"
  by (metis mset_sort_slice set_mset_mset)

lemma length_sort_slice [simp]: "length (sort_slice lt xs) = length xs"
  by (metis mset_sort_slice size_mset)

lemma set_insert_by [simp]: "set (insert_by lt x xs) = insert x (set xs)"
  by (metis mset_insert_by set_mset_add_mset_insert set_mset_mset)

lemma distinct_map_sort_slice [simp]:
  "distinct (map f (sort_slice lt xs)) \<longleftrightarrow> distinct (map f xs)"
  by (metis mset_eq_imp_distinct_iff mset_map mset_sort_slice)

locale weak_order =
  fixes lt :: "'a \<Rightarrow> 'a \<Rightarrow> bool"
  assumes asym: "lt x y \<Longrightarrow> \<not> lt y x"
    and ntrans: "\<not> lt x y \<Longrightarrow> \<not> lt y z \<Longrightarrow> \<not> lt x z"
begin

lemma sorted_insert_by:
  "sorted_wrt (\<lambda>x y. \<not> lt y x) xs \<Longrightarrow> sorted_wrt (\<lambda>x y. \<not> lt y x) (insert_by lt x xs)"
  by (induction xs) (auto dest: asym ntrans)

lemma sorted_sort_slice: "sorted_wrt (\<lambda>x y. \<not> lt y x) (sort_slice lt xs)"
  by (induction xs) (auto intro: sorted_insert_by)

lemma insert_by_stable:
  assumes "\<And>a b. lt a b \<Longrightarrow> P a \<Longrightarrow> \<not> P b"
  shows "filter P (insert_by lt x xs) = filter P (x # xs)"
  using assms by (induction xs) auto

lemma sort_slice_stable:
  assumes "\<And>a b. lt a b \<Longrightarrow> P a \<Longrightarrow> \<not> P b"
  shows "filter P (sort_slice lt xs) = filter P xs"
  by (induction xs) (use insert_by_stable [OF assms] in auto)

lemma sort_slice_unique:
  assumes "mset ys = mset xs" "sorted_wrt (\<lambda>x y. \<not> lt y x) ys"
    and "\<And>a b. a \<in> set xs \<Longrightarrow> b \<in> set xs \<Longrightarrow> \<not> lt a b \<Longrightarrow> \<not> lt b a \<Longrightarrow> a = b"
  shows "ys = sort_slice lt xs"
proof -
  have "us = vs"
    if "mset us = mset vs" "sorted_wrt (\<lambda>x y. \<not> lt y x) us"
      "sorted_wrt (\<lambda>x y. \<not> lt y x) vs" "set vs \<subseteq> set xs" for us vs
    using that
  proof (induction us arbitrary: vs)
    case (Cons u us)
    then obtain v vs' where vs: "vs = v # vs'" by (cases vs) auto
    have "u \<in> set vs" "v \<in> set (u # us)"
      using Cons.prems(1) vs by (metis list.set_intros(1) set_mset_mset)+
    then have "u = v"
      using Cons.prems(2,3,4) vs assms(3) [of u v] by auto
    then show ?case using Cons vs by auto
  qed simp
  then show ?thesis using assms(1,2) sorted_sort_slice by simp
qed

end

end
