(* ===== verification/Peer_Identity.thy ===== *)
theory Peer_Identity
  imports Carrier_Prelude
begin

text \<open>
  Node identities, \<^verbatim>\<open>src/peer/identity.go\<close>: the record \<open>ID\<close> and its operations. The BLAKE2b digest
  (a third-party package behind \<^verbatim>\<open>crypto/blake2b\<close>) is the parameter \<open>hash\<close> of \<open>CreateID\<close>.

  The lemmas read an identity hash as the big-endian number \<open>be_nat\<close>: \<open>XorID\<close> is then the
  Kademlia XOR metric, \<open>Less\<close> compares numbers, and \<open>PrefixLen\<close> is the number of leading zero
  bits, the index of the routing bucket.
\<close>

record ID =
  NetKey :: "bytes option"
  Address :: string
  Id_hash :: bytes
  ConnectionId :: "bytes option"
  Address2 :: string

definition CreateID :: "(bytes \<Rightarrow> bytes) \<Rightarrow> string \<Rightarrow> bytes option \<Rightarrow> ID" where
  "CreateID hash address publicKey =
     \<lparr>NetKey = publicKey, Address = address, Id_hash = hash (slice publicKey),
      ConnectionId = Some (hash (slice publicKey @ str_bytes address)), Address2 = []\<rparr>"

definition Equals :: "ID \<Rightarrow> ID \<Rightarrow> bool" where
  "Equals pid other \<longleftrightarrow> Id_hash pid = Id_hash other"

definition Less :: "ID \<Rightarrow> ID \<Rightarrow> bool" where
  "Less pid other \<longleftrightarrow> bytes_less (Id_hash pid) (Id_hash other)"

definition PublicKeyHex :: "ID \<Rightarrow> string" where
  "PublicKeyHex pid = hex_EncodeToString (slice (NetKey pid))"

text \<open>
  The XOR loop fills a zeroed result of the receiver's length and stops at the shorter operand,
  so the bytes past the end of \<open>other\<close> stay zero.
\<close>

fun xor_bytes :: "bytes \<Rightarrow> bytes \<Rightarrow> bytes" where
  "xor_bytes [] _ = []"
| "xor_bytes (x # xs) [] = 0 # xor_bytes xs []"
| "xor_bytes (x # xs) (y # ys) = (x XOR y) # xor_bytes xs ys"

definition Xor :: "ID \<Rightarrow> ID \<Rightarrow> ID" where
  "Xor pid other =
     \<lparr>NetKey = Some (xor_bytes (slice (NetKey pid)) (slice (NetKey other))), Address = Address pid,
      Id_hash = [], ConnectionId = None, Address2 = []\<rparr>"

definition XorID :: "ID \<Rightarrow> ID \<Rightarrow> ID" where
  "XorID pid other =
     \<lparr>NetKey = None, Address = Address pid, Id_hash = xor_bytes (Id_hash pid) (Id_hash other),
      ConnectionId = None, Address2 = []\<rparr>"

text \<open>\<^verbatim>\<open>bits.LeadingZeros8(x)\<close> is 8 minus the bit length of \<open>x\<close>.\<close>

fun bit_len :: "nat \<Rightarrow> nat" where
  "bit_len n = (if n = 0 then 0 else Suc (bit_len (n div 2)))"

declare bit_len.simps [simp del]

definition LeadingZeros8 :: "byte \<Rightarrow> nat" where
  "LeadingZeros8 b = 8 - bit_len (unat b)"

fun first_set_bit :: "nat \<Rightarrow> bytes \<Rightarrow> nat option" where
  "first_set_bit i [] = None"
| "first_set_bit i (b # bs) =
     (if b \<noteq> 0 then Some (i * 8 + LeadingZeros8 b) else first_set_bit (Suc i) bs)"

definition PrefixLen :: "ID \<Rightarrow> int" where
  "PrefixLen pid =
     (case first_set_bit 0 (Id_hash pid) of
        Some n \<Rightarrow> int n
      | None \<Rightarrow> int (length (Id_hash pid)) * 8 - 1)"

section \<open>XOR on byte strings is XOR on the numbers they denote\<close>

lemma length_xor_bytes [simp]: "length (xor_bytes xs ys) = length xs"
  by (induction xs ys rule: xor_bytes.induct) auto

lemma add_eq_or_nat:
  assumes "(r :: nat) < 2 ^ m"
  shows "a * 2 ^ m + r = push_bit m a OR take_bit m r"
proof -
  have "a * 2 ^ m + r = push_bit m a + take_bit m r"
    using assms by (simp add: push_bit_eq_mult take_bit_nat_eq_self)
  also have "\<dots> = push_bit m a OR take_bit m r"
    by (rule disjunctive_add) (auto simp: bit_simps)
  finally show ?thesis .
qed

lemma xor_concat_nat:
  assumes "(r :: nat) < 2 ^ m" "s < 2 ^ m"
  shows "(a * 2 ^ m + r) XOR (b * 2 ^ m + s) = (a XOR b) * 2 ^ m + (r XOR s)"
proof -
  have "take_bit m (r XOR s) = r XOR s"
    using assms by (simp add: take_bit_xor take_bit_nat_eq_self)
  then have lt: "r XOR s < 2 ^ m" by (metis take_bit_nat_less_exp)
  show ?thesis
    unfolding add_eq_or_nat [OF assms(1)] add_eq_or_nat [OF assms(2)] add_eq_or_nat [OF lt]
    by (rule bit_eqI) (auto simp: bit_simps)
qed

lemma be_nat_less_exp: "be_nat bs < 2 ^ (8 * length bs)"
  using be_nat_less [of bs] by (simp add: power_mult)

lemma be_nat_Cons_exp: "be_nat (b # bs) = unat b * 2 ^ (8 * length bs) + be_nat bs"
  by (simp add: power_mult)

lemma be_nat_xor:
  "length xs = length ys \<Longrightarrow> be_nat (xor_bytes xs ys) = be_nat xs XOR be_nat ys"
proof (induction xs ys rule: list_induct2)
  case (Cons x xs y ys)
  then show ?case
    using be_nat_less_exp [of xs] be_nat_less_exp [of ys]
    by (simp add: be_nat_Cons_exp xor_concat_nat unsigned_xor_eq del: be_nat.simps)
qed simp

lemma xor_nat_zero_iff: "(m :: nat) XOR n = 0 \<longleftrightarrow> m = n"
  by (metis xor.assoc xor.left_neutral xor.right_neutral xor_self_eq)

lemma xor_nat_cancel: "(m :: nat) XOR t = n XOR t \<longleftrightarrow> m = n"
  by (metis xor.assoc xor.right_neutral xor_self_eq)

lemma xor_nat_chain: "((m :: nat) XOR n) XOR (n XOR k) = m XOR k"
  by (metis xor.assoc xor.right_neutral xor_self_eq)

lemma xor_nat_le_plus: "(m :: nat) XOR n \<le> m + n"
proof (induction m arbitrary: n rule: less_induct)
  case (less m)
  show ?case
  proof (cases "m = 0")
    case False
    have "m XOR n = of_bool (odd m \<noteq> odd n) + 2 * ((m div 2) XOR (n div 2))"
      by (rule xor_rec)
    also have "\<dots> \<le> of_bool (odd m \<noteq> odd n) + 2 * (m div 2 + n div 2)"
      using less.IH [of "m div 2" "n div 2"] False by simp
    also have "\<dots> \<le> m + n" by (cases "odd m"; cases "odd n") (auto elim!: oddE evenE)
    finally show ?thesis .
  qed simp
qed

section \<open>Bit length and leading zeros\<close>

lemma bit_len_0 [simp]: "bit_len 0 = 0"
  by (simp add: bit_len.simps)

lemma bit_len_pos: "0 < n \<Longrightarrow> bit_len n = Suc (bit_len (n div 2))"
  by (subst bit_len.simps) simp

lemma bit_len_eq_0 [simp]: "bit_len n = 0 \<longleftrightarrow> n = 0"
  by (subst bit_len.simps) simp

lemma bit_len_gr_0 [simp]: "0 < bit_len n \<longleftrightarrow> 0 < n"
  by (metis bit_len_eq_0 neq0_conv)

lemma bit_len_bounds: "n < 2 ^ bit_len n \<and> (0 < n \<longrightarrow> 2 ^ bit_len n \<le> 2 * n)"
proof (induction n rule: bit_len.induct)
  case (1 n)
  show ?case
  proof (cases "n = 0")
    case False
    with 1 show ?thesis by (cases "n div 2 = 0") (auto simp: bit_len_pos)
  qed simp
qed

lemma bit_len_le_iff: "bit_len n \<le> k \<longleftrightarrow> n < 2 ^ k"
proof
  assume "bit_len n \<le> k"
  then have "(2 :: nat) ^ bit_len n \<le> 2 ^ k" by simp
  then show "n < 2 ^ k" using bit_len_bounds [of n] by linarith
next
  assume lt: "n < 2 ^ k"
  show "bit_len n \<le> k"
  proof (rule ccontr)
    assume "\<not> bit_len n \<le> k"
    then have "Suc k \<le> bit_len n" by simp
    then have "(2 :: nat) ^ Suc k \<le> 2 ^ bit_len n" by (rule power_increasing) simp
    moreover have "0 < n" using \<open>Suc k \<le> bit_len n\<close> by (cases n) auto
    ultimately show False using bit_len_bounds [of n] lt by auto
  qed
qed

lemma bit_len_less_imp_less: "bit_len m < bit_len n \<Longrightarrow> m < n"
proof -
  assume "bit_len m < bit_len n"
  then have "m < 2 ^ bit_len m" "2 ^ bit_len m \<le> n"
    using bit_len_bounds [of m] bit_len_le_iff [of n "bit_len m"] by auto
  then show "m < n" by linarith
qed

lemma bit_len_shift:
  assumes "0 < a" "(r :: nat) < 2 ^ m"
  shows "bit_len (a * 2 ^ m + r) = bit_len a + m"
proof (rule antisym)
  have "Suc a * 2 ^ m \<le> 2 ^ bit_len a * 2 ^ m"
    using bit_len_bounds [of a] by (intro mult_right_mono) auto
  then have "a * 2 ^ m + r < 2 ^ (bit_len a + m)"
    using assms(2) by (simp add: power_add)
  then show "bit_len (a * 2 ^ m + r) \<le> bit_len a + m" by (simp only: bit_len_le_iff)
next
  obtain k where k: "bit_len a = Suc k" using assms(1) by (cases "bit_len a") auto
  have "2 ^ k \<le> a" using bit_len_bounds [of a] assms(1) k by simp
  then have "2 ^ (k + m) \<le> a * 2 ^ m" by (simp add: power_add)
  then have "\<not> bit_len (a * 2 ^ m + r) \<le> k + m" by (simp add: bit_len_le_iff)
  then show "bit_len a + m \<le> bit_len (a * 2 ^ m + r)" using k by simp
qed

lemma xor_div_2: "((m :: nat) XOR n) div 2 = m div 2 XOR n div 2"
  using drop_bit_xor [of 1 m n] by (simp add: drop_bit_eq_div)

lemma bit_len_xor_less: "bit_len n < bit_len m \<Longrightarrow> bit_len (m XOR n) = bit_len m"
proof (induction m arbitrary: n rule: bit_len.induct)
  case (1 m)
  have "0 < m" "m XOR n \<noteq> 0" using "1.prems" by (auto simp: xor_nat_zero_iff intro: gr0I)
  moreover have "bit_len (n div 2) < bit_len (m div 2) \<or> n = 0"
    using "1.prems" \<open>0 < m\<close> by (cases "n = 0") (auto simp: bit_len_pos)
  ultimately show ?case
    using "1.IH" [of "n div 2"] by (auto simp: bit_len_pos xor_div_2)
qed

lemma bit_len_xor_eq: "bit_len n = bit_len m \<Longrightarrow> 0 < m \<Longrightarrow> bit_len (m XOR n) < bit_len m"
proof (induction m arbitrary: n rule: bit_len.induct)
  case (1 m)
  have "0 < n" using "1.prems" by (metis bit_len_gr_0)
  then have eq: "bit_len (n div 2) = bit_len (m div 2)" using "1.prems" by (simp add: bit_len_pos)
  show ?case
  proof (cases "m div 2 = 0")
    case True
    then have "n div 2 = 0" using eq by simp
    with True have "m = n" using \<open>0 < n\<close> "1.prems" by auto
    then show ?thesis using "1.prems" by simp
  next
    case False
    then have "bit_len (m div 2 XOR n div 2) < bit_len (m div 2)"
      using "1.IH" eq "1.prems" by simp
    then show ?thesis
      using "1.prems" by (cases "m XOR n = 0") (auto simp: bit_len_pos xor_div_2)
  qed
qed

lemma first_set_bit_eq:
  "first_set_bit i bs =
     (if be_nat bs = 0 then None else Some (8 * (i + length bs) - bit_len (be_nat bs)))"
proof (induction bs arbitrary: i)
  case (Cons b bs)
  show ?case
  proof (cases "b = 0")
    case False
    then have "0 < unat b" by (simp add: unat_gt_0)
    then have "bit_len (be_nat (b # bs)) = bit_len (unat b) + 8 * length bs"
      unfolding be_nat_Cons_exp by (rule bit_len_shift [OF _ be_nat_less_exp])
    moreover have "bit_len (unat b) \<le> 8"
      unfolding bit_len_le_iff using unat_byte_less [of b] by simp
    ultimately show ?thesis
      using False \<open>0 < unat b\<close> by (auto simp: LeadingZeros8_def)
  qed (simp add: Cons.IH)
qed simp

lemma bit_len_be_nat_le: "bit_len (be_nat bs) \<le> 8 * length bs"
  by (simp add: bit_len_le_iff be_nat_less_exp)

lemma PrefixLen_eq:
  "PrefixLen p =
     (if be_nat (Id_hash p) = 0 then 8 * int (length (Id_hash p)) - 1
      else 8 * int (length (Id_hash p)) - int (bit_len (be_nat (Id_hash p))))"
  using bit_len_be_nat_le [of "Id_hash p"]
  by (simp add: PrefixLen_def first_set_bit_eq of_nat_diff)

lemma PrefixLen_bounds:
  "Id_hash p \<noteq> [] \<Longrightarrow> 0 \<le> PrefixLen p \<and> PrefixLen p < 8 * int (length (Id_hash p))"
  using bit_len_be_nat_le [of "Id_hash p"] by (auto simp: PrefixLen_eq Suc_le_eq)

section \<open>The XOR metric\<close>

text \<open>The distance between two identities is the number their XOR denotes.\<close>

definition distance :: "ID \<Rightarrow> ID \<Rightarrow> nat" where
  "distance p q = be_nat (Id_hash (XorID p q))"

abbreviation same_len :: "ID \<Rightarrow> ID \<Rightarrow> bool" where
  "same_len p q \<equiv> length (Id_hash p) = length (Id_hash q)"

lemma Id_hash_XorID [simp]: "Id_hash (XorID p q) = xor_bytes (Id_hash p) (Id_hash q)"
  by (simp add: XorID_def)

lemma distance_eq_xor: "same_len p q \<Longrightarrow> distance p q = be_nat (Id_hash p) XOR be_nat (Id_hash q)"
  by (simp add: distance_def be_nat_xor)

lemma distance_0_iff: "same_len p q \<Longrightarrow> distance p q = 0 \<longleftrightarrow> Equals p q"
  by (auto simp: distance_eq_xor xor_nat_zero_iff Equals_def intro: be_nat_inj)

lemma distance_commute: "same_len p q \<Longrightarrow> distance p q = distance q p"
  by (simp add: distance_eq_xor xor.commute)

lemma distance_triangle:
  "same_len p q \<Longrightarrow> same_len q r \<Longrightarrow> distance p r \<le> distance p q + distance q r"
  using xor_nat_le_plus [of "distance p q" "distance q r"]
  by (simp add: distance_eq_xor xor_nat_chain)

lemma distance_cancel:
  "same_len p r \<Longrightarrow> same_len q r \<Longrightarrow> distance p r = distance q r \<longleftrightarrow> Equals p q"
  by (auto simp: distance_eq_xor xor_nat_cancel Equals_def intro: be_nat_inj)

lemma Less_XorID_iff:
  "same_len p r \<Longrightarrow> same_len q r \<Longrightarrow> Less (XorID p r) (XorID q r) \<longleftrightarrow> distance p r < distance q r"
  by (simp add: Less_def distance_def bytes_less_iff_be_nat)

lemma PrefixLen_distance:
  "PrefixLen (XorID p q) =
     (if distance p q = 0 then 8 * int (length (Id_hash p)) - 1
      else 8 * int (length (Id_hash p)) - int (bit_len (distance p q)))"
  by (simp add: PrefixLen_eq distance_def)

lemma Equals_simps [simp]: "Equals p p"
  by (simp add: Equals_def)

text \<open>Sorting by XOR distance to a target meets the contract of \<^verbatim>\<open>sort.Slice\<close>.\<close>

interpretation xor_order: weak_order "\<lambda>p q. Less (XorID p target) (XorID q target)" for target
  by unfold_locales (auto simp: Less_def dest: bytes_less_asym bytes_less_ntrans)

text \<open>
  C26. On identities whose hashes have one length, \<open>XorID\<close> yields a metric (symmetric, zero exactly
  on equal identities, triangle inequality), it is unidirectional (a target and a distance
  determine the identity), and \<open>Less\<close> on XOR results compares distances as numbers.
\<close>

theorem XorID_metric:
  assumes "same_len p q" "same_len q r"
  shows "distance p q = distance q p \<and> (distance p q = 0 \<longleftrightarrow> Equals p q) \<and>
    distance p r \<le> distance p q + distance q r \<and>
    (distance p r = distance q r \<longleftrightarrow> Equals p q) \<and>
    (Less (XorID p r) (XorID q r) \<longleftrightarrow> distance p r < distance q r)"
  using assms
  by (simp_all add: distance_commute distance_0_iff distance_triangle distance_cancel Less_XorID_iff)

theorem XorID_metric_witness:
  "\<exists>p q r. same_len p q \<and> same_len q r \<and> distance p q = distance q p \<and>
     distance p r \<le> distance p q + distance q r \<and> distance p q = 96 \<and> \<not> Equals p q"
proof -
  define mk where "mk b = CreateID (\<lambda>_. b) [] None" for b
  have "same_len (mk [192 :: byte]) (mk [160])" "same_len (mk [160 :: byte]) (mk [0])"
    by (simp_all add: mk_def CreateID_def)
  from XorID_metric [OF this] this show ?thesis
    by (intro exI [of _ "mk [192]"] exI [of _ "mk [160]"] exI [of _ "mk [0]"])
      (simp add: mk_def CreateID_def distance_def Equals_def)
qed

end
