(* ===== verification/Routing_Table.thy ===== *)
theory Routing_Table
  imports Peer_Identity
begin

text \<open>
  The Kademlia routing table, \<^verbatim>\<open>src/dht/routes.go\<close>. A table is the node's own identity and one
  bucket per bit of the hash; a bucket is the list of its peers from front to back. The mutexes of
  the code make every operation atomic per bucket, so each operation is one function on the table.
  A nil bucket that the code dereferences is a \<open>Panic\<close>.

  The lemmas establish the table invariant \<open>rt_inv\<close> for every operation, the interface
  \<open>peer_table\<close> (membership after insertion and removal) that the discovery component relies on,
  and what \<open>FindClosestPeers\<close> does and does not guarantee.
\<close>

section \<open>State and operations\<close>

definition BucketSize :: nat where
  "BucketSize = 16"

type_synonym bucket = "ID list"

record RoutingTable =
  self :: ID
  buckets :: "bucket list"

definition NewBucket :: bucket where
  "NewBucket = []"

definition Bucket :: "RoutingTable \<Rightarrow> int \<Rightarrow> bucket option" where
  "Bucket t i = (if 0 \<le> i \<and> i < int (length (buckets t)) then Some (buckets t ! nat i) else None)"

abbreviation bucketID :: "RoutingTable \<Rightarrow> ID \<Rightarrow> int" where
  "bucketID t target \<equiv> PrefixLen (XorID target (self t))"

definition nil_bucket :: go_error where
  "nil_bucket = Panic ''nil pointer dereference''"

text \<open>The critical section of \<open>Update\<close>: find the peer from the front, then push or move.\<close>

definition bucket_update :: "bucket \<Rightarrow> ID \<Rightarrow> bucket" where
  "bucket_update b target =
     (case List.find (\<lambda>e. Equals e target) b of
        None \<Rightarrow> if length b \<le> BucketSize then target # b else b
      | Some element \<Rightarrow> element # remove_first (\<lambda>e. Equals e target) b)"

definition Update :: "RoutingTable \<Rightarrow> ID \<Rightarrow> RoutingTable result" where
  "Update t target =
     (if length (Id_hash (self t)) \<noteq> length (Id_hash target) then Inr t
      else case Bucket t (bucketID t target) of
             None \<Rightarrow> Inl nil_bucket
           | Some b \<Rightarrow> Inr (t\<lparr>buckets :=
               (buckets t)[nat (bucketID t target) := bucket_update b target]\<rparr>))"

definition CreateRoutingTable :: "ID \<Rightarrow> RoutingTable result" where
  "CreateRoutingTable pid =
     Update \<lparr>self = pid, buckets = replicate (length (Id_hash pid) * 8) NewBucket\<rparr> pid"

text \<open>
  \<open>GetPeers\<close> and \<open>GetPeerAddresses\<close> walk all buckets in order with one visited map keyed by the
  hex-encoded public key, in which the node itself is marked first.
\<close>

fun walk_peers :: "string set \<Rightarrow> bucket \<Rightarrow> ID list" where
  "walk_peers visited [] = []"
| "walk_peers visited (p # ps) =
     (if PublicKeyHex p \<in> visited then walk_peers visited ps
      else p # walk_peers (insert (PublicKeyHex p) visited) ps)"

definition GetPeers :: "RoutingTable \<Rightarrow> ID list" where
  "GetPeers t = walk_peers {PublicKeyHex (self t)} (concat (buckets t))"

fun walk_addresses :: "string set \<Rightarrow> bucket \<Rightarrow> string list" where
  "walk_addresses visited [] = []"
| "walk_addresses visited (p # ps) =
     (if PublicKeyHex p \<in> visited then walk_addresses visited ps
      else Address p # walk_addresses (insert (PublicKeyHex p) visited) ps)"

definition GetPeerAddresses :: "RoutingTable \<Rightarrow> string list" where
  "GetPeerAddresses t = walk_addresses {PublicKeyHex (self t)} (concat (buckets t))"

definition RemovePeer :: "RoutingTable \<Rightarrow> ID \<Rightarrow> (bool \<times> RoutingTable) result" where
  "RemovePeer t target =
     (case Bucket t (bucketID t target) of
        None \<Rightarrow> Inl nil_bucket
      | Some b \<Rightarrow>
          if List.find (\<lambda>e. Equals e target) b = None then Inr (False, t)
          else Inr (True, t\<lparr>buckets :=
            (buckets t)[nat (bucketID t target) := remove_first (\<lambda>e. Equals e target) b]\<rparr>))"

definition PeerExists :: "RoutingTable \<Rightarrow> ID \<Rightarrow> bool" where
  "PeerExists t target =
     (case Bucket t (bucketID t target) of
        None \<Rightarrow> False
      | Some b \<Rightarrow> List.find (\<lambda>e. Equals e target) b \<noteq> None)"

definition append_bucket :: "RoutingTable \<Rightarrow> int \<Rightarrow> ID list \<Rightarrow> ID list result" where
  "append_bucket t i peers =
     (case Bucket t i of None \<Rightarrow> Inl nil_bucket | Some b \<Rightarrow> Inr (peers @ b))"

text \<open>The widening loop of \<open>FindClosestPeers\<close>: buckets at distance \<open>i\<close> below and above.\<close>

function gather :: "RoutingTable \<Rightarrow> int \<Rightarrow> int \<Rightarrow> int \<Rightarrow> ID list \<Rightarrow> ID list result" where
  "gather t bid cnt i peers =
     (let n = int (length (Id_hash (self t))) * 8
      in if int (length peers) < cnt \<and> (0 \<le> bid - i \<or> bid + i < n)
         then rbind (if 0 \<le> bid - i then append_bucket t (bid - i) peers else Inr peers)
                (\<lambda>peers1. rbind (if bid + i < n then append_bucket t (bid + i) peers1 else Inr peers1)
                   (\<lambda>peers2. gather t bid cnt (i + 1) peers2))
         else Inr peers)"
  by pat_completeness auto
termination
  by (relation "measure (\<lambda>(t, bid, cnt, i, peers).
        nat (max (bid + 1) (int (length (Id_hash (self t))) * 8 - bid) - i))") auto

declare gather.simps [simp del]

definition FindClosestPeers :: "RoutingTable \<Rightarrow> ID \<Rightarrow> int \<Rightarrow> ID list result" where
  "FindClosestPeers t target cnt =
     (if length (Id_hash (self t)) \<noteq> length (Id_hash target) then Inr []
      else case Bucket t (bucketID t target) of
             None \<Rightarrow> Inl nil_bucket
           | Some b \<Rightarrow> rbind (gather t (bucketID t target) cnt 1 b) (\<lambda>peers.
               let sorted_peers = sort_slice (\<lambda>p q. Less (XorID p target) (XorID q target)) peers
               in if cnt < int (length sorted_peers)
                  then if cnt < 0 then Inl (Panic ''slice bounds out of range'')
                       else Inr (take (nat cnt) sorted_peers)
                  else Inr sorted_peers))"

text \<open>
  \<open>GetRandomPeers\<close>: \<open>pick i\<close> is the value \<^verbatim>\<open>rand.Intn(i)\<close> returns in the iteration for \<open>i\<close>.
\<close>

definition swap :: "'a list \<Rightarrow> nat \<Rightarrow> nat \<Rightarrow> 'a list" where
  "swap xs i j = xs[i := xs ! j, j := xs ! i]"

fun shuffle_buckets :: "(nat \<Rightarrow> nat) \<Rightarrow> nat \<Rightarrow> bucket list \<Rightarrow> bucket list" where
  "shuffle_buckets pick 0 bs = bs"
| "shuffle_buckets pick (Suc i) bs = shuffle_buckets pick i (swap bs (Suc i) (pick (Suc i)))"

fun take_fronts :: "int \<Rightarrow> ID list \<Rightarrow> bucket list \<Rightarrow> ID list" where
  "take_fronts cnt peers [] = peers"
| "take_fronts cnt peers (b # bs) =
     (let peers1 = (case b of [] \<Rightarrow> peers | e # _ \<Rightarrow> peers @ [e])
      in if cnt \<le> int (length peers1) then peers1 else take_fronts cnt peers1 bs)"

definition GetRandomPeers :: "(nat \<Rightarrow> nat) \<Rightarrow> RoutingTable \<Rightarrow> int \<Rightarrow> ID list" where
  "GetRandomPeers pick t cnt =
     (let bs = filter (\<lambda>b. 0 < length b) (buckets t)
      in if bs = [] then [] else take_fronts cnt [] (shuffle_buckets pick (length bs - 1) bs))"

section \<open>The invariant\<close>

definition bucket_ok :: "ID \<Rightarrow> nat \<Rightarrow> bucket \<Rightarrow> bool" where
  "bucket_ok me i b \<longleftrightarrow> length b \<le> BucketSize + 1 \<and> distinct (map Id_hash b) \<and>
     list_all (\<lambda>p. length (Id_hash p) = length (Id_hash me) \<and> PrefixLen (XorID p me) = int i) b"

definition rt_inv :: "RoutingTable \<Rightarrow> bool" where
  "rt_inv t \<longleftrightarrow> Id_hash (self t) \<noteq> [] \<and>
     length (buckets t) = length (Id_hash (self t)) * 8 \<and>
     (\<forall>i < length (buckets t). bucket_ok (self t) i (buckets t ! i))"

text \<open>The peers a table holds.\<close>

definition peers_of :: "RoutingTable \<Rightarrow> ID set" where
  "peers_of t = set (concat (buckets t))"

lemma peers_of_buckets [simp]: "peers_of (t\<lparr>buckets := bs\<rparr>) = set (concat bs)"
  by (simp add: peers_of_def)

lemma bucket_ok_update:
  assumes "bucket_ok me i b" "same_len target me" "PrefixLen (XorID target me) = int i"
  shows "bucket_ok me i (bucket_update b target)"
proof (cases "List.find (\<lambda>e. Equals e target) b")
  case None
  then have "\<forall>e \<in> set b. Id_hash e \<noteq> Id_hash target"
    by (simp add: find_None_iff_all) (simp add: Equals_def)
  moreover have "bucket_update b target = (if length b \<le> BucketSize then target # b else b)"
    using None by (simp add: bucket_update_def)
  ultimately show ?thesis
    using assms by (auto simp: bucket_ok_def list_all_iff)
next
  case (Some e)
  have mset: "mset b = add_mset e (mset (remove_first (\<lambda>e. Equals e target) b))"
    using Some by (rule mset_remove_first)
  then have "mset (map Id_hash b) = mset (map Id_hash (e # remove_first (\<lambda>e. Equals e target) b))"
    by simp
  then have "distinct (map Id_hash (e # remove_first (\<lambda>e. Equals e target) b))"
    using assms(1) unfolding bucket_ok_def by (metis mset_eq_imp_distinct_iff)
  moreover have "set (e # remove_first (\<lambda>e. Equals e target) b) = set b"
    using mset by (metis list.set(2) set_mset_add_mset_insert set_mset_mset)
  moreover have "length (e # remove_first (\<lambda>e. Equals e target) b) = length b"
    using length_remove_first [OF Some] by simp
  ultimately show ?thesis
    using assms(1) Some by (simp add: bucket_update_def bucket_ok_def list_all_iff)
qed

lemma bucket_ok_remove:
  "bucket_ok me i b \<Longrightarrow> bucket_ok me i (remove_first P b)"
  using length_remove_first [of P b] set_remove_first_subset [of P b]
  by (cases "List.find P b")
    (auto simp: bucket_ok_def list_all_iff distinct_map_remove_first find_None_iff_all)

lemma rt_inv_update_bucket:
  assumes "rt_inv t" "bucket_ok (self t) i b"
  shows "rt_inv (t\<lparr>buckets := (buckets t)[i := b]\<rparr>)"
  using assms
  by (cases "i < length (buckets t)") (auto simp: rt_inv_def nth_list_update list_update_beyond)

lemma bucketID_range:
  assumes "rt_inv t" "same_len target (self t)"
  shows "0 \<le> bucketID t target" "bucketID t target < int (length (buckets t))"
proof -
  have "Id_hash (XorID target (self t)) \<noteq> []"
    using assms by (metis Id_hash_XorID length_0_conv length_xor_bytes rt_inv_def)
  from PrefixLen_bounds [OF this] assms
  show "0 \<le> bucketID t target" "bucketID t target < int (length (buckets t))"
    by (auto simp: rt_inv_def)
qed

lemma Bucket_bucketID:
  assumes "rt_inv t" "same_len target (self t)"
  shows "Bucket t (bucketID t target) = Some (buckets t ! nat (bucketID t target))"
  using bucketID_range [OF assms] by (simp add: Bucket_def)

lemma rt_inv_bucket:
  assumes "rt_inv t" "same_len target (self t)"
  shows "bucket_ok (self t) (nat (bucketID t target)) (buckets t ! nat (bucketID t target))"
  using assms bucketID_range [OF assms] by (simp add: rt_inv_def)


lemma in_set_concat_nth: "x \<in> set (concat xs) \<longleftrightarrow> (\<exists>j < length xs. x \<in> set (xs ! j))"
  by simp (metis in_set_conv_nth)

lemma set_concat_update_insert:
  assumes "i < length xs" "set b = insert x (set (xs ! i))"
  shows "set (concat (xs[i := b])) = insert x (set (concat xs))"
proof (rule set_eqI)
  fix y
  show "y \<in> set (concat (xs[i := b])) \<longleftrightarrow> y \<in> insert x (set (concat xs))"
    using assms unfolding insert_iff in_set_concat_nth
    by (auto simp: nth_list_update split: if_splits)
qed

lemma set_concat_update_same:
  assumes "i < length xs" "set b = set (xs ! i)"
  shows "set (concat (xs[i := b])) = set (concat xs)"
proof (rule set_eqI)
  fix y
  show "y \<in> set (concat (xs[i := b])) \<longleftrightarrow> y \<in> set (concat xs)"
    using assms unfolding in_set_concat_nth
    by (auto simp: nth_list_update split: if_splits)
qed

lemma set_concat_update_filter:
  assumes "i < length xs" "set b = {y \<in> set (xs ! i). Q y}"
    and "\<And>j y. j < length xs \<Longrightarrow> j \<noteq> i \<Longrightarrow> y \<in> set (xs ! j) \<Longrightarrow> Q y"
  shows "set (concat (xs[i := b])) = {y \<in> set (concat xs). Q y}"
proof (rule set_eqI)
  fix y
  show "y \<in> set (concat (xs[i := b])) \<longleftrightarrow> y \<in> {y \<in> set (concat xs). Q y}"
    using assms unfolding mem_Collect_eq in_set_concat_nth
    by (auto simp: nth_list_update split: if_splits)
qed

lemma set_bucket_update:
  "set (bucket_update b target) =
     (if \<exists>e \<in> set b. Equals e target then set b
      else if length b \<le> BucketSize then insert target (set b) else set b)"
proof (cases "List.find (\<lambda>e. Equals e target) b")
  case None
  then have "\<not> (\<exists>e \<in> set b. Equals e target)" by (simp add: find_None_iff_all)
  with None show ?thesis by (simp add: bucket_update_def)
next
  case (Some e)
  have "set (e # remove_first (\<lambda>e. Equals e target) b) = set b"
    using mset_remove_first [OF Some] by (metis list.set(2) set_mset_add_mset_insert set_mset_mset)
  moreover have "\<exists>e \<in> set b. Equals e target" using find_Some_props [OF Some] by blast
  ultimately show ?thesis using Some by (simp add: bucket_update_def)
qed

lemma peer_in_bucket:
  assumes "rt_inv t" "p \<in> peers_of t"
  shows "same_len p (self t)" "p \<in> set (buckets t ! nat (bucketID t p))"
  using assms by (auto simp: rt_inv_def peers_of_def in_set_concat_nth bucket_ok_def list_all_iff
      simp del: set_concat)

lemma Equals_bucketID: "Equals p q \<Longrightarrow> bucketID t p = bucketID t q"
  by (simp add: Equals_def PrefixLen_eq)

lemma Equals_same_len: "Equals p q \<Longrightarrow> same_len p q"
  by (simp add: Equals_def)

lemma in_bucket_iff:
  assumes "rt_inv t" "same_len target (self t)"
  shows "(\<exists>e \<in> set (buckets t ! nat (bucketID t target)). Equals e target) \<longleftrightarrow>
    (\<exists>p \<in> peers_of t. Equals p target)" (is "?l \<longleftrightarrow> ?r")
proof
  assume ?l
  then show ?r
    using bucketID_range [OF assms] unfolding peers_of_def in_set_concat_nth Bex_def
    by (metis nat_less_iff)
next
  assume ?r
  then show ?l using peer_in_bucket(2) [OF assms(1)] Equals_bucketID by metis
qed

lemma PeerExists_iff:
  assumes "rt_inv t"
  shows "PeerExists t target \<longleftrightarrow> (\<exists>p \<in> peers_of t. Equals p target)"
proof (cases "same_len target (self t)")
  case True
  then show ?thesis
    using Bucket_bucketID [OF assms True] in_bucket_iff [OF assms True]
    by (simp add: PeerExists_def find_None_iff_all)
next
  case False
  have "\<not> Equals p target" if "p \<in> peers_of t" for p
    using that peer_in_bucket(1) [OF assms that] False by (auto simp: Equals_def)
  moreover have "Bucket t (bucketID t target) = Some b \<Longrightarrow> set b \<subseteq> peers_of t" for b
    unfolding peers_of_def in_set_concat_nth subset_iff
    by (auto simp: Bucket_def split: if_splits intro!: exI [of _ "nat (bucketID t target)"])
  ultimately show ?thesis
    by (fastforce simp: PeerExists_def find_None_iff_all split: option.splits)
qed

lemma Update_eq:
  assumes "rt_inv t" "same_len target (self t)"
  shows "Update t target = Inr (t\<lparr>buckets := (buckets t)[nat (bucketID t target) :=
    bucket_update (buckets t ! nat (bucketID t target)) target]\<rparr>)"
  using Bucket_bucketID [OF assms] assms(2) by (simp add: Update_def)

lemma Update_inv:
  assumes "rt_inv t" "Update t target = Inr t'"
  shows "rt_inv t'" "self t' = self t"
proof -
  have "rt_inv t' \<and> self t' = self t"
  proof (cases "same_len target (self t)")
    case True
    have "bucket_ok (self t) (nat (bucketID t target))
        (bucket_update (buckets t ! nat (bucketID t target)) target)"
      using bucket_ok_update [OF rt_inv_bucket [OF assms(1) True] True] bucketID_range(1) [OF assms(1) True]
      by simp
    from rt_inv_update_bucket [OF assms(1) this] show ?thesis
      using assms(2) Update_eq [OF assms(1) True] by auto
  qed (use assms in \<open>auto simp: Update_def\<close>)
  then show "rt_inv t'" "self t' = self t" by blast+
qed

lemma Update_peers:
  assumes "rt_inv t" "same_len target (self t)"
  obtains t' where "Update t target = Inr t'" "rt_inv t'" "self t' = self t"
    "peers_of t' = (if PeerExists t target then peers_of t
       else if length (buckets t ! nat (bucketID t target)) \<le> BucketSize
            then insert target (peers_of t) else peers_of t)"
proof -
  let ?i = "nat (bucketID t target)"
  let ?b = "bucket_update (buckets t ! ?i) target"
  let ?t' = "t\<lparr>buckets := (buckets t)[?i := ?b]\<rparr>"
  have i: "?i < length (buckets t)" using bucketID_range [OF assms] by (simp add: nat_less_iff)
  have "peers_of ?t' = (if PeerExists t target then peers_of t
       else if length (buckets t ! ?i) \<le> BucketSize then insert target (peers_of t) else peers_of t)"
    unfolding PeerExists_iff [OF assms(1)] in_bucket_iff [OF assms, symmetric]
    unfolding peers_of_buckets unfolding peers_of_def
    using set_concat_update_insert [OF i, of ?b target] set_concat_update_same [OF i, of ?b]
      set_bucket_update [of "buckets t ! ?i" target] by presburger
  then show thesis
    using that [of ?t'] Update_eq [OF assms] Update_inv [OF assms(1) Update_eq [OF assms]] by blast
qed

lemma RemovePeer_peers:
  assumes "rt_inv t" "same_len target (self t)"
  obtains t' where "RemovePeer t target = Inr (PeerExists t target, t')" "rt_inv t'" "self t' = self t"
    "peers_of t' = {p \<in> peers_of t. \<not> Equals p target}"
proof (cases "PeerExists t target")
  case True
  let ?i = "nat (bucketID t target)"
  let ?b = "remove_first (\<lambda>e. Equals e target) (buckets t ! ?i)"
  let ?t' = "t\<lparr>buckets := (buckets t)[?i := ?b]\<rparr>"
  have i: "?i < length (buckets t)" using bucketID_range [OF assms] by (simp add: nat_less_iff)
  have "set ?b = {p \<in> set (buckets t ! ?i). \<not> Equals p target}"
    using set_remove_first_key [of Id_hash "buckets t ! ?i" "Id_hash target"] rt_inv_bucket [OF assms]
    by (simp add: bucket_ok_def Equals_def)
  moreover have "\<not> Equals y target"
    if "j < length (buckets t)" "j \<noteq> ?i" "y \<in> set (buckets t ! j)" for j y
  proof
    assume "Equals y target"
    moreover have "bucketID t y = int j"
      using that assms(1) by (simp add: rt_inv_def bucket_ok_def list_all_iff)
    ultimately show False using that(2) Equals_bucketID by fastforce
  qed
  ultimately have "peers_of ?t' = {p \<in> peers_of t. \<not> Equals p target}"
    unfolding peers_of_buckets unfolding peers_of_def
    by (rule set_concat_update_filter [OF i, where Q = "\<lambda>p. \<not> Equals p target"])
  moreover have "RemovePeer t target = Inr (True, ?t')"
    using True Bucket_bucketID [OF assms] by (simp add: RemovePeer_def PeerExists_def)
  moreover have "rt_inv ?t'"
    using rt_inv_update_bucket [OF assms(1) bucket_ok_remove [OF rt_inv_bucket [OF assms]]] .
  ultimately show thesis using that [of ?t'] True by auto
next
  case False
  then have "RemovePeer t target = Inr (PeerExists t target, t)"
    using Bucket_bucketID [OF assms] by (simp add: RemovePeer_def PeerExists_def)
  moreover have "peers_of t = {p \<in> peers_of t. \<not> Equals p target}"
    using False unfolding PeerExists_iff [OF assms(1)] by blast
  ultimately show thesis by (rule that [OF _ assms(1) refl])
qed


section \<open>The interface of the table\<close>

text \<open>
  The discovery component uses the table through three operations. \<open>peer_table\<close> is their contract:
  \<open>ids\<close> is the abstract state, the set of the hashes stored, and \<open>admits\<close> says for which identities
  the operations are safe. \<open>run_ops\<close> is a client that performs a sequence of operations.
\<close>

datatype table_op = Touch ID | Drop ID

fun op_id :: "table_op \<Rightarrow> ID" where
  "op_id (Touch p) = p"
| "op_id (Drop p) = p"

fun run_ops :: "('t \<Rightarrow> ID \<Rightarrow> 't result) \<Rightarrow> ('t \<Rightarrow> ID \<Rightarrow> (bool \<times> 't) result) \<Rightarrow> table_op list \<Rightarrow> 't \<Rightarrow>
    't result" where
  "run_ops upd rm [] t = Inr t"
| "run_ops upd rm (Touch p # ops) t = rbind (upd t p) (run_ops upd rm ops)"
| "run_ops upd rm (Drop p # ops) t = rbind (rm t p) (\<lambda>r. run_ops upd rm ops (snd r))"

locale peer_table =
  fixes tinv :: "'t \<Rightarrow> bool"
    and ids :: "'t \<Rightarrow> bytes set"
    and admits :: "'t \<Rightarrow> ID \<Rightarrow> bool"
    and upd :: "'t \<Rightarrow> ID \<Rightarrow> 't result"
    and rm :: "'t \<Rightarrow> ID \<Rightarrow> (bool \<times> 't) result"
    and ex :: "'t \<Rightarrow> ID \<Rightarrow> bool"
  assumes upd_ok: "tinv t \<Longrightarrow> admits t p \<Longrightarrow>
      \<exists>t'. upd t p = Inr t' \<and> tinv t' \<and> admits t' = admits t \<and>
        ids t \<subseteq> ids t' \<and> ids t' \<subseteq> insert (Id_hash p) (ids t)"
    and rm_ok: "tinv t \<Longrightarrow> admits t p \<Longrightarrow>
      \<exists>t'. rm t p = Inr (ex t p, t') \<and> tinv t' \<and> admits t' = admits t \<and> ids t' = ids t - {Id_hash p}"
    and ex_iff: "tinv t \<Longrightarrow> ex t p \<longleftrightarrow> Id_hash p \<in> ids t"
begin

lemma rm_ex:
  assumes "tinv t" "admits t p" "rm t p = Inr (r, t')"
  shows "r = ex t p" "\<not> ex t' p"
  using rm_ok [OF assms(1,2)] assms(3) by (auto simp: ex_iff)

lemma run_ops_ok:
  assumes "tinv t" "\<forall>q \<in> set ops. admits t (op_id q)"
  shows "\<exists>t'. run_ops upd rm ops t = Inr t' \<and> tinv t' \<and> admits t' = admits t \<and>
    ids t' \<subseteq> ids t \<union> {Id_hash p |p. Touch p \<in> set ops}"
  using assms
proof (induction ops arbitrary: t)
  case (Cons q ops)
  show ?case
  proof (cases q)
    case (Touch p)
    from upd_ok [of t p] obtain t1 where t1: "upd t p = Inr t1" "tinv t1" "admits t1 = admits t"
      "ids t1 \<subseteq> insert (Id_hash p) (ids t)" using Cons.prems Touch by auto
    from Cons.IH [OF t1(2)] obtain t2 where "run_ops upd rm ops t1 = Inr t2" "tinv t2"
      "admits t2 = admits t1" "ids t2 \<subseteq> ids t1 \<union> {Id_hash p |p. Touch p \<in> set ops}"
      using Cons.prems t1(3) by auto
    then show ?thesis using t1 Touch by (intro exI [of _ t2]) auto
  next
    case (Drop p)
    from rm_ok [of t p] obtain t1 where t1: "rm t p = Inr (ex t p, t1)" "tinv t1" "admits t1 = admits t"
      "ids t1 \<subseteq> ids t" using Cons.prems Drop by auto
    from Cons.IH [OF t1(2)] obtain t2 where "run_ops upd rm ops t1 = Inr t2" "tinv t2"
      "admits t2 = admits t1" "ids t2 \<subseteq> ids t1 \<union> {Id_hash p |p. Touch p \<in> set ops}"
      using Cons.prems t1(3) by auto
    then show ?thesis using t1 Drop by (intro exI [of _ t2]) auto
  qed
qed auto

end

definition table_ids :: "RoutingTable \<Rightarrow> bytes set" where
  "table_ids t = Id_hash ` peers_of t"

lemma PeerExists_ids: "rt_inv t \<Longrightarrow> PeerExists t p \<longleftrightarrow> Id_hash p \<in> table_ids t"
  unfolding table_ids_def by (simp add: PeerExists_iff Equals_def) (metis image_iff)

interpretation routes: peer_table rt_inv table_ids "\<lambda>t p. same_len p (self t)" Update RemovePeer PeerExists
proof unfold_locales
  fix t p
  assume t: "rt_inv t" and p: "same_len p (self t)"
  obtain t' where "Update t p = Inr t'" "rt_inv t'" "self t' = self t"
    "peers_of t \<subseteq> peers_of t'" "peers_of t' \<subseteq> insert p (peers_of t)"
    by (rule Update_peers [OF t p]) (metis subset_insertI subset_refl)
  then show "\<exists>t'. Update t p = Inr t' \<and> rt_inv t' \<and>
      (\<lambda>p. same_len p (self t')) = (\<lambda>p. same_len p (self t)) \<and>
      table_ids t \<subseteq> table_ids t' \<and> table_ids t' \<subseteq> insert (Id_hash p) (table_ids t)"
    unfolding table_ids_def by (intro exI [of _ t']) auto
next
  fix t p
  assume t: "rt_inv t" and p: "same_len p (self t)"
  obtain t' where "RemovePeer t p = Inr (PeerExists t p, t')" "rt_inv t'" "self t' = self t"
    "peers_of t' = {q \<in> peers_of t. \<not> Equals q p}"
    by (rule RemovePeer_peers [OF t p])
  then show "\<exists>t'. RemovePeer t p = Inr (PeerExists t p, t') \<and> rt_inv t' \<and>
      (\<lambda>p. same_len p (self t')) = (\<lambda>p. same_len p (self t)) \<and> table_ids t' = table_ids t - {Id_hash p}"
    unfolding table_ids_def by (intro exI [of _ t']) (auto simp: Equals_def)
qed (rule PeerExists_ids)

lemma CreateRoutingTable_inv:
  assumes "Id_hash pid \<noteq> []"
  shows "\<exists>t. CreateRoutingTable pid = Inr t \<and> rt_inv t \<and> self t = pid \<and> peers_of t = {pid}"
proof -
  let ?t = "\<lparr>self = pid, buckets = replicate (length (Id_hash pid) * 8) NewBucket\<rparr>"
  have t: "rt_inv ?t" "same_len pid (self ?t)" "peers_of ?t = {}"
    using assms by (auto simp: rt_inv_def NewBucket_def bucket_ok_def peers_of_def)
  have "buckets ?t ! nat (bucketID ?t pid) = []"
    using bucketID_range [OF t(1,2)] by (simp add: NewBucket_def)
  moreover have "\<not> PeerExists ?t pid" using t(3) by (simp add: PeerExists_iff [OF t(1)])
  ultimately show ?thesis
    using t(3) unfolding CreateRoutingTable_def by (metis RoutingTable.select_convs(1) Update_peers [OF t(1,2)] le0 list.size(3))
qed


section \<open>Closest peers\<close>

lemma bit_len_xor_le: "bit_len (m XOR n) \<le> max (bit_len m) (bit_len n)"
proof (cases "bit_len m" "bit_len n" rule: linorder_cases)
  case less
  then show ?thesis using bit_len_xor_less [OF less] by (simp add: xor.commute)
next
  case equal
  then show ?thesis using bit_len_xor_eq [of n m] by (cases "m = 0") auto
next
  case greater
  then show ?thesis using bit_len_xor_less [OF greater] by simp
qed

lemma xor_closer:
  assumes "max 1 (bit_len m) = max 1 (bit_len k)" "max 1 (bit_len n) \<noteq> max 1 (bit_len k)"
  shows "m XOR k < n XOR k"
proof (rule bit_len_less_imp_less)
  show "bit_len (m XOR k) < bit_len (n XOR k)"
  proof (cases "bit_len k < bit_len n")
    case True
    then show ?thesis
      using bit_len_xor_less [OF True] bit_len_xor_le [of m k] assms by simp
  next
    case False
    then have k: "bit_len n < bit_len k" "bit_len m = bit_len k" "0 < k" "0 < m"
      using assms by (auto simp: max_def split: if_splits intro!: gr0I)
    then show ?thesis
      using bit_len_xor_less [OF k(1)] bit_len_xor_eq [OF k(2) [symmetric]] by (simp add: xor.commute)
  qed
qed

lemma PrefixLen_max:
  "same_len p q \<Longrightarrow> PrefixLen (XorID p q) = 8 * int (length (Id_hash q)) - int (max 1 (bit_len (distance p q)))"
  by (auto simp: PrefixLen_distance max_def Suc_le_eq)

text \<open>A peer of the target's own bucket is closer to the target than any peer of another bucket.\<close>

lemma own_bucket_closer:
  assumes "same_len p me" "same_len q me" "same_len target me"
    and "PrefixLen (XorID p me) = PrefixLen (XorID target me)"
    and "PrefixLen (XorID q me) \<noteq> PrefixLen (XorID target me)"
  shows "distance p target < distance q target"
proof -
  let ?d = "\<lambda>x. be_nat (Id_hash x) XOR be_nat (Id_hash me)"
  have "?d p XOR ?d target < ?d q XOR ?d target"
    using assms by (intro xor_closer) (auto simp: PrefixLen_max distance_eq_xor)
  then show ?thesis
    using assms(1-3) by (simp add: distance_eq_xor) (metis xor.assoc xor.commute xor_nat_chain)
qed

definition window :: "RoutingTable \<Rightarrow> int \<Rightarrow> int \<Rightarrow> nat set" where
  "window t bid i = {k. k < length (buckets t) \<and> bid - i < int k \<and> int k < bid + i}"

definition gathered :: "RoutingTable \<Rightarrow> int \<Rightarrow> int \<Rightarrow> ID multiset" where
  "gathered t bid i = (\<Sum>k \<in> window t bid i. mset (buckets t ! k))"

lemma finite_window [simp]: "finite (window t bid i)"
  by (simp add: window_def)

lemma window_Suc:
  assumes "0 \<le> bid" "bid < int (length (buckets t))" "1 \<le> i"
  shows "window t bid (i + 1) = window t bid i \<union> (if 0 \<le> bid - i then {nat (bid - i)} else {})
    \<union> (if bid + i < int (length (buckets t)) then {nat (bid + i)} else {})"
  using assms by (auto simp: window_def)

lemma gathered_Suc:
  assumes "0 \<le> bid" "bid < int (length (buckets t))" "1 \<le> i"
  shows "gathered t bid (i + 1) = gathered t bid i
    + (if 0 \<le> bid - i then mset (buckets t ! nat (bid - i)) else {#})
    + (if bid + i < int (length (buckets t)) then mset (buckets t ! nat (bid + i)) else {#})"
proof -
  have new: "0 \<le> bid - i \<Longrightarrow> nat (bid - i) \<notin> window t bid i" "nat (bid + i) \<notin> window t bid i"
    "0 \<le> bid - i \<Longrightarrow> nat (bid - i) \<noteq> nat (bid + i)"
    using assms by (auto simp: window_def)
  show ?thesis
    unfolding gathered_def window_Suc [OF assms] using new by (auto simp: ac_simps)
qed

lemma mset_concat_nth: "mset (concat xs) = (\<Sum>k < length xs. mset (xs ! k))"
  by (simp add: mset_concat sum_list_sum_nth atLeast0LessThan)

lemma gathered_subset: "gathered t bid i \<subseteq># mset (concat (buckets t))"
proof -
  have "window t bid i \<subseteq> {..<length (buckets t)}" by (auto simp: window_def)
  from sum.subset_diff [OF this, of "\<lambda>k. mset (buckets t ! k)"] show ?thesis
    by (simp add: gathered_def mset_concat_nth)
qed

lemma gather_ok:
  assumes "rt_inv t" "0 \<le> bid" "bid < int (length (buckets t))" "1 \<le> i" "mset peers = gathered t bid i"
  shows "\<exists>ps j. gather t bid cnt i peers = Inr ps \<and> mset ps = gathered t bid j \<and>
    (cnt \<le> int (length ps) \<or> window t bid j = {..<length (buckets t)})"
  using assms
proof (induction t bid cnt i peers rule: gather.induct)
  case (1 t bid cnt i peers)
  let ?n = "int (length (Id_hash (self t))) * 8"
  have n: "?n = int (length (buckets t))" using "1.prems"(1) by (simp add: rt_inv_def)
  show ?case
  proof (cases "int (length peers) < cnt \<and> (0 \<le> bid - i \<or> bid + i < ?n)")
    case False
    have "window t bid i = {..<length (buckets t)}" if "int (length peers) < cnt"
      using False that n "1.prems"(2-4) by (auto simp: window_def)
    then show ?thesis
      using False "1.prems"(5) by (subst gather.simps) (auto simp: Let_def intro!: exI [of _ i])
  next
    case True
    let ?p1 = "if 0 \<le> bid - i then peers @ buckets t ! nat (bid - i) else peers"
    let ?p2 = "if bid + i < ?n then ?p1 @ buckets t ! nat (bid + i) else ?p1"
    have steps: "(if 0 \<le> bid - i then append_bucket t (bid - i) peers else Inr peers) = Inr ?p1"
      "(if bid + i < ?n then append_bucket t (bid + i) ?p1 else Inr ?p1) = Inr ?p2"
      using "1.prems" n by (auto simp: append_bucket_def Bucket_def)
    have "mset ?p2 = gathered t bid (i + 1)"
      using "1.prems" n by (simp add: gathered_Suc)
    then have "\<exists>ps j. gather t bid cnt (i + 1) ?p2 = Inr ps \<and> mset ps = gathered t bid j \<and>
        (cnt \<le> int (length ps) \<or> window t bid j = {..<length (buckets t)})"
      using "1.prems" True by (intro "1.IH" [OF refl]) auto
    moreover have "gather t bid cnt i peers = gather t bid cnt (i + 1) ?p2"
      using True steps by (subst gather.simps) (simp only: Let_def if_True rbind_simps simp_thms)
    ultimately show ?thesis by (simp only:)
  qed
qed


lemma sorted_take_drop:
  "sorted_wrt R xs \<Longrightarrow> x \<in> set (take n xs) \<Longrightarrow> y \<in> set (drop n xs) \<Longrightarrow> R x y"
  by (metis append_take_drop_id sorted_wrt_append)

lemma distinct_map_concat:
  assumes "\<And>i. i < length xs \<Longrightarrow> distinct (map f (xs ! i))"
    and "\<And>i j x y. i < length xs \<Longrightarrow> j < length xs \<Longrightarrow> i \<noteq> j \<Longrightarrow> x \<in> set (xs ! i) \<Longrightarrow> y \<in> set (xs ! j) \<Longrightarrow> f x \<noteq> f y"
  shows "distinct (map f (concat xs))"
  using assms
proof (induction xs)
  case (Cons b bs)
  have "distinct (map f (concat bs))"
    using Cons.prems(1) [of "Suc _"] Cons.prems(2) [of "Suc _" "Suc _"] by (intro Cons.IH) auto
  moreover have "f x \<noteq> f y" if "x \<in> set b" "y \<in> set (concat bs)" for x y
    using that Cons.prems(2) [of 0 "Suc _"] unfolding in_set_concat_nth by fastforce
  ultimately show ?case using Cons.prems(1) [of 0] by fastforce
qed simp

lemma distinct_ids:
  assumes "rt_inv t"
  shows "distinct (map Id_hash (concat (buckets t)))"
proof (rule distinct_map_concat)
  fix i j x y
  assume *: "i < length (buckets t)" "j < length (buckets t)" "i \<noteq> j"
    "x \<in> set (buckets t ! i)" "y \<in> set (buckets t ! j)"
  then have "bucketID t x = int i" "bucketID t y = int j"
    using assms by (auto simp: rt_inv_def bucket_ok_def list_all_iff)
  with *(3) show "Id_hash x \<noteq> Id_hash y"
    using Equals_bucketID [of x y t] by (auto simp: Equals_def)
qed (use assms in \<open>simp add: rt_inv_def bucket_ok_def\<close>)

lemma gathered_1:
  assumes "0 \<le> bid" "bid < int (length (buckets t))"
  shows "gathered t bid 1 = mset (buckets t ! nat bid)"
proof -
  have "window t bid 1 = {nat bid}" using assms by (auto simp: window_def)
  then show ?thesis by (simp add: gathered_def)
qed

lemma sort_by_distance:
  assumes "\<forall>p \<in> set ps. same_len p target"
  shows "sorted_wrt (\<lambda>p q. distance p target \<le> distance q target)
    (sort_slice (\<lambda>p q. Less (XorID p target) (XorID q target)) ps)"
proof (rule sorted_wrt_mono_rel [OF _ xor_order.sorted_sort_slice])
  fix p q
  assume "p \<in> set (sort_slice (\<lambda>p q. Less (XorID p target) (XorID q target)) ps)"
    "q \<in> set (sort_slice (\<lambda>p q. Less (XorID p target) (XorID q target)) ps)"
    "\<not> Less (XorID q target) (XorID p target)"
  then show "distance p target \<le> distance q target"
    using assms by (simp add: Less_XorID_iff)
qed

lemma FindClosestPeers_eq:
  assumes "rt_inv t" "same_len target (self t)" "0 \<le> cnt"
  obtains ps where "mset ps \<subseteq># mset (concat (buckets t))"
    "cnt \<le> int (length ps) \<or> mset ps = mset (concat (buckets t))"
    "cnt \<le> int (length (buckets t ! nat (bucketID t target))) \<Longrightarrow> ps = buckets t ! nat (bucketID t target)"
    "FindClosestPeers t target cnt =
       Inr (take (nat cnt) (sort_slice (\<lambda>p q. Less (XorID p target) (XorID q target)) ps))"
proof -
  let ?bid = "bucketID t target"
  let ?b = "buckets t ! nat ?bid"
  note range = bucketID_range [OF assms(1,2)]
  obtain ps j where ps: "gather t ?bid cnt 1 ?b = Inr ps" "mset ps = gathered t ?bid j"
    "cnt \<le> int (length ps) \<or> window t ?bid j = {..<length (buckets t)}"
    using gather_ok [OF assms(1) range, of 1 ?b cnt] gathered_1 [OF range] by auto
  have "FindClosestPeers t target cnt =
      Inr (take (nat cnt) (sort_slice (\<lambda>p q. Less (XorID p target) (XorID q target)) ps))"
    using ps(1) Bucket_bucketID [OF assms(1,2)] assms(2,3) by (simp add: FindClosestPeers_def Let_def)
  moreover have "cnt \<le> int (length ps) \<or> mset ps = mset (concat (buckets t))"
    using ps(2,3) unfolding gathered_def mset_concat_nth by metis
  moreover have "ps = ?b" if "cnt \<le> int (length ?b)"
  proof -
    have "gather t ?bid cnt 1 ?b = Inr ?b" using that by (subst gather.simps) (simp only: Let_def, simp)
    then show ?thesis using ps(1) by simp
  qed
  moreover have "mset ps \<subseteq># mset (concat (buckets t))" unfolding ps(2) by (rule gathered_subset)
  ultimately show thesis by (intro that [of ps])
qed

lemma distinct_mset_subset:
  assumes "mset xs \<subseteq># mset ys" "distinct ys"
  shows "distinct xs"
proof -
  obtain zs where "mset ys = mset (xs @ zs)"
    using assms(1) by (metis ex_mset mset_append mset_subset_eq_exists_conv)
  then have "distinct (xs @ zs)" using assms(2) by (metis mset_eq_imp_distinct_iff)
  then show ?thesis by simp
qed

lemma card_peers:
  assumes "rt_inv t"
  shows "card (peers_of t) = length (concat (buckets t))"
  unfolding peers_of_def using distinct_ids [OF assms] by (metis distinct_card distinct_map)

text \<open>
  C8. For a non-negative count, \<open>FindClosestPeers\<close> returns (it never dereferences a nil bucket):
  peers of the table, without repetition, sorted by XOR distance to the target, and as many as
  asked for, or all of them when the table holds fewer.
\<close>

theorem FindClosestPeers_sorted_complete:
  assumes "rt_inv t" "same_len target (self t)" "0 \<le> cnt"
  shows "\<exists>ps. FindClosestPeers t target cnt = Inr ps \<and> set ps \<subseteq> peers_of t \<and>
    distinct (map Id_hash ps) \<and> length ps = min (nat cnt) (card (peers_of t)) \<and>
    sorted_wrt (\<lambda>p q. distance p target \<le> distance q target) ps"
proof (rule FindClosestPeers_eq [OF assms])
  fix ps
  let ?s = "sort_slice (\<lambda>p q. Less (XorID p target) (XorID q target)) ps"
  assume ps: "mset ps \<subseteq># mset (concat (buckets t))"
    "cnt \<le> int (length ps) \<or> mset ps = mset (concat (buckets t))"
    "FindClosestPeers t target cnt = Inr (take (nat cnt) ?s)"
  have sub: "set ps \<subseteq> peers_of t"
    unfolding peers_of_def using set_mset_mono [OF ps(1)] by simp
  have "length ps \<le> length (concat (buckets t))" using size_mset_mono [OF ps(1)] by simp
  moreover have "length ps = length (concat (buckets t))" if "mset ps = mset (concat (buckets t))"
    using that by (rule mset_eq_length)
  ultimately have "length (take (nat cnt) ?s) = min (nat cnt) (card (peers_of t))"
    using ps(2) unfolding card_peers [OF assms(1)] by auto
  moreover have "mset (map Id_hash ps) \<subseteq># mset (map Id_hash (concat (buckets t)))"
    using image_mset_subseteq_mono [OF ps(1)] by simp
  then have "distinct (map Id_hash ?s)"
    using distinct_ids [OF assms(1)] unfolding distinct_map_sort_slice by (rule distinct_mset_subset)
  then have "distinct (map Id_hash (take (nat cnt) ?s))" by (metis distinct_take take_map)
  moreover have "sorted_wrt (\<lambda>p q. distance p target \<le> distance q target) (take (nat cnt) ?s)"
    using sub peer_in_bucket(1) [OF assms(1)] assms(2)
    by (intro sorted_wrt_take sort_by_distance) auto
  moreover have "set (take (nat cnt) ?s) \<subseteq> peers_of t"
    using sub set_take_subset [of "nat cnt" ?s] by auto
  ultimately show ?thesis using ps(3) by blast
qed

text \<open>
  C9. When the target's own bucket holds at least \<open>cnt\<close> peers, the result is exact: no peer of the
  whole table that was left out is closer to the target than a peer that was returned.
\<close>

theorem FindClosestPeers_exact:
  assumes "rt_inv t" "same_len target (self t)" "0 \<le> cnt"
    and "cnt \<le> int (length (buckets t ! nat (PrefixLen (XorID target (self t)))))"
  shows "\<exists>ps. FindClosestPeers t target cnt = Inr ps \<and> length ps = nat cnt \<and>
    (\<forall>p \<in> set ps. \<forall>q \<in> peers_of t - set ps. distance p target \<le> distance q target)"
proof -
  let ?b = "buckets t ! nat (bucketID t target)"
  let ?s = "sort_slice (\<lambda>p q. Less (XorID p target) (XorID q target)) ?b"
  have res: "FindClosestPeers t target cnt = Inr (take (nat cnt) ?s)"
    by (rule FindClosestPeers_eq [OF assms(1-3)]) (use assms(4) in auto)
  have ok: "\<forall>p \<in> set ?b. same_len p (self t) \<and> bucketID t p = bucketID t target"
    using rt_inv_bucket [OF assms(1,2)] nat_0_le [OF bucketID_range(1) [OF assms(1,2)]]
    unfolding bucket_ok_def list_all_iff by metis
  have "distance p target \<le> distance q target"
    if "p \<in> set (take (nat cnt) ?s)" "q \<in> peers_of t" "q \<notin> set (take (nat cnt) ?s)" for p q
  proof (cases "q \<in> set ?b")
    case True
    then have drop: "q \<in> set (drop (nat cnt) ?s)"
      using that(3) by (metis Un_iff append_take_drop_id set_append set_sort_slice)
    have "sorted_wrt (\<lambda>p q. distance p target \<le> distance q target) ?s"
      using ok assms(2) by (intro sort_by_distance ballI) metis
    from sorted_take_drop [OF this that(1) drop] show ?thesis .
  next
    case False
    then have "bucketID t q \<noteq> bucketID t target"
      using peer_in_bucket(2) [OF assms(1) that(2)] by metis
    moreover have "p \<in> set ?b" using that(1) by (metis in_set_takeD set_sort_slice)
    ultimately have "distance p target < distance q target"
      using ok peer_in_bucket(1) [OF assms(1) that(2)] assms(2) own_bucket_closer by blast
    then show ?thesis by simp
  qed
  then show ?thesis using res assms(3,4) by (intro exI [of _ "take (nat cnt) ?s"]) auto
qed


section \<open>Listing and membership\<close>

lemma walk_peers_keys:
  "PublicKeyHex ` set (walk_peers visited ps) = PublicKeyHex ` set ps - visited"
  by (induction visited ps rule: walk_peers.induct) auto

lemma walk_peers_distinct: "distinct (map PublicKeyHex (walk_peers visited ps))"
proof (induction visited ps rule: walk_peers.induct)
  case (2 visited p ps)
  then show ?case
    using walk_peers_keys [of "insert (PublicKeyHex p) visited" ps] by (auto simp: image_iff)
qed simp

lemma walk_peers_subset: "set (walk_peers visited ps) \<subseteq> set ps"
  by (induction visited ps rule: walk_peers.induct) auto

lemma walk_addresses_eq: "walk_addresses visited ps = map Address (walk_peers visited ps)"
  by (induction visited ps rule: walk_peers.induct) auto

text \<open>
  \<open>GetPeers\<close> lists table entries, never two with the same public key, covers exactly the public
  keys in the table other than the node's own, and \<open>GetPeerAddresses\<close> is its image under the
  address field.
\<close>

theorem GetPeers_unique_complete:
  "set (GetPeers t) \<subseteq> peers_of t \<and> distinct (map PublicKeyHex (GetPeers t)) \<and>
   PublicKeyHex ` set (GetPeers t) = PublicKeyHex ` peers_of t - {PublicKeyHex (self t)} \<and>
   GetPeerAddresses t = map Address (GetPeers t)"
  unfolding GetPeers_def GetPeerAddresses_def peers_of_def
  using walk_peers_keys walk_peers_distinct walk_peers_subset walk_addresses_eq by metis

lemma concat_length_le:
  "\<forall>b \<in> set bs. length b \<le> n \<Longrightarrow> length (concat bs) \<le> n * length bs"
  by (induction bs) auto

lemma card_peers_le:
  assumes "rt_inv t"
  shows "card (peers_of t) \<le> 17 * (8 * length (Id_hash (self t)))"
proof -
  have "\<forall>b \<in> set (buckets t). length b \<le> 17"
    using assms by (auto simp: rt_inv_def bucket_ok_def BucketSize_def in_set_conv_nth)
  then show ?thesis
    using concat_length_le [of "buckets t" 17] assms by (simp add: card_peers rt_inv_def)
qed


text \<open>
  C27. \<open>Update\<close> on an identity of the right length keeps the invariant, makes the peer known exactly
  when it was known or its bucket had at most \<open>BucketSize\<close> entries, changes the membership of no
  other identity, and leaves the stored entries untouched (address included) when the peer was
  known. A peer of another hash length is ignored.
\<close>

theorem Update_membership:
  assumes "rt_inv t"
  shows "\<exists>t'. Update t p = Inr t' \<and> rt_inv t' \<and> self t' = self t \<and>
    (PeerExists t' p \<longleftrightarrow> PeerExists t p \<or> same_len p (self t) \<and>
       length (buckets t ! nat (PrefixLen (XorID p (self t)))) \<le> BucketSize) \<and>
    (\<forall>q. Id_hash q \<noteq> Id_hash p \<longrightarrow> PeerExists t' q = PeerExists t q) \<and>
    (PeerExists t p \<or> \<not> same_len p (self t) \<longrightarrow> peers_of t' = peers_of t)"
proof (cases "same_len p (self t)")
  case True
  show ?thesis
  proof (rule Update_peers [OF assms True])
    fix t'
    assume t': "Update t p = Inr t'" "rt_inv t'" "self t' = self t"
      "peers_of t' = (if PeerExists t p then peers_of t
         else if length (buckets t ! nat (bucketID t p)) \<le> BucketSize
              then insert p (peers_of t) else peers_of t)"
    then show ?thesis
      using True by (intro exI [of _ t']) (auto simp: PeerExists_iff assms Equals_def)
  qed
qed (use assms in \<open>auto simp: Update_def\<close>)

text \<open>
  \<open>RemovePeer\<close> on an identity of the right length reports whether the peer was known, keeps the
  invariant, forgets that peer and changes the membership of no other identity. An empty hash,
  which \<open>PeerExists\<close> and \<open>Update\<close> tolerate, dereferences a nil bucket.
\<close>

theorem RemovePeer_membership:
  assumes "rt_inv t"
  shows "(same_len p (self t) \<longrightarrow> (\<exists>t'. RemovePeer t p = Inr (PeerExists t p, t') \<and> rt_inv t' \<and>
      \<not> PeerExists t' p \<and> (\<forall>q. Id_hash q \<noteq> Id_hash p \<longrightarrow> PeerExists t' q = PeerExists t q))) \<and>
    (Id_hash p = [] \<longrightarrow> panics (RemovePeer t p) \<and> \<not> PeerExists t p \<and> Update t p = Inr t)"
proof (intro conjI impI)
  assume "same_len p (self t)"
  then show "\<exists>t'. RemovePeer t p = Inr (PeerExists t p, t') \<and> rt_inv t' \<and>
      \<not> PeerExists t' p \<and> (\<forall>q. Id_hash q \<noteq> Id_hash p \<longrightarrow> PeerExists t' q = PeerExists t q)"
    using routes.rm_ok [OF assms] by (fastforce simp: PeerExists_ids assms)
qed (use assms in \<open>auto simp: RemovePeer_def PeerExists_def Update_def Bucket_def PrefixLen_def
  nil_bucket_def rt_inv_def\<close>)

section \<open>Concrete tables\<close>

definition sample_id :: "byte \<Rightarrow> ID" where
  "sample_id b = \<lparr>NetKey = Some [b], Address = [], Id_hash = [b], ConnectionId = None, Address2 = []\<rparr>"

definition sample_table :: RoutingTable where
  "sample_table = \<lparr>self = sample_id 0,
     buckets = [[sample_id 160, sample_id 128], [sample_id 64], [], [], [], [], [], [sample_id 0]]\<rparr>"

lemma sample_table_inv: "rt_inv sample_table"
  unfolding rt_inv_def by code_simp

theorem FindClosestPeers_sorted_complete_witness:
  "\<exists>ps. FindClosestPeers sample_table (sample_id 161) 3 = Inr ps \<and> length ps = 3 \<and>
     sorted_wrt (\<lambda>p q. distance p (sample_id 161) \<le> distance q (sample_id 161)) ps"
proof -
  have "same_len (sample_id 161) (self sample_table)" "card (peers_of sample_table) = 4"
    by code_simp+
  with FindClosestPeers_sorted_complete [OF sample_table_inv, of "sample_id 161" 3] show ?thesis
    by auto
qed

theorem FindClosestPeers_exact_witness:
  "\<exists>ps. FindClosestPeers sample_table (sample_id 161) 1 = Inr ps \<and> length ps = 1 \<and>
     (\<forall>p \<in> set ps. \<forall>q \<in> peers_of sample_table - set ps. distance p (sample_id 161) \<le> distance q (sample_id 161))"
proof -
  have "same_len (sample_id 161) (self sample_table)"
    "1 \<le> int (length (buckets sample_table ! nat (PrefixLen (XorID (sample_id 161) (self sample_table)))))"
    by code_simp+
  with FindClosestPeers_exact [OF sample_table_inv, of "sample_id 161" 1] show ?thesis by auto
qed


theorem Update_membership_witness:
  "\<exists>t'. Update sample_table (sample_id 32) = Inr t' \<and> PeerExists t' (sample_id 32) \<and>
     PeerExists t' (sample_id 64) \<and> \<not> PeerExists sample_table (sample_id 32)"
proof -
  have "PeerExists sample_table (sample_id 64)" "\<not> PeerExists sample_table (sample_id 32)"
    "same_len (sample_id 32) (self sample_table)" "Id_hash (sample_id 64) \<noteq> Id_hash (sample_id 32)"
    "length (buckets sample_table ! nat (PrefixLen (XorID (sample_id 32) (self sample_table)))) \<le> BucketSize"
    by code_simp+
  with Update_membership [OF sample_table_inv, of "sample_id 32"] show ?thesis by metis
qed


text \<open>
  A bucket can grow to one more entry than \<open>BucketSize\<close>: inserting 20 peers of one bucket leaves
  17 of them in it.
\<close>

theorem bucket_overfull:
  "\<exists>t0 t. CreateRoutingTable (sample_id 0) = Inr t0 \<and>
     run_ops Update RemovePeer (map (\<lambda>i. Touch (sample_id (of_nat (128 + i)))) [0..<20]) t0 = Inr t \<and>
     length (buckets t ! 0) = BucketSize + 1"
proof -
  let ?start = "projr (CreateRoutingTable (sample_id 0))"
  let ?ops = "map (\<lambda>i. Touch (sample_id (of_nat (128 + i)))) [0..<20]"
  let ?t = "projr (run_ops Update RemovePeer ?ops ?start)"
  have "CreateRoutingTable (sample_id 0) = Inr ?start" "run_ops Update RemovePeer ?ops ?start = Inr ?t"
    "length (buckets ?t ! 0) = BucketSize + 1"
    by code_simp+
  then show ?thesis by blast
qed

end
