(* ===== verification/Lru_Cache.thy ===== *)
theory Lru_Cache
  imports Carrier_Prelude
begin

text \<open>
  The least-recently-used cache of \<^verbatim>\<open>src/types/lru/cache.go\<close>. The order list is kept from the most to
  the least recently used item; the map \<open>items\<close> points to the same items. A Go closure passed as
  \<open>init\<close> is given by the value or error it returns, and is consulted only on a miss.

  Shown: the representation invariant, the memo contract \<open>memo_cache\<close> the address resolver relies
  on, and that the cache of limit n holds exactly the n most recently requested keys.
\<close>

section \<open>State and operations\<close>

record 'v cacheItem =
  item_key :: string
  item_value :: 'v

record 'v Cache =
  order :: "'v cacheItem list"
  items :: "string \<rightharpoonup> 'v cacheItem"
  limit :: int

definition NewCache :: "int \<Rightarrow> 'v Cache" where
  "NewCache n = \<lparr>order = [], items = Map.empty, limit = n\<rparr>"

definition MoveToFront :: "'v cacheItem \<Rightarrow> 'v cacheItem list \<Rightarrow> 'v cacheItem list" where
  "MoveToFront item xs = item # remove_first (\<lambda>e. item_key e = item_key item) xs"

definition evict :: "'v Cache \<Rightarrow> 'v Cache result" where
  "evict c =
     (if limit c \<le> int (length (order c))
      then if order c = [] then Inl (Panic ''nil pointer dereference'')
           else Inr (c\<lparr>order := butlast (order c), items := (items c)(item_key (last (order c)) := None)\<rparr>)
      else Inr c)"

definition Get :: "'v Cache \<Rightarrow> string \<Rightarrow> 'v result \<Rightarrow> 'v result \<times> 'v Cache" where
  "Get c key init =
     (case items c key of
        Some item \<Rightarrow> (Inr (item_value item), c\<lparr>order := MoveToFront item (order c)\<rparr>)
      | None \<Rightarrow>
          (case evict c of
             Inl e \<Rightarrow> (Inl e, c)
           | Inr c1 \<Rightarrow>
               (case init of
                  Inl e \<Rightarrow> (Inl e, c1)
                | Inr v \<Rightarrow>
                    let item = \<lparr>item_key = key, item_value = v\<rparr>
                    in (Inr v, c1\<lparr>order := item # order c1, items := (items c1)(key \<mapsto> item)\<rparr>))))"

section \<open>Invariant\<close>

definition keys :: "'v Cache \<Rightarrow> string list" where
  "keys c = map item_key (order c)"

definition lru_inv :: "'v Cache \<Rightarrow> bool" where
  "lru_inv c \<longleftrightarrow> 0 < limit c \<and> int (length (order c)) \<le> limit c \<and> distinct (keys c) \<and>
     items c = map_of (map (\<lambda>i. (item_key i, i)) (order c))"

lemma lru_inv_NewCache: "0 < n \<Longrightarrow> lru_inv (NewCache n)"
  by (simp add: lru_inv_def NewCache_def keys_def)

lemma map_of_key_iff:
  "distinct (map f xs) \<Longrightarrow> map_of (map (\<lambda>i. (f i, i)) xs) k = Some i \<longleftrightarrow> i \<in> set xs \<and> f i = k"
  by (auto simp: map_of_eq_Some_iff comp_def)

lemma map_of_key_eqI:
  assumes "distinct (map f xs)" "\<And>k i. m k = Some i \<longleftrightarrow> i \<in> set xs \<and> f i = k"
  shows "m = map_of (map (\<lambda>i. (f i, i)) xs)"
proof
  fix k
  show "m k = map_of (map (\<lambda>i. (f i, i)) xs) k"
    using assms map_of_key_iff [OF assms(1), of k] by (metis option.exhaust)
qed

lemma items_Some_iff:
  "lru_inv c \<Longrightarrow> items c k = Some i \<longleftrightarrow> i \<in> set (order c) \<and> item_key i = k"
  by (simp add: lru_inv_def keys_def map_of_key_iff)

lemma items_None_iff: "lru_inv c \<Longrightarrow> items c k = None \<longleftrightarrow> k \<notin> set (keys c)"
  by (auto simp: lru_inv_def keys_def map_of_eq_None_iff image_iff)

lemma lru_invI:
  assumes "0 < limit c" "int (length (order c)) \<le> limit c" "distinct (keys c)"
    "\<And>k i. items c k = Some i \<longleftrightarrow> i \<in> set (order c) \<and> item_key i = k"
  shows "lru_inv c"
  unfolding lru_inv_def using assms map_of_key_eqI [of item_key "order c" "items c"]
  by (simp add: keys_def)

lemma set_MoveToFront:
  assumes "lru_inv c" "items c k = Some item"
  shows "set (MoveToFront item (order c)) = set (order c)"
    and "distinct (map item_key (MoveToFront item (order c)))"
    and "length (MoveToFront item (order c)) = length (order c)"
proof -
  have item: "item \<in> set (order c)" "item_key item = k" and dist: "distinct (map item_key (order c))"
    using assms items_Some_iff [OF assms(1)] by (auto simp: lru_inv_def keys_def)
  have rest: "set (remove_first (\<lambda>e. item_key e = item_key item) (order c)) = set (order c) - {item}"
    using set_remove_first_key [OF dist, of "item_key item"] dist item(1) by (auto simp: distinct_map inj_on_def)
  then show "set (MoveToFront item (order c)) = set (order c)"
    using item(1) by (auto simp: MoveToFront_def)
  show "distinct (map item_key (MoveToFront item (order c)))"
    using set_remove_first_key [OF dist, of "item_key item"] distinct_map_remove_first [OF dist]
    by (auto simp: MoveToFront_def)
  obtain e where "List.find (\<lambda>e. item_key e = item_key item) (order c) = Some e"
    using item(1) find_None_iff_all [of "\<lambda>e. item_key e = item_key item" "order c"] by blast
  from length_remove_first [OF this] show "length (MoveToFront item (order c)) = length (order c)"
    by (simp add: MoveToFront_def)
qed

lemma evict_ok:
  assumes "lru_inv c"
  obtains c1 where "evict c = Inr c1" "lru_inv c1" "limit c1 = limit c" "int (length (order c1)) < limit c"
    "order c1 = (if limit c \<le> int (length (order c)) then butlast (order c) else order c)"
proof (cases "limit c \<le> int (length (order c))")
  case False
  then show ?thesis using that [of c] assms by (simp add: evict_def)
next
  case True
  then have ne: "order c \<noteq> []" using assms by (auto simp: lru_inv_def)
  define xs l where "xs = butlast (order c)" and "l = last (order c)"
  then have o: "order c = xs @ [l]" using ne by simp
  let ?c1 = "c\<lparr>order := xs, items := (items c)(item_key l := None)\<rparr>"
  have fresh: "\<forall>i \<in> set xs. item_key i \<noteq> item_key l" "l \<notin> set xs"
    using assms o by (auto simp: lru_inv_def keys_def image_iff)
  have "evict c = Inr ?c1" using True ne by (simp add: evict_def xs_def l_def)
  moreover have "lru_inv ?c1"
    using assms o fresh items_Some_iff [OF assms]
    by (intro lru_invI) (auto simp: lru_inv_def keys_def simp del: map_of_eq_Some_iff)
  moreover have "int (length xs) < limit c" "limit c \<le> 1 + int (length xs)"
    using True assms o by (auto simp: lru_inv_def)
  ultimately show ?thesis
    using True by (intro that [of ?c1]) (simp_all add: xs_def)
qed

section \<open>The memo contract\<close>

text \<open>
  \<open>memo_cache\<close> is what a client that memoises a computation needs: a hit returns the value stored
  for the key, a miss returns what the computation returned, and every value stored afterwards was
  stored before or is that result. It follows that a property of all stored values that the
  computations establish is a property of every value returned.
\<close>

locale memo_cache =
  fixes cinv :: "'c \<Rightarrow> bool"
    and view :: "'c \<Rightarrow> string \<rightharpoonup> 'v"
    and get :: "'c \<Rightarrow> string \<Rightarrow> 'v result \<Rightarrow> 'v result \<times> 'c"
  assumes get_inv: "cinv c \<Longrightarrow> cinv (snd (get c k f))"
    and get_hit: "cinv c \<Longrightarrow> view c k = Some v \<Longrightarrow> fst (get c k f) = Inr v"
    and get_miss: "cinv c \<Longrightarrow> view c k = None \<Longrightarrow> fst (get c k f) = f"
    and get_view: "cinv c \<Longrightarrow> view (snd (get c k f)) k' = Some v \<Longrightarrow>
      view c k' = Some v \<or> k' = k \<and> f = Inr v"
begin

definition sound :: "(string \<Rightarrow> 'v \<Rightarrow> bool) \<Rightarrow> 'c \<Rightarrow> bool" where
  "sound P c \<longleftrightarrow> cinv c \<and> (\<forall>k v. view c k = Some v \<longrightarrow> P k v)"

lemma get_sound:
  assumes "sound P c" "\<And>v. f = Inr v \<Longrightarrow> P k v"
  shows "sound P (snd (get c k f))" "fst (get c k f) = Inr v \<Longrightarrow> P k v"
proof -
  have "P k' v'" if "view (snd (get c k f)) k' = Some v'" for k' v'
    using get_view [OF _ that] assms unfolding sound_def by blast
  then show "sound P (snd (get c k f))"
    using assms(1) get_inv unfolding sound_def by blast
  assume "fst (get c k f) = Inr v"
  then show "P k v"
    using assms get_hit [of c k] get_miss [of c k] unfolding sound_def
    by (cases "view c k") auto
qed

lemma get_error:
  assumes "cinv c" "fst (get c k f) = Inl e"
  shows "f = Inl e"
  using assms get_hit [of c k] get_miss [of c k] by (cases "view c k") auto

end

definition cached :: "'v Cache \<Rightarrow> string \<rightharpoonup> 'v" where
  "cached c k = map_option item_value (items c k)"

lemma Get_hit:
  assumes "lru_inv c" "items c k = Some item"
  shows "Get c k f = (Inr (item_value item), c\<lparr>order := MoveToFront item (order c)\<rparr>)"
    and "lru_inv (c\<lparr>order := MoveToFront item (order c)\<rparr>)"
proof -
  show "Get c k f = (Inr (item_value item), c\<lparr>order := MoveToFront item (order c)\<rparr>)"
    using assms(2) by (simp add: Get_def)
  show "lru_inv (c\<lparr>order := MoveToFront item (order c)\<rparr>)"
    using assms(1) set_MoveToFront [OF assms] items_Some_iff [OF assms(1)]
    by (intro lru_invI) (auto simp: lru_inv_def keys_def)
qed

lemma Get_miss:
  assumes "lru_inv c" "items c k = None" "evict c = Inr c1" "lru_inv c1" "int (length (order c1)) < limit c1"
    and "order c1 = (if limit c \<le> int (length (order c)) then butlast (order c) else order c)"
  shows "Get c k (Inl e) = (Inl e, c1)"
    and "Get c k (Inr v) = (Inr v, c1\<lparr>order := \<lparr>item_key = k, item_value = v\<rparr> # order c1,
      items := (items c1)(k \<mapsto> \<lparr>item_key = k, item_value = v\<rparr>)\<rparr>)"
    and "lru_inv (snd (Get c k f))"
proof -
  show "Get c k (Inl e) = (Inl e, c1)" for e using assms(2,3) by (simp add: Get_def)
  show new: "Get c k (Inr v) = (Inr v, c1\<lparr>order := \<lparr>item_key = k, item_value = v\<rparr> # order c1,
      items := (items c1)(k \<mapsto> \<lparr>item_key = k, item_value = v\<rparr>)\<rparr>)" for v
    using assms(2,3) by (simp add: Get_def Let_def)
  have "k \<notin> set (keys c)" using assms(1,2) items_None_iff by blast
  then have k: "k \<notin> set (keys c1)"
    using assms(6) by (auto simp: keys_def image_iff split: if_splits dest!: in_set_butlastD)
  show "lru_inv (snd (Get c k f))"
  proof (cases f)
    case (Inl e)
    then show ?thesis using assms(2-4) by (simp add: Get_def)
  next
    case (Inr v)
    show ?thesis
      unfolding Inr new snd_conv using assms(4,5) k items_Some_iff [OF assms(4)]
      by (intro lru_invI) (auto simp: lru_inv_def keys_def image_iff)
  qed
qed

lemma evict_items:
  assumes "lru_inv c" "lru_inv c1"
    and "order c1 = (if limit c \<le> int (length (order c)) then butlast (order c) else order c)"
    and "items c1 k = Some i"
  shows "items c k = Some i"
  using assms items_Some_iff [OF assms(1)] items_Some_iff [OF assms(2)]
  by (auto split: if_splits dest: in_set_butlastD)

interpretation lru: memo_cache lru_inv cached Get
proof unfold_locales
  fix c :: "'v Cache" and k f
  assume c: "lru_inv c"
  show "lru_inv (snd (Get c k f))"
  proof (cases "items c k")
    case None
    show ?thesis by (rule evict_ok [OF c], rule Get_miss(3) [OF c None]) auto
  qed (use Get_hit [OF c] in auto)
next
  fix c :: "'v Cache" and k f v
  assume "lru_inv c" "cached c k = Some v"
  then show "fst (Get c k f) = Inr v" by (auto simp: cached_def Get_def)
next
  fix c :: "'v Cache" and k f
  assume c: "lru_inv c" and "cached c k = None"
  then have None: "items c k = None" by (simp add: cached_def)
  show "fst (Get c k f) = f"
    by (rule evict_ok [OF c]) (use None in \<open>auto simp: Get_def Let_def split: sum.splits\<close>)
next
  fix c :: "'v Cache" and k f k' v
  assume c: "lru_inv c" and v: "cached (snd (Get c k f)) k' = Some v"
  show "cached c k' = Some v \<or> k' = k \<and> f = Inr v"
  proof (cases "items c k")
    case None
    obtain c1 where c1: "evict c = Inr c1" "lru_inv c1"
      "order c1 = (if limit c \<le> int (length (order c)) then butlast (order c) else order c)"
      by (rule evict_ok [OF c])
    note old = evict_items [OF c c1(2,3)]
    show ?thesis
      using v None c1(1) old
      by (cases f) (auto simp: cached_def Get_def Let_def split: if_splits)
  qed (use v in \<open>auto simp: cached_def Get_def\<close>)
qed

section \<open>Recency\<close>

text \<open>A client that requests keys one after another, with the values its computations return.\<close>

fun requests :: "'v Cache \<Rightarrow> (string \<times> 'v) list \<Rightarrow> 'v Cache" where
  "requests c [] = c"
| "requests c ((k, v) # rs) = requests (snd (Get c k (Inr v))) rs"

lemma requests_append: "requests c (rs @ rs') = requests (requests c rs) rs'"
  by (induction rs arbitrary: c) auto

lemma keys_MoveToFront:
  "map item_key (MoveToFront item xs) =
     item_key item # remove_first (\<lambda>k. k = item_key item) (map item_key xs)"
  unfolding MoveToFront_def by (induction xs) auto

lemma remdups_snoc: "remdups (xs @ [k]) = filter (\<lambda>x. x \<noteq> k) (remdups xs) @ [k]"
  by (induction xs) auto

lemma keys_Get:
  assumes "lru_inv c"
  shows "keys (snd (Get c k (Inr v))) = take (nat (limit c)) (k # filter (\<lambda>x. x \<noteq> k) (keys c))"
    and "limit (snd (Get c k (Inr v))) = limit c"
proof -
  let ?n = "nat (limit c)"
  have n: "0 < ?n" "length (keys c) \<le> ?n" "distinct (keys c)"
    using assms by (auto simp: lru_inv_def keys_def)
  have "keys (snd (Get c k (Inr v))) = take ?n (k # filter (\<lambda>x. x \<noteq> k) (keys c)) \<and>
    limit (snd (Get c k (Inr v))) = limit c"
  proof (cases "items c k")
    case (Some item)
    then have k: "item_key item = k" "k \<in> set (keys c)"
      using items_Some_iff [OF assms] by (auto simp: keys_def)
    have "length (filter (\<lambda>x. x \<noteq> k) (keys c)) < length (keys c)"
      using k(2) by (intro length_filter_less) auto
    then have "take ?n (k # filter (\<lambda>x. x \<noteq> k) (keys c)) = k # filter (\<lambda>x. x \<noteq> k) (keys c)"
      using n(2) by simp
    moreover have "keys (snd (Get c k (Inr v))) = k # filter (\<lambda>x. x \<noteq> k) (keys c)"
      using Get_hit(1) [OF assms Some] k(1) n(3)
      by (simp add: keys_def keys_MoveToFront remove_first_eq_filter [where f = "\<lambda>x. x", simplified])
    ultimately show ?thesis using Get_hit(1) [OF assms Some] by simp
  next
    case None
    obtain c1 where c1: "evict c = Inr c1" "lru_inv c1" "limit c1 = limit c" "int (length (order c1)) < limit c"
      "order c1 = (if limit c \<le> int (length (order c)) then butlast (order c) else order c)"
      by (rule evict_ok [OF assms])
    have "keys (snd (Get c k (Inr v))) = k # (if limit c \<le> int (length (order c)) then butlast (keys c) else keys c)"
      using Get_miss(2) [OF assms None c1(1,2) _ c1(5)] c1(3,4,5) by (simp add: keys_def map_butlast)
    moreover have "k # (if limit c \<le> int (length (order c)) then butlast (keys c) else keys c) = take ?n (k # keys c)"
    proof -
      have "length (order c) = ?n" if "limit c \<le> int (length (order c))"
        using that n(2) by (simp add: keys_def)
      then show ?thesis using n(1,2) by (cases ?n) (auto simp: keys_def butlast_conv_take)
    qed
    moreover have "filter (\<lambda>x. x \<noteq> k) (keys c) = keys c"
      using None items_None_iff [OF assms] by (auto simp: filter_id_conv)
    ultimately show ?thesis
      using Get_miss(2) [OF assms None c1(1,2) _ c1(5)] c1(3,4) by simp
  qed
  then show "keys (snd (Get c k (Inr v))) = take ?n (k # filter (\<lambda>x. x \<noteq> k) (keys c))"
    and "limit (snd (Get c k (Inr v))) = limit c" by blast+
qed

lemma take_filter_neq:
  "distinct xs \<Longrightarrow> take m (filter (\<lambda>x. x \<noteq> k) (take (Suc m) xs)) = take m (filter (\<lambda>x. x \<noteq> k) xs)"
proof (induction xs arbitrary: m)
  case (Cons x xs)
  have "filter (\<lambda>x. x \<noteq> k) (take j xs) = take j xs" if "x = k" for j
    using Cons.prems that by (auto simp: filter_id_conv dest: in_set_takeD)
  moreover have "filter (\<lambda>x. x \<noteq> k) xs = xs" if "x = k"
    using Cons.prems that by (auto simp: filter_id_conv)
  ultimately show ?case
    using Cons by (cases m) auto
qed simp

lemma requests_keys:
  assumes "0 < n"
  shows "lru_inv (requests (NewCache n) rs) \<and> limit (requests (NewCache n) rs) = n \<and>
    keys (requests (NewCache n) rs) = take (nat n) (rev (remdups (map fst rs)))"
proof (induction rs rule: rev_induct)
  case Nil
  then show ?case using lru_inv_NewCache [OF assms] by (simp add: NewCache_def keys_def)
next
  case (snoc r rs)
  obtain k v where r: "r = (k, v)" by force
  let ?R = "rev (remdups (map fst rs))"
  have "rev (remdups (map fst (rs @ [r]))) = k # filter (\<lambda>x. x \<noteq> k) ?R"
    by (simp add: r remdups_snoc rev_filter)
  moreover have "take (nat n) (k # filter (\<lambda>x. x \<noteq> k) (take (nat n) ?R)) = take (nat n) (k # filter (\<lambda>x. x \<noteq> k) ?R)"
    using assms take_filter_neq [of ?R "nat n - 1" k] by (cases "nat n") auto
  ultimately show ?case
    using snoc keys_Get [of "requests (NewCache n) rs" k v] lru.get_inv [of "requests (NewCache n) rs" k "Inr v"]
    by (simp add: requests_append r)
qed

lemma cached_NewCache [simp]: "cached (NewCache n) k = None"
  by (simp add: cached_def NewCache_def)

lemma requests_sound:
  assumes "0 < n"
  shows "lru.sound (\<lambda>k v. (k, v) \<in> set rs) (requests (NewCache n) rs)"
proof (induction rs rule: rev_induct)
  case Nil
  then show ?case using lru_inv_NewCache [OF assms] by (simp add: lru.sound_def)
next
  case (snoc r rs)
  obtain k v where r: "r = (k, v)" by force
  have "lru.sound (\<lambda>k v. (k, v) \<in> set (rs @ [r])) (requests (NewCache n) rs)"
    using snoc by (auto simp: lru.sound_def)
  from lru.get_sound(1) [OF this, of "Inr v" k] show ?case by (simp add: requests_append r)
qed



text \<open>
  A request whose computation fails returns that error, caches nothing for the key, and on a
  full cache has already discarded the least recently used entry; a cache whose limit is not
  positive panics on its first request.
\<close>

theorem lru_failed_request:
  assumes "lru_inv c" "k \<notin> set (keys c)"
  shows "fst (Get c k (Inl e)) = Inl e \<and> k \<notin> set (keys (snd (Get c k (Inl e)))) \<and>
    (int (length (keys c)) = limit c \<longrightarrow> keys (snd (Get c k (Inl e))) = butlast (keys c)) \<and>
    (n \<le> 0 \<longrightarrow> panics (fst (Get (NewCache n) k f)))"
proof -
  have None: "items c k = None" using assms items_None_iff by blast
  obtain c1 where c1: "evict c = Inr c1" "lru_inv c1" "limit c1 = limit c" "int (length (order c1)) < limit c"
    "order c1 = (if limit c \<le> int (length (order c)) then butlast (order c) else order c)"
    by (rule evict_ok [OF assms(1)])
  have "Get c k (Inl e) = (Inl e, c1)" using None c1(1) by (simp add: Get_def)
  moreover have "k \<notin> set (keys c1)"
    using assms(2) c1(5) by (auto simp: keys_def split: if_splits dest: in_set_butlastD)
  ultimately show ?thesis
    using c1(5) by (auto simp: keys_def map_butlast Get_def evict_def NewCache_def)
qed

end
