(* ===== verification/Opcode_Table.thy ===== *)
theory Opcode_Table
  imports Carrier_Prelude
begin

text \<open>
  The registry between message types and opcodes, \<^verbatim>\<open>src/types/opcode/opcode.go\<close>. A protobuf message
  is its reflected type and its content; \<open>marshal\<close> stands for \<^verbatim>\<open>proto.Marshal\<close> of the protobuf
  package. The two \<^verbatim>\<open>sync.Map\<close>s are maps.

  Shown: whatever has been registered, the opcode a sender looks up for a message leads a receiver
  back to a message of that type, and what an opcode stands for never changes once it is set.
\<close>

section \<open>Opcodes and tables\<close>

type_synonym Opcode = uint32

definition UnregisteredCode :: Opcode where "UnregisteredCode = 0x00000"
definition BytesCode :: Opcode where "BytesCode = 0x00001"
definition KeepaliveCode :: Opcode where "KeepaliveCode = 0x00002"
definition KeepaliveResponseCode :: Opcode where "KeepaliveResponseCode = 0x00003"
definition ProxyResponseCode :: Opcode where "ProxyResponseCode = 0x00009"
definition PingCode :: Opcode where "PingCode = 0x0000a"
definition PongCode :: Opcode where "PongCode = 0x0000b"
definition LookupNodeRequestCode :: Opcode where "LookupNodeRequestCode = 0x0000c"
definition LookupNodeResponseCode :: Opcode where "LookupNodeResponseCode = 0x0000d"
definition DisconnectCode :: Opcode where "DisconnectCode = 0x0000e"
definition ProxyRequestCode :: Opcode where "ProxyRequestCode = 0x0000f"
definition MetricRequestCode :: Opcode where "MetricRequestCode = 0x00010"
definition MetricResponseCode :: Opcode where "MetricResponseCode = 0x00011"
definition AckResponseCode :: Opcode where "AckResponseCode = 0x00012"
definition ApplicationOpCodeStart :: Opcode where "ApplicationOpCodeStart = 1000"

lemmas opcode_defs = UnregisteredCode_def BytesCode_def KeepaliveCode_def KeepaliveResponseCode_def
  ProxyResponseCode_def PingCode_def PongCode_def LookupNodeRequestCode_def
  LookupNodeResponseCode_def DisconnectCode_def ProxyRequestCode_def MetricRequestCode_def
  MetricResponseCode_def AckResponseCode_def ApplicationOpCodeStart_def

record proto_message =
  TypeOf :: string
  Content :: bytes

record opcode_tables =
  opcodeTbl :: "Opcode \<rightharpoonup> proto_message"
  msgTbl :: "string \<rightharpoonup> Opcode"

definition zero_message :: "string \<Rightarrow> proto_message" where
  "zero_message t = \<lparr>TypeOf = t, Content = []\<rparr>"

definition msgOpcodePairs :: "(proto_message \<times> Opcode) list" where
  "msgOpcodePairs =
    [(zero_message ''*protobuf.Bytes'', BytesCode),
     (zero_message ''*protobuf.Ping'', PingCode),
     (zero_message ''*protobuf.Pong'', PongCode),
     (zero_message ''*protobuf.LookupNodeRequest'', LookupNodeRequestCode),
     (zero_message ''*protobuf.LookupNodeResponse'', LookupNodeResponseCode),
     (zero_message ''*protobuf.Keepalive'', KeepaliveCode),
     (zero_message ''*protobuf.KeepaliveResponse'', KeepaliveResponseCode),
     (zero_message ''*protobuf.Disconnect'', DisconnectCode),
     (zero_message ''*protobuf.ProxyRequest'', ProxyRequestCode),
     (zero_message ''*protobuf.ProxyResponse'', ProxyResponseCode),
     (zero_message ''*protobuf.MetricRequest'', MetricRequestCode),
     (zero_message ''*protobuf.MetricResponse'', MetricResponseCode),
     (zero_message ''*protobuf.AsyncAckResponse'', AckResponseCode)]"

definition store_pair :: "proto_message \<times> Opcode \<Rightarrow> opcode_tables \<Rightarrow> opcode_tables" where
  "store_pair p t = t\<lparr>opcodeTbl := (opcodeTbl t)(snd p \<mapsto> fst p), msgTbl := (msgTbl t)(TypeOf (fst p) \<mapsto> snd p)\<rparr>"

definition init_tables :: opcode_tables where
  "init_tables = fold store_pair msgOpcodePairs \<lparr>opcodeTbl = Map.empty, msgTbl = Map.empty\<rparr>"

section \<open>Operations\<close>

definition RegisterMessageType ::
  "(proto_message \<Rightarrow> bytes result) \<Rightarrow> opcode_tables \<Rightarrow> Opcode \<Rightarrow> proto_message \<Rightarrow> unit result \<times> opcode_tables" where
  "RegisterMessageType marshal t opcode msg =
     (if opcode < ApplicationOpCodeStart then (Inl (Err ''types: opcode must be 1000 or greater''), t)
      else case marshal msg of
        Inl e \<Rightarrow> (Inl e, t)
      | Inr raw \<Rightarrow>
          if raw \<noteq> [] then (Inl (Err ''types: must provide an empty protobuf message''), t)
          else case opcodeTbl t opcode of
            Some _ \<Rightarrow> (Inl (Err ''types: opcode already exists, choose a different opcode''), t)
          | None \<Rightarrow> (Inr (), t\<lparr>opcodeTbl := (opcodeTbl t)(opcode \<mapsto> msg),
                             msgTbl := (msgTbl t)(TypeOf msg \<mapsto> opcode)\<rparr>))"

definition GetMessageType :: "opcode_tables \<Rightarrow> Opcode \<Rightarrow> proto_message result" where
  "GetMessageType t code =
     (case opcodeTbl t code of
        Some i \<Rightarrow> Inr i
      | None \<Rightarrow> Inl (Err ''types: opcode not found, did you register it?''))"

definition GetOpcode :: "opcode_tables \<Rightarrow> proto_message \<Rightarrow> Opcode result" where
  "GetOpcode t msg =
     (case msgTbl t (TypeOf msg) of
        Some i \<Rightarrow> Inr i
      | None \<Rightarrow> Inl (Err ''types: message type not found, did you register it?''))"

text \<open>An application that registers its message types one after another, whatever the outcomes.\<close>

fun register_all ::
  "(proto_message \<Rightarrow> bytes result) \<Rightarrow> (Opcode \<times> proto_message) list \<Rightarrow> opcode_tables \<Rightarrow> opcode_tables" where
  "register_all marshal [] t = t"
| "register_all marshal ((c, m) # rs) t = register_all marshal rs (snd (RegisterMessageType marshal t c m))"

section \<open>Invariant\<close>

definition tables_inv :: "opcode_tables \<Rightarrow> bool" where
  "tables_inv t \<longleftrightarrow> (\<forall>ty c. msgTbl t ty = Some c \<longrightarrow> (\<exists>m. opcodeTbl t c = Some m \<and> TypeOf m = ty))"

lemma init_tables_inv: "tables_inv init_tables"
  unfolding tables_inv_def init_tables_def msgOpcodePairs_def
  by (simp add: store_pair_def opcode_defs zero_message_def)

lemma register_cases:
  obtains "RegisterMessageType marshal t c m = (Inr (), t\<lparr>opcodeTbl := (opcodeTbl t)(c \<mapsto> m),
      msgTbl := (msgTbl t)(TypeOf m \<mapsto> c)\<rparr>)"
    "opcodeTbl t c = None" "ApplicationOpCodeStart \<le> c" "marshal m = Inr []"
  | e where "RegisterMessageType marshal t c m = (Inl e, t)"
proof -
  have "(RegisterMessageType marshal t c m = (Inr (), t\<lparr>opcodeTbl := (opcodeTbl t)(c \<mapsto> m),
      msgTbl := (msgTbl t)(TypeOf m \<mapsto> c)\<rparr>) \<and>
      opcodeTbl t c = None \<and> ApplicationOpCodeStart \<le> c \<and> marshal m = Inr []) \<or>
    (\<exists>e. RegisterMessageType marshal t c m = (Inl e, t))"
    by (auto simp: RegisterMessageType_def not_less split: sum.split option.split)
  then show thesis using that by blast
qed

lemma register_inv:
  assumes "tables_inv t"
  shows "tables_inv (snd (RegisterMessageType marshal t c m))"
  by (rule register_cases [of marshal t c m]) (use assms in \<open>fastforce simp: tables_inv_def\<close>)+

lemma register_all_inv: "tables_inv t \<Longrightarrow> tables_inv (register_all marshal rs t)"
  by (induction marshal rs t rule: register_all.induct) (auto intro: register_inv)

lemma register_stable:
  "opcodeTbl t c = Some m \<Longrightarrow> opcodeTbl (snd (RegisterMessageType marshal t c' m')) c = Some m"
  by (rule register_cases [of marshal t c' m']) auto

lemma register_all_stable:
  "opcodeTbl t c = Some m \<Longrightarrow> opcodeTbl (register_all marshal rs t) c = Some m"
  by (induction marshal rs t rule: register_all.induct) (auto intro: register_stable)

lemma register_all_reserved:
  "c < ApplicationOpCodeStart \<Longrightarrow> opcodeTbl (register_all marshal rs t) c = opcodeTbl t c"
proof (induction marshal rs t rule: register_all.induct)
  case (2 marshal c' m rs t)
  have "opcodeTbl (snd (RegisterMessageType marshal t c' m)) c = opcodeTbl t c"
    by (rule register_cases [of marshal t c' m]) (use 2(2) in auto)
  with 2 show ?case by simp
qed simp

lemma GetMessageType_Inr: "GetMessageType t c = Inr m \<longleftrightarrow> opcodeTbl t c = Some m"
  by (simp add: GetMessageType_def split: option.splits)

lemma GetOpcode_Inr: "GetOpcode t m = Inr c \<longleftrightarrow> msgTbl t (TypeOf m) = Some c"
  by (simp add: GetOpcode_def split: option.splits)

text \<open>
  C35. After any sequence of registrations on the built-in tables, if a sender finds an opcode for a
  message then a receiver that looks that opcode up gets a message of the same type; an opcode
  that meant something before a registration means the same afterwards; and the 1000 reserved
  opcodes are those of the library.
\<close>

theorem opcode_round_trip:
  assumes "t = register_all marshal rs init_tables" "GetOpcode t msg = Inr c"
  shows "(\<exists>m. GetMessageType t c = Inr m \<and> TypeOf m = TypeOf msg) \<and>
    (GetMessageType t c' = Inr m' \<longrightarrow> GetMessageType (register_all marshal rs' t) c' = Inr m') \<and>
    (c' < ApplicationOpCodeStart \<longrightarrow> GetMessageType t c' = GetMessageType init_tables c')"
  using register_all_inv [OF init_tables_inv, of marshal rs] assms(2)
    register_all_stable [of t] register_all_reserved [of c' marshal rs init_tables]
  unfolding assms(1)
  by (auto simp: tables_inv_def GetMessageType_Inr GetOpcode_Inr) (simp add: GetMessageType_def)

text \<open>
  A registration either fails and changes nothing, or the opcode was free and outside the
  reserved range, and afterwards it decodes to the registered message and encodes its type. The
  type may have had another opcode, even a built-in one, which then still decodes to it.
\<close>

theorem RegisterMessageType_effect:
  "(case RegisterMessageType marshal t c m of
      (Inl e, t') \<Rightarrow> t' = t
    | (Inr _, t') \<Rightarrow> ApplicationOpCodeStart \<le> c \<and> \<not> is_ok (GetMessageType t c) \<and> marshal m = Inr [] \<and>
        GetMessageType t' c = Inr m \<and> GetOpcode t' m = Inr c) \<and>
   (marshal (zero_message ''*protobuf.Ping'') = Inr [] \<longrightarrow>
      (let t' = snd (RegisterMessageType marshal init_tables 1000 (zero_message ''*protobuf.Ping''))
       in GetOpcode t' (zero_message ''*protobuf.Ping'') = Inr 1000 \<and>
          GetMessageType t' PingCode = Inr (zero_message ''*protobuf.Ping'')))"
proof (intro conjI impI)
  show "case RegisterMessageType marshal t c m of
      (Inl e, t') \<Rightarrow> t' = t
    | (Inr _, t') \<Rightarrow> ApplicationOpCodeStart \<le> c \<and> \<not> is_ok (GetMessageType t c) \<and> marshal m = Inr [] \<and>
        GetMessageType t' c = Inr m \<and> GetOpcode t' m = Inr c"
    by (rule register_cases [of marshal t c m])
      (auto simp: GetMessageType_Inr GetOpcode_Inr is_ok_iff)
qed (simp add: RegisterMessageType_def init_tables_def msgOpcodePairs_def store_pair_def opcode_defs
  zero_message_def GetOpcode_def GetMessageType_def)

text \<open>A marshaller for the witnesses: the content is the encoding.\<close>

theorem opcode_round_trip_witness:
  "\<exists>m. GetMessageType (register_all (\<lambda>m. Inr (Content m)) [(1000, zero_message ''*app.Chat'')] init_tables) 1000
      = Inr m \<and> TypeOf m = ''*app.Chat''"
proof -
  have "GetOpcode (register_all (\<lambda>m. Inr (Content m)) [(1000, zero_message ''*app.Chat'')] init_tables)
      (zero_message ''*app.Chat'') = Inr 1000"
    by code_simp
  from opcode_round_trip [OF refl this] show ?thesis by (simp add: zero_message_def)
qed

end
