(* ===== verification/Recv_Window.thy ===== *)
theory Recv_Window
  imports Carrier_Prelude
begin

text \<open>
  The receive window of \<^verbatim>\<open>src/network/recv_window.go\<close>: a circular buffer indexed by the message nonce
  modulo its size. A buffer cell is \<open>None\<close> for nil. The window is related to an abstract stream
  position and a map of pending messages; the relation is kept by \<open>Push\<close> and \<open>Pop\<close>, which gives
  in-order delivery.
\<close>

section \<open>State and operations\<close>

record 'v RecvWindow =
  lastNonce :: uint64
  wsize :: int
  buf :: "'v option list"
  once :: bool

definition NewRecvWindow :: "int \<Rightarrow> 'v RecvWindow result" where
  "NewRecvWindow n =
     (if n < 0 then Inl (Panic ''makeslice: len out of range'')
      else Inr \<lparr>lastNonce = 0, wsize = n, buf = replicate (nat n) None, once = False\<rparr>)"

definition SetLocalNonce :: "'v RecvWindow \<Rightarrow> uint64 \<Rightarrow> 'v RecvWindow" where
  "SetLocalNonce w nonce = w\<lparr>lastNonce := nonce\<rparr>"

definition LocalNonce :: "'v RecvWindow \<Rightarrow> uint64" where
  "LocalNonce w = lastNonce w"

definition idx :: "'v RecvWindow \<Rightarrow> uint64 \<Rightarrow> uint64" where
  "idx w nid = nid mod word_of_int (wsize w)"

definition Push :: "'v RecvWindow \<Rightarrow> uint64 \<Rightarrow> 'v option \<Rightarrow> 'v RecvWindow result" where
  "Push w nonce val =
     (let w1 = (if once w then w else w\<lparr>lastNonce := nonce, once := True\<rparr>)
      in if wsize w1 = 0 then Inl (Panic ''integer divide by zero'')
         else Inr (w1\<lparr>buf := (buf w1)[unat (idx w1 nonce) := val]\<rparr>))"

fun range_loop ::
  "(uint64 \<Rightarrow> 'v option \<Rightarrow> bool) \<Rightarrow> nat \<Rightarrow> uint64 \<Rightarrow> 'v RecvWindow \<Rightarrow> 'v option list \<Rightarrow>
    'v option list \<times> 'v RecvWindow" where
  "range_loop fn 0 nid w res = (res, w)"
| "range_loop fn (Suc i) nid w res =
     (let ix = idx w nid; val = buf w ! unat ix
      in if \<not> fn nid val then (res, w\<lparr>lastNonce := ix\<rparr>)
         else range_loop fn i (nid + 1) (w\<lparr>buf := (buf w)[unat ix := None]\<rparr>) (res @ [val]))"

definition Range :: "'v RecvWindow \<Rightarrow> (uint64 \<Rightarrow> 'v option \<Rightarrow> bool) \<Rightarrow> 'v option list \<times> 'v RecvWindow" where
  "Range w fn = range_loop fn (nat (wsize w)) (lastNonce w) w []"

definition Pop :: "'v RecvWindow \<Rightarrow> 'v option list \<times> 'v RecvWindow" where
  "Pop w = Range w (\<lambda>nonce v. v \<noteq> None)"

section \<open>The abstract stream\<close>

text \<open>The messages that can be delivered: the run of pending nonces from the expected one.\<close>

fun ready_run :: "nat \<Rightarrow> nat \<Rightarrow> (nat \<rightharpoonup> 'v) \<Rightarrow> 'v list" where
  "ready_run 0 e p = []"
| "ready_run (Suc i) e p = (case p e of None \<Rightarrow> [] | Some v \<Rightarrow> v # ready_run i (Suc e) p)"

text \<open>
  The window of size \<open>n\<close> represents position \<open>e\<close> and pending messages \<open>p\<close>. The stored nonce is only
  determined modulo the size.
\<close>

definition cells :: "nat \<Rightarrow> 'v option list \<Rightarrow> nat \<Rightarrow> (nat \<rightharpoonup> 'v) \<Rightarrow> bool" where
  "cells n b e p \<longleftrightarrow> length b = n \<and> dom p \<subseteq> {e..<e + n} \<and> (\<forall>k. e \<le> k \<and> k < e + n \<longrightarrow> b ! (k mod n) = p k)"

definition represents :: "nat \<Rightarrow> 'v RecvWindow \<Rightarrow> nat \<Rightarrow> (nat \<rightharpoonup> 'v) \<Rightarrow> bool" where
  "represents n w e p \<longleftrightarrow> 0 < n \<and> n < 2 ^ 63 \<and> wsize w = int n \<and> once w \<and> cells n (buf w) e p \<and>
     unat (lastNonce w) mod n = e mod n \<and> unat (lastNonce w) + n \<le> 2 ^ 64"

lemma unat_idx:
  assumes "0 < n" "n < 2 ^ 63" "wsize w = int n"
  shows "unat (idx w nid) = unat nid mod n"
proof -
  have "unat (word_of_int (int n) :: uint64) = n"
    using assms by (simp add: unat_of_nat)
  then show ?thesis using assms by (simp add: idx_def unat_mod)
qed

lemma window_mod_inj:
  assumes "e \<le> j" "j < e + n" "e \<le> k" "k < e + n" "j mod n = k mod n"
  shows "j = (k :: nat)"
proof (rule ccontr)
  assume "j \<noteq> k"
  then consider "j < k" | "k < j" by linarith
  then show False
  proof cases
    case 1
    then have "n dvd k - j" using assms(5) by (metis mod_eq_dvd_iff_nat less_imp_le)
    then show False using 1 assms by (auto dest: dvd_imp_le)
  next
    case 2
    then have "n dvd j - k" using assms(5) by (metis mod_eq_dvd_iff_nat less_imp_le)
    then show False using 2 assms by (auto dest: dvd_imp_le)
  qed
qed

lemma cells_update:
  assumes "cells n b e p" "e \<le> k" "k < e + n"
  shows "cells n (b[k mod n := Some v]) e (p(k \<mapsto> v))"
proof -
  have "b[k mod n := Some v] ! (j mod n) = (p(k \<mapsto> v)) j" if "e \<le> j" "j < e + n" for j
    using that assms window_mod_inj [OF that assms(2,3)]
    by (cases "j = k") (auto simp: cells_def nth_list_update)
  then show ?thesis using assms by (auto simp: cells_def)
qed

lemma cells_advance:
  assumes "cells n b e p" "0 < n"
  shows "cells n (b[e mod n := None]) (Suc e) (p(e := None))"
proof -
  have "b[e mod n := None] ! (k mod n) = (p(e := None)) k" if "Suc e \<le> k" "k < Suc e + n" for k
  proof (cases "k = e + n")
    case True
    then have "p k = None" using assms by (force simp: cells_def)
    then show ?thesis using True assms by (simp add: cells_def)
  next
    case False
    then show ?thesis
      using that assms window_mod_inj [of e k n e] by (auto simp: cells_def nth_list_update)
  qed
  then show ?thesis using assms by (auto simp: cells_def)
qed

lemma cells_restrict:
  assumes "cells n b e p"
  shows "p |` {e..} = p"
proof
  fix k
  show "(p |` {e..}) k = p k"
  proof (cases "e \<le> k")
    case False
    then have "k \<notin> dom p" using assms by (auto simp: cells_def)
    with False show ?thesis by (simp add: restrict_map_def domIff)
  qed simp
qed

lemma ready_run_cong:
  "(\<And>k. e \<le> k \<Longrightarrow> p k = q k) \<Longrightarrow> ready_run i e p = ready_run i e q"
proof (induction i arbitrary: e)
  case (Suc i)
  have "p e = q e" "ready_run i (Suc e) p = ready_run i (Suc e) q"
    using Suc.prems by (auto intro: Suc.IH)
  then show ?case by (cases "q e") simp_all
qed simp

lemma range_loop_run:
  assumes "0 < n" "n < 2 ^ 63" "wsize w = int n" "cells n (buf w) e p"
    "unat nid mod n = e mod n" "unat nid + i \<le> 2 ^ 64"
  shows "\<exists>w'. range_loop (\<lambda>_ v. v \<noteq> None) i nid w res = (res @ map Some (ready_run i e p), w') \<and>
    wsize w' = wsize w \<and> once w' = once w \<and>
    cells n (buf w') (e + length (ready_run i e p)) (p |` {e + length (ready_run i e p)..}) \<and>
    (if length (ready_run i e p) < i then unat (lastNonce w') = (e + length (ready_run i e p)) mod n
     else lastNonce w' = lastNonce w)"
  using assms
proof (induction i arbitrary: e nid w p res)
  case 0
  then show ?case by (simp add: cells_restrict)
next
  case (Suc i)
  have ix: "unat (idx w nid) = e mod n" using Suc.prems unat_idx [of n w nid] by simp
  have val: "buf w ! (e mod n) = p e" using Suc.prems(1,4) by (auto simp: cells_def)
  note restr = cells_restrict [OF Suc.prems(4)]
  show ?case
  proof (cases "p e")
    case None
    then show ?thesis using Suc.prems(4) ix val restr by (simp add: Let_def)
  next
    case (Some v)
    let ?w = "w\<lparr>buf := (buf w)[e mod n := None]\<rparr>"
    have small: "unat nid + 1 < 2 ^ 64 \<or> i = 0" using Suc.prems(6) by auto
    have nid1: "i = 0 \<or> unat (nid + 1) = unat nid + 1"
      using small by (auto simp: unat_word_ariths)
    have run: "ready_run i (Suc e) (p(e := None)) = ready_run i (Suc e) p"
      by (rule ready_run_cong) auto
    have restr': "p(e := None) |` {Suc e + j..} = p |` {Suc e + j..}" for j
      by (auto simp: restrict_map_def)
    show ?thesis
    proof (cases "i = 0")
      case True
      have "p(e := None) |` {Suc e..} = p |` {Suc e..}" by (auto simp: restrict_map_def)
      then have "p |` {Suc e..} = p(e := None)"
        using cells_restrict [OF cells_advance [OF Suc.prems(4,1)]] by simp
      then show ?thesis
        using True Some ix val cells_advance [OF Suc.prems(4,1)] by (simp add: Let_def fun_upd_def)
    next
      case False
      then have "unat (nid + 1) = unat nid + 1" using nid1 by blast
      moreover have "(unat nid + 1) mod n = Suc e mod n"
        using Suc.prems(5) by (simp add: mod_Suc)
      ultimately have "unat (nid + 1) mod n = Suc e mod n" "unat (nid + 1) + i \<le> 2 ^ 64"
        using Suc.prems(6) by simp_all
      moreover have "wsize ?w = int n" "cells n (buf ?w) (Suc e) (p(e := None))"
        using Suc.prems(3) cells_advance [OF Suc.prems(4,1)] by simp_all
      ultimately obtain w' where
        "range_loop (\<lambda>_ v. v \<noteq> None) i (nid + 1) ?w (res @ [Some v]) =
          (res @ [Some v] @ map Some (ready_run i (Suc e) p), w')"
        "wsize w' = wsize w" "once w' = once w"
        "cells n (buf w') (Suc e + length (ready_run i (Suc e) p))
          (p |` {Suc e + length (ready_run i (Suc e) p)..})"
        "if length (ready_run i (Suc e) p) < i
         then unat (lastNonce w') = (Suc e + length (ready_run i (Suc e) p)) mod n
         else lastNonce w' = lastNonce w"
        using Suc.IH [OF Suc.prems(1,2), of ?w "Suc e" "p(e := None)" "nid + 1" "res @ [Some v]"]
        unfolding run restr' by fastforce
      then show ?thesis using Some ix val by (intro exI [of _ w']) (simp add: Let_def)
    qed
  qed
qed

section \<open>Refinement\<close>

lemma length_ready_run: "length (ready_run i e p) \<le> i"
  by (induction i arbitrary: e) (auto split: option.split)

lemma Push_represents:
  assumes "represents n w e p" "e \<le> unat nonce" "unat nonce < e + n"
  shows "\<exists>w'. Push w nonce (Some v) = Inr w' \<and> represents n w' e (p(unat nonce \<mapsto> v))"
proof -
  have "unat (idx w nonce) = unat nonce mod n"
    using assms(1) by (intro unat_idx) (auto simp: represents_def)
  then show ?thesis
    using assms(1) cells_update [OF _ assms(2,3), of "buf w" p v]
    by (auto simp: Push_def represents_def Let_def)
qed

lemma Push_first:
  assumes "0 < n" "n < 2 ^ 63" "unat nonce + n \<le> 2 ^ 64"
  shows "\<exists>w w'. NewRecvWindow (int n) = Inr w \<and> Push w nonce (Some v) = Inr w' \<and>
    represents n w' (unat nonce) [unat nonce \<mapsto> v]"
proof -
  have "cells n (replicate n None) (unat nonce) Map.empty"
    using assms(1) by (simp add: cells_def)
  from cells_update [OF this, of "unat nonce" v] have
    "cells n ((replicate n None)[unat nonce mod n := Some v]) (unat nonce) [unat nonce \<mapsto> v]"
    using assms(1) by simp
  then show ?thesis
    using assms by (auto simp: NewRecvWindow_def Push_def represents_def Let_def unat_idx)
qed

lemma Pop_represents:
  assumes "represents n w e p"
  shows "\<exists>w'. Pop w = (map Some (ready_run n e p), w') \<and>
    represents n w' (e + length (ready_run n e p)) (p |` {e + length (ready_run n e p)..}) \<and>
    (length (ready_run n e p) < n \<longrightarrow> unat (lastNonce w') = (e + length (ready_run n e p)) mod n)"
proof -
  let ?r = "ready_run n e p"
  obtain w' where w': "range_loop (\<lambda>_ v. v \<noteq> None) n (lastNonce w) w [] = (map Some ?r, w')"
    "wsize w' = wsize w" "once w' = once w" "cells n (buf w') (e + length ?r) (p |` {e + length ?r..})"
    "if length ?r < n then unat (lastNonce w') = (e + length ?r) mod n else lastNonce w' = lastNonce w"
    using assms range_loop_run [of n w e p "lastNonce w" n "[]"] by (auto simp: represents_def)
  have n: "0 < n" "n < 2 ^ 63" using assms by (auto simp: represents_def)
  have "unat (lastNonce w') mod n = (e + length ?r) mod n \<and> unat (lastNonce w') + n \<le> 2 ^ 64"
  proof (cases "length ?r < n")
    case True
    have "(e + length ?r) mod n < n" using n(1) by simp
    then have "(e + length ?r) mod n + n \<le> 2 * 2 ^ 63" using n(2) by linarith
    then show ?thesis using True w'(5) by simp
  next
    case False
    then have "length ?r = n" using length_ready_run [of n e p] by simp
    then show ?thesis using w'(5) assms by (simp add: represents_def)
  qed
  then show ?thesis
    using w' assms by (auto simp: Pop_def Range_def represents_def)
qed

text \<open>A receiver that pushes the messages it gets, in the order in which they arrive.\<close>

fun push_all :: "(uint64 \<times> 'v) list \<Rightarrow> 'v RecvWindow \<Rightarrow> 'v RecvWindow result" where
  "push_all [] w = Inr w"
| "push_all ((nonce, v) # ms) w = rbind (Push w nonce (Some v)) (push_all ms)"

lemma push_all_represents:
  assumes "represents n w e p" "\<forall>(nonce, v) \<in> set ms. e \<le> unat nonce \<and> unat nonce < e + n"
  shows "\<exists>w'. push_all ms w = Inr w' \<and> represents n w' e (p ++ map_of (rev (map (\<lambda>(c, v). (unat c, v)) ms)))"
  using assms
proof (induction ms arbitrary: w p)
  case (Cons m ms)
  obtain nonce v where m: "m = (nonce, v)" by force
  from Push_represents [OF Cons.prems(1), of nonce v] Cons.prems(2) m
  obtain w1 where w1: "Push w nonce (Some v) = Inr w1" "represents n w1 e (p(unat nonce \<mapsto> v))" by auto
  have "p(unat nonce \<mapsto> v) ++ q = p ++ ([unat nonce \<mapsto> v] ++ q)" for q
    by (auto simp: map_add_def split: option.split)
  with Cons.IH [OF w1(2)] Cons.prems(2) w1(1) show ?case by (simp add: m fun_upd_def)
qed simp

lemma ready_run_full:
  "\<lbrakk>length vs \<le> n; \<forall>i < length vs. p (e + i) = Some (vs ! i); p (e + length vs) = None\<rbrakk> \<Longrightarrow> ready_run n e p = vs"
proof (induction vs arbitrary: n e)
  case Nil
  then show ?case by (cases n) auto
next
  case (Cons v vs)
  then obtain m where n: "n = Suc m" by (cases n) auto
  have "p e = Some v" using Cons.prems(2) by force
  moreover have "ready_run m (Suc e) p = vs"
    using Cons.prems n by (intro Cons.IH) auto
  ultimately show ?case by (simp add: n)
qed



end
