(* ===== verification/Byte_Stream.thy ===== *)
theory Byte_Stream
  imports Carrier_Prelude "HOL-Library.Sublist"
begin

text \<open>
  The standard-library byte streams that the message layer is written against.

  A connection to write to (\<^verbatim>\<open>net.Conn.Write\<close>) remembers the bytes sent and may fail after any number
  of bytes; \<^verbatim>\<open>bufio.Writer\<close> is its buffer, its sticky error and the connection. A connection to read
  from (\<^verbatim>\<open>net.Conn.Read\<close>) is the list of segments in which the bytes arrive: a read returns at most
  one segment, and at most as many bytes as the caller's buffer has room for. Segments may be
  empty; the end of the list is EOF.

  Shown: a buffered write that reports no error loses, reorders and invents no byte, a write loop
  terminates, and reading a number of bytes depends only on the byte sequence, not on how it was
  cut into segments.
\<close>

section \<open>Writing\<close>

record net_conn =
  sent :: bytes
  budget :: "nat option"

definition conn_Write :: "net_conn \<Rightarrow> bytes \<Rightarrow> nat \<times> go_error option \<times> net_conn" where
  "conn_Write c p =
     (case budget c of
        None \<Rightarrow> (length p, None, c\<lparr>sent := sent c @ p\<rparr>)
      | Some k \<Rightarrow>
          if length p \<le> k then (length p, None, c\<lparr>sent := sent c @ p, budget := Some (k - length p)\<rparr>)
          else (k, Some (Err ''write''), c\<lparr>sent := sent c @ take k p, budget := Some 0\<rparr>))"

record bufio_Writer =
  buffered :: bytes
  bsize :: nat
  berr :: "go_error option"
  wr :: net_conn

definition Available :: "bufio_Writer \<Rightarrow> nat" where
  "Available b = bsize b - length (buffered b)"

definition Flush :: "bufio_Writer \<Rightarrow> go_error option \<times> bufio_Writer" where
  "Flush b =
     (case berr b of
        Some e \<Rightarrow> (Some e, b)
      | None \<Rightarrow>
          if buffered b = [] then (None, b)
          else case conn_Write (wr b) (buffered b) of
                 (n, None, c) \<Rightarrow> (None, b\<lparr>buffered := [], wr := c\<rparr>)
               | (n, Some e, c) \<Rightarrow> (Some e, b\<lparr>buffered := drop n (buffered b), berr := Some e, wr := c\<rparr>))"

function bufio_Write :: "bufio_Writer \<Rightarrow> bytes \<Rightarrow> nat \<Rightarrow> nat \<times> go_error option \<times> bufio_Writer" where
  "bufio_Write b p nn =
     (if Available b < length p \<and> berr b = None
      then if buffered b = []
           then case conn_Write (wr b) p of
                  (n, err, c) \<Rightarrow> bufio_Write (b\<lparr>wr := c, berr := err\<rparr>) (drop n p) (nn + n)
           else let n = Available b
                in bufio_Write (snd (Flush (b\<lparr>buffered := buffered b @ take n p\<rparr>))) (drop n p) (nn + n)
      else case berr b of
             Some e \<Rightarrow> (nn, Some e, b)
           | None \<Rightarrow> (nn + length p, None, b\<lparr>buffered := buffered b @ p\<rparr>))"
  by pat_completeness auto
termination
proof (relation "measure (\<lambda>(b, p, nn).
    length p + (if buffered b = [] then 0 else 1) + (if berr b = None then 1 else 0))"; (simp; fail)?)
  fix b :: bufio_Writer and p nn n y err c
  assume "Available b < length p \<and> berr b = None" "buffered b = []"
    "(n, y) = conn_Write (wr b) p" "(err, c) = y"
  then show "((b\<lparr>wr := c, berr := err\<rparr>, drop n p, nn + n), b, p, nn) \<in> measure (\<lambda>(b, p, nn).
      length p + (if buffered b = [] then 0 else 1) + (if berr b = None then 1 else 0))"
    by (auto simp: conn_Write_def split: option.splits if_splits)
next
  fix b :: bufio_Writer and p :: bytes and nn n :: nat
  assume *: "Available b < length p \<and> berr b = None" "buffered b \<noteq> []"
  let ?b = "snd (Flush (b\<lparr>buffered := buffered b @ take n p\<rparr>))"
  have "buffered ?b = [] \<or> berr ?b \<noteq> None"
    using * by (auto simp: Flush_def split: option.splits prod.splits)
  then show "((?b, drop n p, nn + n), b, p, nn) \<in> measure (\<lambda>(b, p, nn).
      length p + (if buffered b = [] then 0 else 1) + (if berr b = None then 1 else 0))"
    using * by auto
qed

declare bufio_Write.simps [simp del]

text \<open>The bytes a writer has taken so far, sent or still buffered.\<close>

definition accepted :: "bufio_Writer \<Rightarrow> bytes" where
  "accepted b = sent (wr b) @ buffered b"

lemma conn_Write_sent:
  assumes "conn_Write c p = (n, err, c')"
  shows "sent c' = sent c @ take n p" "n \<le> length p" "err = None \<Longrightarrow> n = length p"
    "budget c = None \<Longrightarrow> err = None \<and> budget c' = None"
  using assms by (auto simp: conn_Write_def split: option.splits if_splits)

lemma Flush_ok:
  assumes "Flush b = (err, b')"
  shows "err = None \<Longrightarrow> sent (wr b') = accepted b \<and> buffered b' = [] \<and> berr b' = None"
    and "accepted b' = accepted b" "bsize b' = bsize b" "berr b' = err"
    and "budget (wr b) = None \<Longrightarrow> berr b = None \<Longrightarrow> err = None \<and> budget (wr b') = None"
proof -
  obtain n e c where w: "conn_Write (wr b) (buffered b) = (n, e, c)" by (metis prod_cases3)
  note cw = conn_Write_sent [OF w]
  show "err = None \<Longrightarrow> sent (wr b') = accepted b \<and> buffered b' = [] \<and> berr b' = None"
    "accepted b' = accepted b" "bsize b' = bsize b" "berr b' = err"
    "budget (wr b) = None \<Longrightarrow> berr b = None \<Longrightarrow> err = None \<and> budget (wr b') = None"
    using assms w cw by (auto simp: Flush_def accepted_def split: option.splits if_splits)
qed

lemma bufio_Write_ok:
  assumes "bufio_Write b p nn = (n, err, b')"
  shows "(err = None \<longrightarrow> n = nn + length p \<and> accepted b' = accepted b @ p \<and> berr b' = None) \<and>
    prefix (accepted b) (accepted b') \<and> prefix (accepted b') (accepted b @ p) \<and> bsize b' = bsize b \<and> berr b' = err \<and>
    (budget (wr b) = None \<and> berr b = None \<longrightarrow> err = None \<and> budget (wr b') = None)"
  using assms
proof (induction b p nn rule: bufio_Write.induct)
  case (1 b p nn)
  consider (stop) "\<not> (Available b < length p \<and> berr b = None)"
    | (direct) "Available b < length p \<and> berr b = None" "buffered b = []"
    | (fill) "Available b < length p \<and> berr b = None" "buffered b \<noteq> []" by blast
  then show ?case
  proof cases
    case stop
    then show ?thesis
      using "1.prems" by (subst (asm) bufio_Write.simps) (auto simp: accepted_def split: option.splits)
  next
    case direct
    obtain m e c where w: "conn_Write (wr b) p = (m, e, c)" by (metis prod_cases3)
    have "bufio_Write (b\<lparr>wr := c, berr := e\<rparr>) (drop m p) (nn + m) = (n, err, b')"
      using "1.prems" direct w by (subst (asm) bufio_Write.simps) simp
    note IH = "1.IH"(1) [OF direct w [symmetric] refl this]
    have acc: "accepted (b\<lparr>wr := c, berr := e\<rparr>) = accepted b @ take m p"
      using conn_Write_sent(1) [OF w] direct(2) by (simp add: accepted_def)
    have "prefix (accepted b) (accepted b')"
      using IH unfolding acc by (meson append_prefixD)
    moreover have "nn + length p = nn + m + length (drop m p)"
      using conn_Write_sent(2) [OF w] by simp
    ultimately show ?thesis
      using IH conn_Write_sent(4) [OF w] unfolding acc by auto
  next
    case fill
    let ?n = "Available b"
    let ?b = "snd (Flush (b\<lparr>buffered := buffered b @ take ?n p\<rparr>))"
    obtain fe where f: "Flush (b\<lparr>buffered := buffered b @ take ?n p\<rparr>) = (fe, ?b)" by (metis prod.collapse)
    have "bufio_Write ?b (drop ?n p) (nn + ?n) = (n, err, b')"
      using "1.prems" fill by (subst (asm) bufio_Write.simps) (simp add: Let_def)
    note IH = "1.IH"(2) [OF fill refl this]
    have acc: "accepted ?b = accepted b @ take ?n p"
      using Flush_ok(2) [OF f] by (simp add: accepted_def)
    have "prefix (accepted b) (accepted b')"
      using IH unfolding acc by (meson append_prefixD)
    moreover have "nn + length p = nn + ?n + length (drop ?n p)" using fill(1) by simp
    ultimately show ?thesis
      using IH Flush_ok(3,4,5) [OF f] fill(1) unfolding acc by auto
  qed
qed


text \<open>
  The loop in which the senders of \<^verbatim>\<open>src/network/stream.go\<close> and \<^verbatim>\<open>src/network/session.go\<close> write a frame:
  write the rest, count, flush when the buffer is full. It returns the number of bytes counted.
\<close>

function write_loop :: "bufio_Writer \<Rightarrow> bytes \<Rightarrow> nat \<Rightarrow> nat \<times> go_error option \<times> bufio_Writer" where
  "write_loop b p written =
     (if p = [] then (written, None, b)
      else case bufio_Write b p 0 of
             (n, Some e, b1) \<Rightarrow> (written, Some e, b1)
           | (n, None, b1) \<Rightarrow>
               if Available b1 \<le> 0
               then case Flush b1 of
                      (Some e, b2) \<Rightarrow> (written + n, Some e, b2)
                    | (None, b2) \<Rightarrow> write_loop b2 (drop n p) (written + n)
               else write_loop b1 (drop n p) (written + n))"
  by pat_completeness auto
termination
  by (relation "measure (\<lambda>(b, p, written). length p)") (auto dest!: bufio_Write_ok sym [of "(_, _, _)"])

declare write_loop.simps [simp del]

text \<open>Write everything, then flush.\<close>

definition write_frame :: "bufio_Writer \<Rightarrow> bytes \<Rightarrow> nat \<times> go_error option \<times> bufio_Writer" where
  "write_frame b p =
     (case write_loop b p 0 of
        (written, Some e, b1) \<Rightarrow> (written, Some e, b1)
      | (written, None, b1) \<Rightarrow> (case Flush b1 of (err, b2) \<Rightarrow> (written, err, b2)))"

lemma write_loop_ok:
  assumes "write_loop b p written = (n, err, b')"
  shows "(err = None \<longrightarrow> n = written + length p \<and> accepted b' = accepted b @ p) \<and>
    prefix (accepted b) (accepted b') \<and> prefix (accepted b') (accepted b @ p) \<and>
    (budget (wr b) = None \<and> berr b = None \<longrightarrow> err = None \<and> budget (wr b') = None \<and> berr b' = None)"
proof (cases "p = []")
  case True
  then show ?thesis using assms by (subst (asm) write_loop.simps) auto
next
  case False
  obtain m e b1 where w: "bufio_Write b p 0 = (m, e, b1)" by (metis prod_cases3)
  obtain fe b2 where f: "Flush b1 = (fe, b2)" by force
  have fin: "write_loop c [] k = (k, None, c)" for c k by (subst write_loop.simps) simp
  have m: "e = None \<Longrightarrow> m = length p" using bufio_Write_ok [OF w] by simp
  show ?thesis
  proof (cases e)
    case None
    then show ?thesis
      using assms False w f m bufio_Write_ok [OF w] Flush_ok [OF f]
      by (subst (asm) write_loop.simps) (auto simp: fin split: option.splits if_splits)
  next
    case (Some x)
    then show ?thesis
      using assms False w bufio_Write_ok [OF w] by (subst (asm) write_loop.simps) auto
  qed
qed

lemma write_frame_ok:
  assumes "write_frame b p = (n, err, b')"
  shows "(err = None \<longrightarrow> n = length p \<and> sent (wr b') = accepted b @ p \<and> buffered b' = [] \<and> berr b' = None) \<and>
    prefix (sent (wr b')) (accepted b @ p) \<and>
    (budget (wr b) = None \<and> berr b = None \<longrightarrow> err = None \<and> budget (wr b') = None)"
proof -
  obtain m e b1 where w: "write_loop b p 0 = (m, e, b1)" by (metis prod_cases3)
  obtain fe b2 where f: "Flush b1 = (fe, b2)" by force
  have "prefix (sent (wr b')) (accepted b')" by (simp add: accepted_def)
  moreover have "accepted b2 = accepted b1" using Flush_ok(2) [OF f] .
  ultimately show ?thesis
    using assms w f write_loop_ok [OF w] Flush_ok [OF f]
    by (auto simp: write_frame_def split: option.splits intro: prefix_order.trans)
qed

section \<open>Reading\<close>

definition EOF_error :: go_error where
  "EOF_error = Err ''EOF''"

fun conn_Read :: "nat \<Rightarrow> bytes list \<Rightarrow> bytes \<times> go_error option \<times> bytes list" where
  "conn_Read k [] = ([], Some EOF_error, [])"
| "conn_Read k (c # cs) = (take k c, None, if length c \<le> k then cs else drop k c # cs)"

text \<open>
  The loop \<^verbatim>\<open>for totalBytesRead < k && err == nil { bytesRead, err = conn.Read(buffer[totalBytesRead:]) }\<close>.
\<close>

function read_loop :: "nat \<Rightarrow> bytes \<Rightarrow> bytes list \<Rightarrow> (bytes \<times> bytes list) result" where
  "read_loop k buffer cs =
     (if length buffer < k
      then case conn_Read (k - length buffer) cs of
             (got, Some e, cs1) \<Rightarrow> Inl e
           | (got, None, cs1) \<Rightarrow> read_loop k (buffer @ got) cs1
      else Inr (buffer, cs))"
  by pat_completeness auto
termination
proof (relation "measure (\<lambda>(k, buffer, cs). length (concat cs) + length cs)"; (simp; fail)?)
  fix k :: nat and buffer :: bytes and cs got y err cs1
  assume "length buffer < k" "(got, y) = conn_Read (k - length buffer) cs" "(err, cs1) = y" "err = None"
  then show "((k, buffer @ got, cs1), k, buffer, cs) \<in> measure (\<lambda>(k, buffer, cs). length (concat cs) + length cs)"
    by (cases cs) (auto split: if_splits)
qed

declare read_loop.simps [simp del]

text \<open>\<^verbatim>\<open>io.ReadFull\<close> reads in the same way, and reports a partial read as an unexpected EOF.\<close>

definition io_ReadFull :: "nat \<Rightarrow> bytes list \<Rightarrow> (bytes \<times> bytes list) result" where
  "io_ReadFull k cs =
     (case read_loop k [] cs of
        Inl e \<Rightarrow> Inl (if concat cs = [] then e else Err ''unexpected EOF'')
      | Inr r \<Rightarrow> Inr r)"

lemma read_loop_ok:
  assumes "length buffer \<le> k"
  shows "if k \<le> length (buffer @ concat cs)
    then \<exists>cs'. read_loop k buffer cs = Inr (take k (buffer @ concat cs), cs') \<and>
      concat cs' = drop k (buffer @ concat cs)
    else read_loop k buffer cs = Inl EOF_error"
  using assms
proof (induction k buffer cs rule: read_loop.induct)
  case (1 k buffer cs)
  show ?case
  proof (cases "length buffer < k")
    case False
    then show ?thesis using "1.prems" by (subst read_loop.simps) simp
  next
    case True
    show ?thesis
    proof (cases cs)
      case Nil
      then show ?thesis using True by (subst read_loop.simps) simp
    next
      case (Cons c cs0)
      then obtain got cs1 where cr: "conn_Read (k - length buffer) cs = (got, None, cs1)"
        "concat cs = got @ concat cs1" "length got \<le> k - length buffer"
        by (cases "length c \<le> k - length buffer") auto
      have "read_loop k buffer cs = read_loop k (buffer @ got) cs1"
        using True cr(1) by (subst read_loop.simps) simp
      moreover have "length (buffer @ got) \<le> k" using True cr(3) by simp
      note "1.IH" [OF True cr(1) [symmetric] refl refl this]
      ultimately show ?thesis unfolding cr(2) by (simp only: append_assoc)
    qed
  qed
qed

lemma read_exact:
  assumes "concat cs = b @ r"
  obtains cs' where "read_loop (length b) [] cs = Inr (b, cs')" "concat cs' = r"
  using read_loop_ok [of "[]" "length b" cs] assms that by auto

lemma read_short:
  assumes "length (concat cs) < k"
  shows "read_loop k [] cs = Inl EOF_error"
  using read_loop_ok [of "[]" k cs] assms by simp

end
