(* ===== verification/Compression.thy ===== *)
theory Compression
  imports Carrier_Prelude
begin

text \<open>
  Frame compression, \<^verbatim>\<open>src/network/compress.go\<close>. The compressed formats of the standard library (gzip,
  zlib, LZW) are the functions of a record \<open>codecs\<close>; a reader is \<open>None\<close> where \<^verbatim>\<open>NewReader\<close> rejects the
  header, which the code ignores and then dereferences. What the code relies on is \<open>lossless\<close>:
  decompressing what the same format compressed gives the input back, and every compressed stream
  has a header or trailer, so it is not empty.
\<close>

section \<open>Algorithms\<close>

type_synonym AlgoType = uint16

definition NONE :: AlgoType where "NONE = 0"
definition BZIP2 :: AlgoType where "BZIP2 = 1"
definition GZIP :: AlgoType where "GZIP = 2"
definition ZLIB :: AlgoType where "ZLIB = 3"
definition LZW :: AlgoType where "LZW = 4"
definition FLAT :: AlgoType where "FLAT = 5"

lemmas algo_defs = NONE_def BZIP2_def GZIP_def ZLIB_def LZW_def FLAT_def

record codecs =
  gzip_w :: "bytes \<Rightarrow> bytes"
  gzip_r :: "bytes \<Rightarrow> bytes option"
  zlib_w :: "bytes \<Rightarrow> bytes"
  zlib_r :: "bytes \<Rightarrow> bytes option"
  lzw_w :: "bytes \<Rightarrow> bytes"
  lzw_r :: "bytes \<Rightarrow> bytes"

definition lossless :: "codecs \<Rightarrow> bool" where
  "lossless z \<longleftrightarrow> (\<forall>b. gzip_r z (gzip_w z b) = Some b) \<and> (\<forall>b. zlib_r z (zlib_w z b) = Some b) \<and>
     (\<forall>b. lzw_r z (lzw_w z b) = b) \<and> (\<forall>b. gzip_w z b \<noteq> [] \<and> zlib_w z b \<noteq> [] \<and> lzw_w z b \<noteq> [])"

text \<open>The fields of the network state that the message layer reads.\<close>

record net_config =
  netID :: uint32
  compressEnable :: bool
  compressAlgo :: AlgoType
  ConditionSize :: int

section \<open>Operations\<close>

definition doLzwCompress :: "codecs \<Rightarrow> bytes \<Rightarrow> bytes" where
  "doLzwCompress z src = lzw_w z src"

definition doLzwUncompress :: "codecs \<Rightarrow> bytes \<Rightarrow> bytes result" where
  "doLzwUncompress z src = Inr (lzw_r z src)"

definition doGzipCompress :: "codecs \<Rightarrow> bytes \<Rightarrow> bytes" where
  "doGzipCompress z src = gzip_w z src"

definition nil_reader :: go_error where
  "nil_reader = Panic ''nil pointer dereference''"

definition doGzipUncompress :: "codecs \<Rightarrow> bytes \<Rightarrow> bytes result" where
  "doGzipUncompress z src = (case gzip_r z src of None \<Rightarrow> Inl nil_reader | Some out \<Rightarrow> Inr out)"

definition doBzip2Compress :: "bytes \<Rightarrow> bytes" where
  "doBzip2Compress src = src"

definition doBzip2Uncompress :: "bytes \<Rightarrow> bytes result" where
  "doBzip2Uncompress src = Inr src"

definition doZlibCompress :: "codecs \<Rightarrow> bytes \<Rightarrow> bytes" where
  "doZlibCompress z src = zlib_w z src"

definition doZlibUnCompress :: "codecs \<Rightarrow> bytes \<Rightarrow> bytes result" where
  "doZlibUnCompress z src = (case zlib_r z src of None \<Rightarrow> Inl nil_reader | Some out \<Rightarrow> Inr out)"

definition GenCompressInfo :: "net_config \<Rightarrow> int \<Rightarrow> uint16 result" where
  "GenCompressInfo n msgSize =
     (let enable = (if compressEnable n \<and> ConditionSize n \<le> msgSize then 1 else 0)
      in if 0xFF < compressAlgo n then Inl (Panic ''compress algo value invalid'')
         else Inr (push_bit 8 enable OR compressAlgo n))"

definition GetCompressInfo :: "uint16 \<Rightarrow> AlgoType \<times> bool" where
  "GetCompressInfo info = (info AND 0xFF, drop_bit 8 info = 1)"

definition Compress :: "codecs \<Rightarrow> net_config \<Rightarrow> bytes \<Rightarrow> bytes result" where
  "Compress z n message =
     (if compressAlgo n = BZIP2 then Inr (doBzip2Compress message)
      else if compressAlgo n = GZIP then Inr (doGzipCompress z message)
      else if compressAlgo n = ZLIB then Inr (doZlibCompress z message)
      else if compressAlgo n = LZW then Inr (doLzwCompress z message)
      else if compressAlgo n = NONE then Inr message
      else Inl (Err ''compress algo type error''))"

definition Uncompress :: "codecs \<Rightarrow> bytes \<Rightarrow> AlgoType \<Rightarrow> bytes result" where
  "Uncompress z message algo =
     (if algo = BZIP2 then doBzip2Uncompress message
      else if algo = GZIP then doGzipUncompress z message
      else if algo = ZLIB then doZlibUnCompress z message
      else if algo = LZW then doLzwUncompress z message
      else Inr message)"

section \<open>Round trips\<close>

lemma take_bit_8_small:
  assumes "(a :: uint16) \<le> 0xFF"
  shows "take_bit 8 a = a"
proof -
  have "unat a \<le> 255" using assms by (simp add: word_le_nat_alt)
  then have "unat (take_bit 8 a) = unat a"
    by (simp add: take_bit_eq_mod unat_mod)
  then show ?thesis by (simp only: word_unat_eq_iff)
qed

lemma GetCompressInfo_Gen:
  assumes "GenCompressInfo n sz = Inr info"
  shows "GetCompressInfo info = (compressAlgo n, compressEnable n \<and> ConditionSize n \<le> sz)"
proof -
  let ?e = "if compressEnable n \<and> ConditionSize n \<le> sz then 1 else 0 :: uint16"
  have small: "compressAlgo n \<le> 0xFF" and info: "info = push_bit 8 ?e OR compressAlgo n"
    using assms by (auto simp: GenCompressInfo_def Let_def not_less split: if_splits)
  note t = take_bit_8_small [OF small]
  have "info AND 0xFF = take_bit 8 info"
    by (simp add: take_bit_eq_mask mask_eq_exp_minus_1)
  then have "info AND 0xFF = compressAlgo n"
    unfolding info by (simp add: take_bit_push_bit t)
  moreover have "drop_bit 8 (compressAlgo n) = 0"
    by (subst t [symmetric]) (simp add: drop_bit_take_bit)
  then have "drop_bit 8 info = ?e" unfolding info by (simp add: drop_bit_push_bit)
  ultimately show ?thesis by (simp add: GetCompressInfo_def)
qed

lemma Uncompress_Compress:
  assumes "lossless z" "Compress z n message = Inr b"
  shows "Uncompress z b (compressAlgo n) = Inr message"
  using assms
  by (auto simp: Compress_def Uncompress_def lossless_def doBzip2Compress_def doBzip2Uncompress_def
      doGzipCompress_def doGzipUncompress_def doZlibCompress_def doZlibUnCompress_def
      doLzwCompress_def doLzwUncompress_def split: if_splits)

lemma Compress_nonempty:
  assumes "lossless z" "Compress z n message = Inr b" "message \<noteq> []"
  shows "b \<noteq> []"
  using assms
  by (auto simp: Compress_def lossless_def doBzip2Compress_def doGzipCompress_def doZlibCompress_def
      doLzwCompress_def split: if_splits)

lemma Compress_ok_algo:
  assumes "Compress z n message = Inr b"
  shows "compressAlgo n \<le> 0xFF"
  using assms by (auto simp: Compress_def algo_defs split: if_splits)

end
