(* ===== verification/Message_Codec.thy ===== *)
theory Message_Codec
  imports Byte_Stream Compression Peer_Identity Opcode_Table
begin

text \<open>
  Framing of messages: the signed serialization (\<^verbatim>\<open>src/network/utils.go\<close>), the TCP/KCP frames
  (\<^verbatim>\<open>src/network/stream.go\<close>), the QUIC frames (\<^verbatim>\<open>src/network/session.go\<close>) and the UDP packages
  (\<^verbatim>\<open>src/network/package.go\<close>). The protobuf encoder and decoder are the parameters \<open>marshal\<close> and
  \<open>unmarshal\<close>. Logging, deadlines and the bandwidth reporter are left out.

  Shown: a receiver that reads a connection in any segmentation gets exactly the messages that were
  sent, in order; everything a receiver accepts has the headers the dispatcher relies on; the
  signed bytes determine the sender's address, hash and payload; and the malformed inputs on which
  the receivers panic.
\<close>

section \<open>Messages\<close>

record Message =
  Message_body :: bytes
  Sender :: "ID option"
  Signature :: "bytes option"
  RequestNonce :: uint64
  MessageNonce :: uint64
  ReplyFlag :: bool
  Opcode_of :: uint32
  NetID :: uint32
  MessageID :: string
  NeedAck :: bool

type_synonym marshaller = "Message \<Rightarrow> bytes result"
type_synonym unmarshaller = "bytes \<Rightarrow> Message result"

section \<open>The signed bytes\<close>

text \<open>
  \<open>SerializeMessage\<close> fills a buffer of exactly the needed size piece by piece; \<open>copy_at\<close> is
  \<^verbatim>\<open>copy(serialized[pos:], src)\<close>, also used for \<open>PutUint32\<close> at an offset.
\<close>

definition copy_at :: "bytes \<Rightarrow> nat \<Rightarrow> bytes \<Rightarrow> bytes" where
  "copy_at dst pos src = take pos dst @ take (length dst - pos) src @ drop (pos + length src) dst"

definition SerializeMessage :: "ID \<Rightarrow> bytes \<Rightarrow> bytes result" where
  "SerializeMessage pid message =
     (let address = str_bytes (Address pid);
          serialized = replicate (4 + length address + 4 + length (Id_hash pid) + length message) 0;
          pos = 0;
          serialized = copy_at serialized pos (LE_PutUint32 (of_nat (length address)));
          pos = pos + 4;
          serialized = copy_at serialized pos address;
          pos = pos + length address;
          serialized = copy_at serialized pos (LE_PutUint32 (of_nat (length (Id_hash pid))));
          pos = pos + 4;
          serialized = copy_at serialized pos (Id_hash pid);
          pos = pos + length (Id_hash pid);
          serialized = copy_at serialized pos message;
          pos = pos + length message
      in if pos \<noteq> length serialized then Inl (Panic ''internal error: invalid serialization output'')
         else Inr serialized)"

section \<open>TCP and KCP frames\<close>

definition frame :: "uint32 \<Rightarrow> uint16 \<Rightarrow> bytes \<Rightarrow> bytes" where
  "frame network_id info body =
     BE_PutUint32 network_id @ BE_PutUint16 info @ BE_PutUint32 (of_nat (length body)) @ body"

definition build_frame :: "marshaller \<Rightarrow> codecs \<Rightarrow> net_config \<Rightarrow> Message \<Rightarrow> bytes result" where
  "build_frame marshal z n message =
     rbind (marshal message) (\<lambda>b.
       if b = [] then Inl (Panic ''interface conversion: *bufio.Writer is not net.Conn'')
       else rbind (if compressEnable n \<and> ConditionSize n \<le> int (length b) then Compress z n b else Inr b)
         (\<lambda>body. rbind (GenCompressInfo n (int (length b))) (\<lambda>info. Inr (frame (netID n) info body))))"

definition sendMessage ::
  "marshaller \<Rightarrow> codecs \<Rightarrow> net_config \<Rightarrow> bufio_Writer \<Rightarrow> Message \<Rightarrow> go_error option \<times> bufio_Writer" where
  "sendMessage marshal z n w message =
     (case build_frame marshal z n message of
        Inl e \<Rightarrow> (Some e, w)
      | Inr buffer \<Rightarrow> (case write_frame w buffer of (_, err, w1) \<Rightarrow> (err, w1)))"

definition header_ok :: "net_config \<Rightarrow> Message \<Rightarrow> bool" where
  "header_ok n msg =
     (case Sender msg of
        None \<Rightarrow> False
      | Some s \<Rightarrow> Opcode_of msg \<noteq> 0 \<and> NetKey s \<noteq> None \<and> length (Address s) \<noteq> 0 \<and> NetID msg = netID n)"

text \<open>
  The receivers of the stream protocols differ only in how they fill a buffer: \<open>receive_frame\<close> takes
  the function that reads a given number of bytes.
\<close>

definition receive_frame ::
  "(nat \<Rightarrow> bytes list \<Rightarrow> (bytes \<times> bytes list) result) \<Rightarrow> unmarshaller \<Rightarrow> codecs \<Rightarrow> net_config \<Rightarrow> bytes list \<Rightarrow>
    (Message \<times> bytes list) result" where
  "receive_frame read_bytes unmarshal z n conn =
     rbind (read_bytes 4 conn) (\<lambda>(buffer, conn).
     if BE_Uint32 buffer \<noteq> Some (netID n) then Inl (Err ''receive an invalid message with wrong networkID'')
     else rbind (read_bytes 2 conn) (\<lambda>(buffer, conn).
     case BE_Uint16 buffer of None \<Rightarrow> Inl (Panic ''index out of range'') | Some compressInfo \<Rightarrow>
     (case GetCompressInfo compressInfo of (algo, compEnable) \<Rightarrow>
     rbind (read_bytes 4 conn) (\<lambda>(buffer, conn).
     case BE_Uint32 buffer of None \<Rightarrow> Inl (Panic ''index out of range'') | Some sz \<Rightarrow>
     if sz = 0 then Inl (Err ''received an empty message from a peer'')
     else rbind (read_bytes (unat sz) conn) (\<lambda>(buffer, conn).
     rbind (if compEnable then Uncompress z buffer algo else Inr buffer) (\<lambda>buffer.
     rbind (unmarshal buffer) (\<lambda>msg.
     if \<not> header_ok n msg then Inl (Err ''received an invalid message from a peer'')
     else Inr (msg, conn))))))))"

definition receiveMessage ::
  "unmarshaller \<Rightarrow> codecs \<Rightarrow> net_config \<Rightarrow> bytes list \<Rightarrow> (Message \<times> bytes list) result" where
  "receiveMessage = receive_frame (\<lambda>k. read_loop k [])"

section \<open>QUIC frames\<close>

definition sendQuicMessage ::
  "marshaller \<Rightarrow> codecs \<Rightarrow> net_config \<Rightarrow> bufio_Writer \<Rightarrow> Message \<Rightarrow> go_error option \<times> bufio_Writer" where
  "sendQuicMessage marshal z n w message =
     (case marshal message of
        Inl e \<Rightarrow> (Some e, w)
      | Inr [] \<Rightarrow> (None, w)
      | Inr (x # xs) \<Rightarrow>
          (case build_frame marshal z n message of
             Inl e \<Rightarrow> (Some e, w)
           | Inr buffer \<Rightarrow> (case write_frame w buffer of (_, err, w1) \<Rightarrow> (err, w1))))"

definition receiveQuicMessage ::
  "unmarshaller \<Rightarrow> codecs \<Rightarrow> net_config \<Rightarrow> bytes list \<Rightarrow> (Message \<times> bytes list) result" where
  "receiveQuicMessage = receive_frame io_ReadFull"

section \<open>UDP packages\<close>

definition MAX_PACKAGE_SIZE :: nat where "MAX_PACKAGE_SIZE = 1024 * 64"
definition STORE_PACKAGE_REAL_SIZE :: nat where "STORE_PACKAGE_REAL_SIZE = 2"

definition BuildRawContent :: "marshaller \<Rightarrow> Message \<Rightarrow> bytes option" where
  "BuildRawContent marshal message =
     (case marshal message of
        Inl e \<Rightarrow> None
      | Inr b \<Rightarrow>
          let buffer = copy_at (replicate STORE_PACKAGE_REAL_SIZE 0) 0 (BE_PutUint16 (of_nat (length b))) @ b
          in if MAX_PACKAGE_SIZE < length buffer then None else Some buffer)"

text \<open>
  A datagram is written at once. \<open>sendUDPMessage\<close> returns the datagram handed to the socket, if any;
  its error result is always nil.
\<close>

definition sendUDPMessage :: "marshaller \<Rightarrow> Message \<Rightarrow> bytes option" where
  "sendUDPMessage marshal message = BuildRawContent marshal message"

text \<open>
  The receive buffer has \<open>MAX_PACKAGE_SIZE\<close> zero bytes over which the datagram is copied. The slice
  \<^verbatim>\<open>buffer[2:2+size]\<close> computes its bound in uint16. \<open>None\<close> is the nil message of a read that returned
  nothing.
\<close>

definition receiveUDPMessage :: "unmarshaller \<Rightarrow> net_config \<Rightarrow> bytes option \<Rightarrow> Message option result" where
  "receiveUDPMessage unmarshal n datagram =
     (case datagram of
        None \<Rightarrow> Inr None
      | Some d \<Rightarrow>
          let buffer = copy_at (replicate MAX_PACKAGE_SIZE 0) 0 d
          in case BE_Uint16 buffer of
               None \<Rightarrow> Inl (Panic ''index out of range'')
             | Some sz \<Rightarrow>
                 let hi = 2 + sz
                 in if hi < 2 then Inl (Panic ''slice bounds out of range'')
                    else rbind (unmarshal (take (unat hi - 2) (drop 2 buffer))) (\<lambda>msg.
                      if Opcode_of msg = ProxyResponseCode \<or> Opcode_of msg = KeepaliveResponseCode
                      then Inr (Some msg)
                      else if \<not> header_ok n msg then Inl (Err ''received an invalid message from a peer'')
                      else Inr (Some msg)))"

section \<open>The signed bytes determine their parts\<close>

lemma copy_at_append: "length pre = k \<Longrightarrow> length src \<le> length rest \<Longrightarrow>
    copy_at (pre @ rest) k src = pre @ src @ drop (length src) rest"
  by (auto simp: copy_at_def)

lemma copy_at_zeros:
  "length pre = k \<Longrightarrow> length src \<le> m \<Longrightarrow>
    copy_at (pre @ replicate m 0) k src = (pre @ src) @ replicate (m - length src) 0"
  by (simp add: copy_at_append)

lemma SerializeMessage_eq:
  "SerializeMessage pid message =
     Inr (LE_PutUint32 (of_nat (length (Address pid))) @ str_bytes (Address pid) @
          LE_PutUint32 (of_nat (length (Id_hash pid))) @ Id_hash pid @ message)"
proof -
  let ?a = "str_bytes (Address pid)"
  let ?na = "length (Address pid)" and ?nh = "length (Id_hash pid)" and ?nm = "length message"
  let ?la = "LE_PutUint32 (of_nat ?na)" and ?lh = "LE_PutUint32 (of_nat ?nh)"
  have 1: "copy_at (replicate (4 + ?na + 4 + ?nh + ?nm) 0) 0 ?la = ?la @ replicate (?na + 4 + ?nh + ?nm) 0"
    using copy_at_zeros [of "[]" 0 ?la "4 + ?na + 4 + ?nh + ?nm"] by (simp add: add.assoc)
  have 2: "copy_at (?la @ replicate (?na + 4 + ?nh + ?nm) 0) 4 ?a = (?la @ ?a) @ replicate (4 + ?nh + ?nm) 0"
    using copy_at_zeros [of ?la 4 ?a "?na + 4 + ?nh + ?nm"] by (simp add: add.assoc)
  have 3: "copy_at ((?la @ ?a) @ replicate (4 + ?nh + ?nm) 0) (4 + ?na) ?lh =
      (?la @ ?a @ ?lh) @ replicate (?nh + ?nm) 0"
    using copy_at_zeros [of "?la @ ?a" "4 + ?na" ?lh "4 + ?nh + ?nm"] by (simp add: add.assoc)
  have 4: "copy_at ((?la @ ?a @ ?lh) @ replicate (?nh + ?nm) 0) (4 + ?na + 4) (Id_hash pid) =
      (?la @ ?a @ ?lh @ Id_hash pid) @ replicate ?nm 0"
    using copy_at_zeros [of "?la @ ?a @ ?lh" "4 + ?na + 4" "Id_hash pid" "?nh + ?nm"] by (simp add: add.assoc)
  have 5: "copy_at ((?la @ ?a @ ?lh @ Id_hash pid) @ replicate ?nm 0) (4 + ?na + 4 + ?nh) message =
      ?la @ ?a @ ?lh @ Id_hash pid @ message"
    using copy_at_zeros [of "?la @ ?a @ ?lh @ Id_hash pid" "4 + ?na + 4 + ?nh" message ?nm]
    by (simp add: add.assoc)
  show ?thesis
    unfolding SerializeMessage_def Let_def length_str_bytes add_0 1 2 3 4 5 by simp
qed

lemma LE_prefix_inj:
  assumes "LE_PutUint32 (of_nat (length xs)) @ xs @ r = LE_PutUint32 (of_nat (length ys)) @ ys @ r'"
    and "length xs < 2 ^ 32" "length ys < 2 ^ 32"
  shows "xs = ys \<and> r = r'"
proof -
  have "LE_Uint32 (LE_PutUint32 (of_nat (length xs)) @ xs @ r) =
      LE_Uint32 (LE_PutUint32 (of_nat (length ys)) @ ys @ r')" using assms(1) by (rule arg_cong)
  then have "(of_nat (length xs) :: uint32) = of_nat (length ys)" by simp
  then have "unat (of_nat (length xs) :: uint32) = unat (of_nat (length ys) :: uint32)" by simp
  then have "length xs = length ys" using assms(2,3) by (simp add: unat_of_nat)
  then show ?thesis using assms(1) by (simp add: append_eq_append_conv)
qed

text \<open>
  C31. \<open>SerializeMessage\<close> never panics, and as long as addresses and hashes are shorter than 4 GiB
  two signed byte strings are equal only if address, hash and payload are: a signature on one
  (sender, payload) pair is not a signature on another. (Opcode, nonces and network key are not
  covered.)
\<close>

theorem SerializeMessage_injective:
  assumes "length (Address p) < 2 ^ 32" "length (Address q) < 2 ^ 32"
    and "length (Id_hash p) < 2 ^ 32" "length (Id_hash q) < 2 ^ 32"
  shows "is_ok (SerializeMessage p m) \<and>
    (SerializeMessage p m = SerializeMessage q m' \<longleftrightarrow> Address p = Address q \<and> Id_hash p = Id_hash q \<and> m = m')"
proof -
  have "Address p = Address q \<and> Id_hash p = Id_hash q \<and> m = m'"
    if "SerializeMessage p m = SerializeMessage q m'"
  proof -
    let ?r = "\<lambda>p m. LE_PutUint32 (of_nat (length (Id_hash p))) @ Id_hash p @ m"
    have "LE_PutUint32 (of_nat (length (str_bytes (Address p)))) @ str_bytes (Address p) @ ?r p m =
        LE_PutUint32 (of_nat (length (str_bytes (Address q)))) @ str_bytes (Address q) @ ?r q m'"
      using that by (simp add: SerializeMessage_eq)
    from LE_prefix_inj [OF this] assms have "Address p = Address q" "?r p m = ?r q m'" by simp_all
    then show ?thesis using LE_prefix_inj [OF _ assms(3,4), of m m'] by blast
  qed
  then show ?thesis by (auto simp: SerializeMessage_eq)
qed

theorem SerializeMessage_injective_witness:
  "\<exists>p q. Address p = ''tcp://a:1'' \<and> SerializeMessage p [1] \<noteq> SerializeMessage q [1]"
proof -
  let ?id = "\<lambda>a. \<lparr>NetKey = None, Address = a, Id_hash = [7], ConnectionId = None, Address2 = []\<rparr>"
  show ?thesis
    using SerializeMessage_injective [of "?id ''tcp://a:1''" "?id ''tcp://a:2''" "[1]" "[1]"]
    by (intro exI [of _ "?id ''tcp://a:1''"] exI [of _ "?id ''tcp://a:2''"]) simp
qed

section \<open>Frames on a stream\<close>

text \<open>
  What the stream receivers need of the function that fills a buffer: it returns exactly the next
  bytes, however they are segmented. Both the read loop and \<^verbatim>\<open>io.ReadFull\<close> provide it.
\<close>

locale exact_reader =
  fixes rd :: "nat \<Rightarrow> bytes list \<Rightarrow> (bytes \<times> bytes list) result"
  assumes exact: "concat conn = b @ r \<Longrightarrow> \<exists>conn'. rd (length b) conn = Inr (b, conn') \<and> concat conn' = r"
begin

lemma exactE:
  assumes "concat conn = b @ r" "length b = k"
  obtains conn' where "rd k conn = Inr (b, conn')" "concat conn' = r"
  using exact [OF assms(1)] assms(2) by blast

lemma receive_body:
  assumes "concat conn = frame (netID n) info body @ r" "body \<noteq> []" "length body < 2 ^ 32"
  obtains conn' where "concat conn' = r"
    "receive_frame rd unmarshal z n conn =
       rbind (if snd (GetCompressInfo info) then Uncompress z body (fst (GetCompressInfo info)) else Inr body) (\<lambda>b.
         rbind (unmarshal b) (\<lambda>msg.
           if \<not> header_ok n msg then Inl (Err ''received an invalid message from a peer'') else Inr (msg, conn')))"
proof -
  let ?sz = "of_nat (length body) :: uint32"
  have c: "concat conn = BE_PutUint32 (netID n) @ BE_PutUint16 info @ BE_PutUint32 ?sz @ body @ r"
    using assms(1) by (simp add: frame_def)
  obtain c1 where c1: "rd 4 conn = Inr (BE_PutUint32 (netID n), c1)"
    "concat c1 = BE_PutUint16 info @ BE_PutUint32 ?sz @ body @ r"
    by (rule exactE [OF c]) simp_all
  obtain c2 where c2: "rd 2 c1 = Inr (BE_PutUint16 info, c2)" "concat c2 = BE_PutUint32 ?sz @ body @ r"
    by (rule exactE [OF c1(2)]) simp_all
  obtain c3 where c3: "rd 4 c2 = Inr (BE_PutUint32 ?sz, c3)" "concat c3 = body @ r"
    by (rule exactE [OF c2(2)]) simp_all
  have len: "unat ?sz = length body" using assms(3) by (simp add: unat_of_nat)
  then have sz: "?sz \<noteq> 0" using assms(2) by (metis length_0_conv unat_0)
  obtain c4 where c4: "rd (unat ?sz) c3 = Inr (body, c4)" "concat c4 = r"
    by (rule exactE [OF c3(2)]) (simp_all add: len)
  show thesis
    by (rule that [OF c4(2)])
      (use sz in \<open>simp add: receive_frame_def c1(1) c2(1) c3(1) c4(1) split: prod.split\<close>)
qed

lemma receive_built:
  assumes "lossless z" "netID nr = netID ns" "build_frame marshal z ns m = Inr f"
    and "marshal m = Inr b" "unmarshal b = Inr m" "header_ok nr m" "length f < 2 ^ 32 + 10"
    and "concat conn = f @ r"
  obtains conn' where "receive_frame rd unmarshal z nr conn = Inr (m, conn')" "concat conn' = r"
proof -
  let ?c = "compressEnable ns \<and> ConditionSize ns \<le> int (length b)"
  obtain body info where f: "b \<noteq> []" "(if ?c then Compress z ns b else Inr b) = Inr body"
    "GenCompressInfo ns (int (length b)) = Inr info" "f = frame (netID ns) info body"
    using assms(3,4) by (auto simp: build_frame_def rbind_Inr_iff split: if_splits)
  have body: "body \<noteq> []" using f(1,2) Compress_nonempty [OF assms(1)] by (auto split: if_splits)
  have len: "length body < 2 ^ 32" using assms(7) f(4) by (simp add: frame_def)
  have conn: "concat conn = frame (netID nr) info body @ r" using assms(2,8) f(4) by simp
  obtain conn' where conn': "concat conn' = r" "receive_frame rd unmarshal z nr conn =
       rbind (if snd (GetCompressInfo info) then Uncompress z body (fst (GetCompressInfo info)) else Inr body) (\<lambda>b.
         rbind (unmarshal b) (\<lambda>msg.
           if \<not> header_ok nr msg then Inl (Err ''received an invalid message from a peer'') else Inr (msg, conn')))"
    by (rule receive_body [OF conn body len])
  have "(if snd (GetCompressInfo info) then Uncompress z body (fst (GetCompressInfo info)) else Inr body) = Inr b"
    using f(2) Uncompress_Compress [OF assms(1)] GetCompressInfo_Gen [OF f(3)] by (auto split: if_splits)
  then show thesis using that conn' assms(5,6) by simp
qed

end

interpretation tcp: exact_reader "\<lambda>k. read_loop k []"
proof unfold_locales
  fix conn :: "bytes list" and b r
  assume "concat conn = b @ r"
  then show "\<exists>conn'. read_loop (length b) [] conn = Inr (b, conn') \<and> concat conn' = r"
    by (rule read_exact) blast
qed

interpretation quic: exact_reader io_ReadFull
proof unfold_locales
  fix conn :: "bytes list" and b r
  assume "concat conn = b @ r"
  then show "\<exists>conn'. io_ReadFull (length b) conn = Inr (b, conn') \<and> concat conn' = r"
    by (rule read_exact) (auto simp: io_ReadFull_def)
qed

text \<open>A sender that sends messages until one fails, and a receiver that receives a number of them.\<close>

fun send_all ::
  "(bufio_Writer \<Rightarrow> Message \<Rightarrow> go_error option \<times> bufio_Writer) \<Rightarrow> bufio_Writer \<Rightarrow> Message list \<Rightarrow>
    go_error option \<times> bufio_Writer" where
  "send_all snd_msg w [] = (None, w)"
| "send_all snd_msg w (m # ms) =
     (case snd_msg w m of (None, w1) \<Rightarrow> send_all snd_msg w1 ms | (Some e, w1) \<Rightarrow> (Some e, w1))"

fun receive_all ::
  "(bytes list \<Rightarrow> (Message \<times> bytes list) result) \<Rightarrow> nat \<Rightarrow> bytes list \<Rightarrow> (Message list \<times> bytes list) result" where
  "receive_all recv 0 conn = Inr ([], conn)"
| "receive_all recv (Suc k) conn =
     rbind (recv conn) (\<lambda>(m, conn). rbind (receive_all recv k conn) (\<lambda>(ms, conn). Inr (m # ms, conn)))"

text \<open>
  What is assumed of a message for its delivery: the protobuf codec inverts itself on it, it has
  the headers receivers insist on, and its frame body is shorter than 4 GiB.
\<close>

definition deliverable :: "marshaller \<Rightarrow> unmarshaller \<Rightarrow> codecs \<Rightarrow> net_config \<Rightarrow> Message \<Rightarrow> bool" where
  "deliverable marshal unmarshal z n m \<longleftrightarrow>
     (case marshal m of Inl _ \<Rightarrow> False | Inr b \<Rightarrow> b \<noteq> [] \<and> unmarshal b = Inr m) \<and> header_ok n m \<and>
     (case build_frame marshal z n m of Inl _ \<Rightarrow> True | Inr f \<Rightarrow> length f < 2 ^ 32 + 10)"

lemma header_ok_netID: "netID n = netID n' \<Longrightarrow> header_ok n m = header_ok n' m"
  by (simp add: header_ok_def split: option.split)

lemma sendMessage_ok:
  assumes "sendMessage marshal z n w m = (None, w')"
  obtains f where "build_frame marshal z n m = Inr f" "sent (wr w') = accepted w @ f" "buffered w' = []"
proof (cases "build_frame marshal z n m")
  case (Inr f)
  obtain k err w1 where "write_frame w f = (k, err, w1)" by (metis prod_cases3)
  then show thesis
    using that [OF Inr] assms Inr write_frame_ok by (fastforce simp: sendMessage_def)
qed (use assms in \<open>simp add: sendMessage_def\<close>)

lemma sendQuicMessage_eq:
  assumes "deliverable marshal unmarshal z n m"
  shows "sendQuicMessage marshal z n w m = sendMessage marshal z n w m"
  using assms
  by (auto simp: sendQuicMessage_def sendMessage_def deliverable_def split: sum.splits list.split prod.split)

lemma send_all_sent:
  assumes "send_all (sendMessage marshal z n) w ms = (None, w')" "buffered w = []"
  obtains fs where "sent (wr w') = sent (wr w) @ concat fs" "buffered w' = []"
    "list_all2 (\<lambda>m f. build_frame marshal z n m = Inr f) ms fs"
  using assms
proof (induction ms arbitrary: w thesis)
  case (Cons m ms)
  obtain w1 where w1: "sendMessage marshal z n w m = (None, w1)"
    "send_all (sendMessage marshal z n) w1 ms = (None, w')"
    using Cons.prems(2) by (auto split: prod.splits option.splits)
  obtain f where f: "build_frame marshal z n m = Inr f" "sent (wr w1) = accepted w @ f" "buffered w1 = []"
    by (rule sendMessage_ok [OF w1(1)])
  obtain fs where "sent (wr w') = sent (wr w1) @ concat fs" "buffered w' = []"
    "list_all2 (\<lambda>m f. build_frame marshal z n m = Inr f) ms fs"
    by (rule Cons.IH [OF _ w1(2) f(3)])
  then show ?case using Cons.prems(1) [of "f # fs"] f Cons.prems(3) by (simp add: accepted_def)
qed auto

context exact_reader
begin

lemma receive_all_frames:
  assumes "lossless z" "netID nr = netID ns" "list_all2 (\<lambda>m f. build_frame marshal z ns m = Inr f) ms fs"
    and "\<forall>m \<in> set ms. deliverable marshal unmarshal z ns m" "concat conn = concat fs @ r"
  shows "\<exists>conn'. receive_all (receive_frame rd unmarshal z nr) (length ms) conn = Inr (ms, conn') \<and> concat conn' = r"
  using assms(3-5)
proof (induction ms fs arbitrary: conn rule: list_all2_induct)
  case (Cons m ms f fs)
  obtain b where b: "marshal m = Inr b" "unmarshal b = Inr m" "header_ok ns m" "length f < 2 ^ 32 + 10"
    using Cons.hyps(1) Cons.prems(1) by (auto simp: deliverable_def split: sum.splits)
  have h: "header_ok nr m" using b(3) header_ok_netID [OF assms(2)] by simp
  have "concat conn = f @ (concat fs @ r)" using Cons.prems(2) by simp
  then obtain c1 where c1: "receive_frame rd unmarshal z nr conn = Inr (m, c1)" "concat c1 = concat fs @ r"
    by (rule receive_built [where marshal = marshal and unmarshal = unmarshal and m = m and b = b,
          OF assms(1,2) Cons.hyps(1) b(1,2) h b(4)])
  with Cons.IH [of c1] Cons.prems(1) show ?case by auto
qed auto

end

text \<open>
  C7. Stream delivery: if a sender's messages were all sent without an error on a connection (over
  TCP/KCP, or over QUIC), a receiver of the same network that reads the sent bytes in any
  segmentation receives exactly these messages, in order, and nothing is left over. The nodes may
  differ in their compression settings.
\<close>

theorem stream_in_order:
  assumes "lossless z" "netID nr = netID ns" "\<forall>m \<in> set ms. deliverable marshal unmarshal z ns m"
    and "send_all (sendMessage marshal z ns) w ms = (None, w') \<or> send_all (sendQuicMessage marshal z ns) w ms = (None, w')"
    and "buffered w = []" "sent (wr w') = sent (wr w) @ concat segments"
  shows "(\<exists>rest. receive_all (receiveMessage unmarshal z nr) (length ms) segments = Inr (ms, rest) \<and> concat rest = []) \<and>
    (\<exists>rest. receive_all (receiveQuicMessage unmarshal z nr) (length ms) segments = Inr (ms, rest) \<and> concat rest = [])"
proof -
  have "send_all (sendQuicMessage marshal z ns) w ms = send_all (sendMessage marshal z ns) w ms"
    using assms(3) by (induction ms arbitrary: w) (auto simp: sendQuicMessage_eq split: prod.split option.split)
  then have "send_all (sendMessage marshal z ns) w ms = (None, w')" using assms(4) by simp
  then obtain fs where fs: "sent (wr w') = sent (wr w) @ concat fs"
    "list_all2 (\<lambda>m f. build_frame marshal z ns m = Inr f) ms fs"
    using send_all_sent [OF _ assms(5)] by metis
  have all: "concat segments = concat fs @ []" using fs(1) assms(6) by simp
  show ?thesis
    unfolding receiveMessage_def receiveQuicMessage_def
    using tcp.receive_all_frames [OF assms(1,2) fs(2) assms(3) all]
      quic.receive_all_frames [OF assms(1,2) fs(2) assms(3) all] by blast
qed

text \<open>
  A write that fails in the middle of a frame, at whatever byte, leaves on the wire a prefix of
  what was buffered and the frame; on a connection that does not fail, sending returns no error
  exactly when the frame could be built, and then all of it is on the wire.
\<close>

theorem sendMessage_prefix:
  "(case sendMessage marshal z n w m of
      (err, w') \<Rightarrow> prefix (sent (wr w')) (accepted w @ (case build_frame marshal z n m of Inl _ \<Rightarrow> [] | Inr f \<Rightarrow> f)) \<and>
        (budget (wr w) = None \<and> berr w = None \<longrightarrow> (err = None \<longleftrightarrow> is_ok (build_frame marshal z n m))) \<and>
        (err = None \<longrightarrow> sent (wr w') = accepted w @ (case build_frame marshal z n m of Inl _ \<Rightarrow> [] | Inr f \<Rightarrow> f)))"
proof (cases "build_frame marshal z n m")
  case (Inl e)
  then show ?thesis by (simp add: sendMessage_def accepted_def)
next
  case (Inr f)
  obtain k err w1 where w: "write_frame w f = (k, err, w1)" by (metis prod_cases3)
  then show ?thesis using write_frame_ok [OF w] Inr by (simp add: sendMessage_def)
qed

lemma receive_frame_header:
  assumes "receive_frame rd unmarshal z n conn = Inr (msg, conn')"
  shows "header_ok n msg"
  using assms
  by (auto simp: receive_frame_def GetCompressInfo_def rbind_Inr_iff split: option.splits if_splits)

lemma receiveUDP_eq:
  fixes sz :: uint16
  assumes "datagram = a # b # r" "length datagram \<le> MAX_PACKAGE_SIZE"
    and "sz = ucast b OR push_bit 8 (ucast a)"
  shows "receiveUDPMessage unmarshal n (Some datagram) =
    (if 2 + sz < 2 then Inl (Panic ''slice bounds out of range'')
     else rbind (unmarshal (take (unat (2 + sz) - 2) (r @ replicate (MAX_PACKAGE_SIZE - length datagram) 0))) (\<lambda>msg.
       if Opcode_of msg = ProxyResponseCode \<or> Opcode_of msg = KeepaliveResponseCode then Inr (Some msg)
       else if \<not> header_ok n msg then Inl (Err ''received an invalid message from a peer'')
       else Inr (Some msg)))"
proof -
  have "copy_at (replicate MAX_PACKAGE_SIZE 0) 0 datagram = datagram @ replicate (MAX_PACKAGE_SIZE - length datagram) 0"
    using copy_at_zeros [of "[]" 0 datagram MAX_PACKAGE_SIZE] assms(2) by simp
  then show ?thesis by (simp add: receiveUDPMessage_def assms(1,3) Let_def del: take_append)
qed

lemma BE_PutUint16_two: "\<exists>a b. BE_PutUint16 v = [a, b] \<and> ucast b OR push_bit 8 (ucast a) = v"
  by (auto simp: BE_PutUint16_def glue16)

lemma receiveUDP_package:
  assumes "length b \<le> MAX_PACKAGE_SIZE - 2"
  shows "receiveUDPMessage unmarshal n (Some (BE_PutUint16 (of_nat (length b)) @ b)) =
    (if 65534 \<le> length b then Inl (Panic ''slice bounds out of range'')
     else rbind (unmarshal b) (\<lambda>msg.
       if Opcode_of msg = ProxyResponseCode \<or> Opcode_of msg = KeepaliveResponseCode then Inr (Some msg)
       else if \<not> header_ok n msg then Inl (Err ''received an invalid message from a peer'')
       else Inr (Some msg)))"
proof -
  let ?sz = "of_nat (length b) :: uint16"
  obtain x y where xy: "BE_PutUint16 ?sz = [x, y]" "?sz = ucast y OR push_bit 8 (ucast x)"
    using BE_PutUint16_two [of ?sz] by metis
  have len: "unat ?sz = length b" using assms by (simp add: unat_of_nat MAX_PACKAGE_SIZE_def)
  have hi: "unat (2 + ?sz) = (if 65534 \<le> length b then length b - 65534 else length b + 2)"
    using assms len by (simp add: unat_word_ariths MAX_PACKAGE_SIZE_def)
  have wrap: "2 + ?sz < 2 \<longleftrightarrow> 65534 \<le> length b"
    unfolding word_less_nat_alt hi using assms by (auto simp: MAX_PACKAGE_SIZE_def)
  have "length (x # y # b) \<le> MAX_PACKAGE_SIZE" using assms by (simp add: MAX_PACKAGE_SIZE_def)
  from receiveUDP_eq [OF refl this xy(2), of unmarshal n] show ?thesis
    unfolding wrap hi xy(1) by simp
qed


text \<open>
  C36. UDP delivery: a message whose encoding is shorter than 65534 bytes is packed into a datagram
  that the receiver decodes to it. An encoding of 65534 bytes passes the size check of
  \<open>BuildRawContent\<close>, but the receiver then computes the slice bound 2 + 65534 modulo 2^16 and panics;
  a longer one is refused.
\<close>

theorem udp_round_trip:
  assumes "marshal m = Inr b" "unmarshal b = Inr m" "header_ok n m"
  shows "(if 65534 < length b then sendUDPMessage marshal m = None
     else \<exists>d. sendUDPMessage marshal m = Some d \<and>
       (if length b < 65534 then receiveUDPMessage unmarshal n (Some d) = Inr (Some m)
        else panics (receiveUDPMessage unmarshal n (Some d))))"
proof -
  have "copy_at (replicate 2 0) 0 (BE_PutUint16 v) = BE_PutUint16 v" for v
    by (simp add: copy_at_def)
  then have "sendUDPMessage marshal m =
      (if 65534 < length b then None else Some (BE_PutUint16 (of_nat (length b)) @ b))"
    using assms(1)
    by (simp add: sendUDPMessage_def BuildRawContent_def Let_def MAX_PACKAGE_SIZE_def STORE_PACKAGE_REAL_SIZE_def)
  moreover have "length b \<le> MAX_PACKAGE_SIZE - 2" if "length b \<le> 65534"
    using that by (simp add: MAX_PACKAGE_SIZE_def)
  ultimately show ?thesis using assms(2,3) receiveUDP_package [of b unmarshal n] by auto
qed

text \<open>
  C37. A peer can crash a TCP or QUIC receiver with one frame: if the frame announces gzip (or zlib)
  compression and its body is not accepted by the decompressor, the ignored error becomes a nil
  dereference. The same body without the compression flag, or with the error checked, would be
  an error value.
\<close>

theorem receive_malformed_compressed:
  assumes "concat conn = frame (netID n) (0x0100 OR algo) body @ r" "body \<noteq> []" "length body < 2 ^ 32"
    and "algo = GZIP \<and> gzip_r z body = None \<or> algo = ZLIB \<and> zlib_r z body = None"
  shows "panics (receiveMessage unmarshal z n conn) \<and> panics (receiveQuicMessage unmarshal z n conn)"
proof -
  have info: "GetCompressInfo (0x0100 OR algo) = (algo, True)"
    using assms(4) by (auto simp: GetCompressInfo_def algo_defs)
  have un: "Uncompress z body algo = Inl nil_reader"
    using assms(4) by (auto simp: Uncompress_def doGzipUncompress_def doZlibUnCompress_def algo_defs)
  have "receive_frame (\<lambda>k. read_loop k []) unmarshal z n conn = Inl nil_reader"
    by (rule tcp.receive_body [OF assms(1-3), of unmarshal z]) (simp add: info un)
  moreover have "receive_frame io_ReadFull unmarshal z n conn = Inl nil_reader"
    by (rule quic.receive_body [OF assms(1-3), of unmarshal z]) (simp add: info un)
  ultimately show ?thesis by (simp add: receiveMessage_def receiveQuicMessage_def nil_reader_def)
qed

section \<open>Concrete messages\<close>

text \<open>
  Concrete parameters for the witnesses: formats that add a header to the plain bytes, and a
  protobuf codec for messages that differ only in their body.
\<close>

definition sample_codecs :: codecs where
  "sample_codecs =
     \<lparr>gzip_w = (\<lambda>b. [0x1f, 0x8b] @ b), gzip_r = (\<lambda>b. if take 2 b = [0x1f, 0x8b] then Some (drop 2 b) else None),
      zlib_w = (\<lambda>b. 0x78 # b), zlib_r = (\<lambda>b. if take 1 b = [0x78] then Some (drop 1 b) else None),
      lzw_w = (\<lambda>b. 0x80 # b), lzw_r = (\<lambda>b. drop 1 b)\<rparr>"

lemma sample_codecs_lossless: "lossless sample_codecs"
  by (simp add: lossless_def sample_codecs_def)

definition sample_sender :: ID where
  "sample_sender = \<lparr>NetKey = Some [1], Address = ''tcp://a:1'', Id_hash = [7], ConnectionId = None, Address2 = []\<rparr>"

definition sample_msg :: "bytes \<Rightarrow> Message" where
  "sample_msg b = \<lparr>Message_body = b, Sender = Some sample_sender, Signature = None, RequestNonce = 0, MessageNonce = 1,
     ReplyFlag = False, Opcode_of = BytesCode, NetID = 9, MessageID = [], NeedAck = False\<rparr>"

definition sample_marshal :: marshaller where
  "sample_marshal m = Inr (Message_body m)"

definition sample_unmarshal :: unmarshaller where
  "sample_unmarshal b = Inr (sample_msg b)"

definition sample_config :: net_config where
  "sample_config = \<lparr>netID = 9, compressEnable = True, compressAlgo = GZIP, ConditionSize = 2\<rparr>"

definition sample_writer :: bufio_Writer where
  "sample_writer = \<lparr>buffered = [], bsize = 16, berr = None, wr = \<lparr>sent = [], budget = None\<rparr>\<rparr>"

theorem stream_in_order_witness:
  "\<exists>rest. receive_all (receiveMessage sample_unmarshal sample_codecs sample_config) 2
     [[0, 0, 0], [], [9, 1, 2, 0, 0, 0, 5, 0x1f, 0x8b, 1, 2, 3, 0], [0, 0, 9, 0, 2, 0, 0, 0, 1, 4]] =
     Inr ([sample_msg [1, 2, 3], sample_msg [4]], rest)"
proof -
  let ?ms = "[sample_msg [1, 2, 3], sample_msg [4]]"
  let ?w = "snd (send_all (sendMessage sample_marshal sample_codecs sample_config) sample_writer ?ms)"
  let ?seg = "[[0, 0, 0], [], [9, 1, 2, 0, 0, 0, 5, 0x1f, 0x8b, 1, 2, 3, 0], [0, 0, 9, 0, 2, 0, 0, 0, 1, 4]] :: bytes list"
  have "\<forall>m \<in> set ?ms. deliverable sample_marshal sample_unmarshal sample_codecs sample_config m"
    by (simp add: deliverable_def sample_marshal_def sample_unmarshal_def header_ok_def sample_msg_def
        sample_sender_def sample_config_def opcode_defs algo_defs build_frame_def Compress_def
        doGzipCompress_def sample_codecs_def GenCompressInfo_def frame_def)
  moreover have "send_all (sendMessage sample_marshal sample_codecs sample_config) sample_writer ?ms = (None, ?w)"
    by code_simp
  moreover have "buffered sample_writer = []" "sent (wr ?w) = sent (wr sample_writer) @ concat ?seg"
    by code_simp+
  ultimately show ?thesis
    using stream_in_order [OF sample_codecs_lossless refl, of ?ms sample_marshal sample_unmarshal sample_config
        sample_writer ?w ?seg]
    by (auto simp: numeral_2_eq_2 simp del: receive_all.simps send_all.simps concat.simps)
qed


theorem udp_round_trip_witness:
  "\<exists>d. sendUDPMessage sample_marshal (sample_msg [1, 2]) = Some d \<and>
     receiveUDPMessage sample_unmarshal sample_config (Some d) = Inr (Some (sample_msg [1, 2]))"
  using udp_round_trip [of sample_marshal "sample_msg [1, 2]" "[1, 2]" sample_unmarshal sample_config]
  by (simp add: sample_marshal_def sample_unmarshal_def sample_msg_def header_ok_def sample_sender_def
      sample_config_def opcode_defs)

theorem receive_malformed_compressed_witness:
  "panics (receiveMessage sample_unmarshal sample_codecs sample_config [frame 9 (0x0100 OR GZIP) [0]])"
  using receive_malformed_compressed [of "[frame 9 (0x0100 OR GZIP) [0]]" sample_config GZIP "[0]" "[]" sample_codecs
      sample_unmarshal]
  by (simp add: sample_config_def sample_codecs_def)

end
