(* ===== verification/Go_Net.thy ===== *)
theory Go_Net
  imports Carrier_Prelude "HOL-Library.Code_Target_Nat"
begin

text \<open>
  The string functions of the Go standard library (release 1.16, as in the module file) that the
  address code is written against: \<^verbatim>\<open>url.Parse\<close> (scheme and host only), \<^verbatim>\<open>net.SplitHostPort\<close>,
  \<^verbatim>\<open>net.JoinHostPort\<close>, \<^verbatim>\<open>net.ParseIP\<close>, \<^verbatim>\<open>strconv.ParseUint\<close>, \<^verbatim>\<open>strconv.Itoa\<close> and \<^verbatim>\<open>strings.TrimSpace\<close>.
  A string is a list of bytes; white space is ASCII white
  space. The lemmas are the round trips the address component needs.
\<close>

section \<open>Characters and decimal numbers\<close>

definition ord :: "char \<Rightarrow> nat" where
  "ord c = of_char c"

definition is_digit :: "char \<Rightarrow> bool" where
  "is_digit c \<longleftrightarrow> 48 \<le> ord c \<and> ord c \<le> 57"

definition is_alpha :: "char \<Rightarrow> bool" where
  "is_alpha c \<longleftrightarrow> 97 \<le> ord c \<and> ord c \<le> 122 \<or> 65 \<le> ord c \<and> ord c \<le> 90"

definition to_lower :: "char \<Rightarrow> char" where
  "to_lower c = (if 65 \<le> ord c \<and> ord c \<le> 90 then char_of (ord c + 32) else c)"

definition is_space :: "char \<Rightarrow> bool" where
  "is_space c \<longleftrightarrow> ord c \<in> {9, 10, 11, 12, 13, 32}"

definition TrimSpace :: "string \<Rightarrow> string" where
  "TrimSpace s = rev (dropWhile is_space (rev (dropWhile is_space s)))"

definition digit :: "nat \<Rightarrow> char" where
  "digit d = char_of (48 + d)"

fun Itoa :: "nat \<Rightarrow> string" where
  "Itoa n = (if n < 10 then [digit n] else Itoa (n div 10) @ [digit (n mod 10)])"

declare Itoa.simps [simp del]

text \<open>\<^verbatim>\<open>ParseUint(s, 10, 16)\<close>; the value is checked after every digit, so it cannot overflow.\<close>

fun parse_digits :: "nat \<Rightarrow> nat \<Rightarrow> string \<Rightarrow> nat option" where
  "parse_digits maxv n [] = Some n"
| "parse_digits maxv n (c # cs) =
     (if \<not> is_digit c then None
      else let n1 = n * 10 + (ord c - 48) in if maxv < n1 then None else parse_digits maxv n1 cs)"

definition ParseUint16 :: "string \<Rightarrow> uint16 result" where
  "ParseUint16 s =
     (if s = [] then Inl (Err ''strconv.ParseUint: invalid syntax'')
      else case parse_digits 65535 0 s of
             None \<Rightarrow> Inl (Err ''strconv.ParseUint'')
           | Some n \<Rightarrow> Inr (of_nat n))"

section \<open>Host and port\<close>

definition JoinHostPort :: "string \<Rightarrow> string \<Rightarrow> string" where
  "JoinHostPort host port =
     (if CHR '':'' \<in> set host then ''['' @ host @ '']:'' @ port else host @ '':'' @ port)"

text \<open>The parts before and after the last (first) occurrence of a character.\<close>

definition split_last :: "char \<Rightarrow> string \<Rightarrow> (string \<times> string) option" where
  "split_last c s =
     (if c \<in> set s
      then Some (rev (tl (dropWhile (\<lambda>x. x \<noteq> c) (rev s))), rev (takeWhile (\<lambda>x. x \<noteq> c) (rev s)))
      else None)"

definition SplitHostPort :: "string \<Rightarrow> (string \<times> string) result" where
  "SplitHostPort hostport =
     (case split_last (CHR '':'') hostport of
        None \<Rightarrow> Inl (Err ''missing port in address'')
      | Some (pre, port) \<Rightarrow>
          if hd hostport = CHR ''[''
          then if CHR '']'' \<notin> set hostport then Inl (Err ''missing ']' in address'')
               else let host = takeWhile (\<lambda>x. x \<noteq> CHR '']'') (tl hostport);
                        rest = tl (dropWhile (\<lambda>x. x \<noteq> CHR '']'') hostport)
                    in if rest = [] then Inl (Err ''missing port in address'')
                       else if length (host @ ''[]'') \<noteq> length pre
                            then Inl (Err (if hd rest = CHR '':'' then ''too many colons in address''
                                           else ''missing port in address''))
                       else if CHR ''['' \<in> set (tl hostport) then Inl (Err ''unexpected '[' in address'')
                       else if CHR '']'' \<in> set rest then Inl (Err ''unexpected ']' in address'')
                       else Inr (host, port)
          else if CHR '':'' \<in> set pre then Inl (Err ''too many colons in address'')
          else if CHR ''['' \<in> set hostport then Inl (Err ''unexpected '[' in address'')
          else if CHR '']'' \<in> set hostport then Inl (Err ''unexpected ']' in address'')
          else Inr (pre, port))"

section \<open>IP addresses\<close>

text \<open>\<open>dtoi\<close> and \<open>xtoi\<close> read a number in front of a string: its value and the rest, if any.\<close>

definition big :: nat where
  "big = 0xFFFFFF"

fun number :: "(char \<Rightarrow> nat option) \<Rightarrow> nat \<Rightarrow> nat \<Rightarrow> string \<Rightarrow> (nat \<times> string) option" where
  "number val base n [] = Some (n, [])"
| "number val base n (c # cs) =
     (case val c of
        None \<Rightarrow> Some (n, c # cs)
      | Some d \<Rightarrow> if big \<le> n * base + d then None else number val base (n * base + d) cs)"

definition dec_val :: "char \<Rightarrow> nat option" where
  "dec_val c = (if is_digit c then Some (ord c - 48) else None)"

definition hex_val :: "char \<Rightarrow> nat option" where
  "hex_val c =
     (if is_digit c then Some (ord c - 48)
      else if 97 \<le> ord c \<and> ord c \<le> 102 then Some (ord c - 87)
      else if 65 \<le> ord c \<and> ord c \<le> 70 then Some (ord c - 55)
      else None)"

definition dtoi :: "string \<Rightarrow> (nat \<times> string) option" where
  "dtoi s = (case s of [] \<Rightarrow> None | c # _ \<Rightarrow> if dec_val c = None then None else number dec_val 10 0 s)"

definition xtoi :: "string \<Rightarrow> (nat \<times> string) option" where
  "xtoi s = (case s of [] \<Rightarrow> None | c # _ \<Rightarrow> if hex_val c = None then None else number hex_val 16 0 s)"

fun ipv4_octets :: "nat \<Rightarrow> string \<Rightarrow> bytes option" where
  "ipv4_octets 0 s = (if s = [] then Some [] else None)"
| "ipv4_octets (Suc i) s =
     (case dtoi s of
        None \<Rightarrow> None
      | Some (n, r) \<Rightarrow>
          if 0xFF < n then None
          else if i = 0 then map_option (\<lambda>bs. of_nat n # bs) (ipv4_octets 0 r)
          else case r of
                 c # r1 \<Rightarrow> if c \<noteq> CHR ''.'' then None else map_option (\<lambda>bs. of_nat n # bs) (ipv4_octets i r1)
               | [] \<Rightarrow> None)"

definition v4InV6Prefix :: bytes where
  "v4InV6Prefix = [0, 0, 0, 0, 0, 0, 0, 0, 0, 0, 0xff, 0xff]"

definition parseIPv4 :: "string \<Rightarrow> bytes option" where
  "parseIPv4 s = map_option (\<lambda>bs. v4InV6Prefix @ bs) (ipv4_octets 4 s)"

text \<open>
  The loop of \<open>parseIPv6\<close>: \<open>left\<close> 16-bit groups may still follow, \<open>ip\<close> are the bytes read, and
  \<open>ellipsis\<close> is the position of the double colon. The result is the state after the loop.
\<close>

fun ipv6_groups :: "nat \<Rightarrow> bytes \<Rightarrow> nat option \<Rightarrow> string \<Rightarrow> (bytes \<times> nat option \<times> string) option" where
  "ipv6_groups 0 ip ellipsis s = Some (ip, ellipsis, s)"
| "ipv6_groups (Suc left) ip ellipsis s =
     (case xtoi s of
        None \<Rightarrow> None
      | Some (n, r) \<Rightarrow>
          if 0xFFFF < n then None
          else if r \<noteq> [] \<and> hd r = CHR ''.''
          then if ellipsis = None \<and> length ip \<noteq> 12 then None
               else if 16 < length ip + 4 then None
               else (case ipv4_octets 4 s of
                       None \<Rightarrow> None
                     | Some ip4 \<Rightarrow> Some (ip @ ip4, ellipsis, []))
          else let ip1 = ip @ [of_nat (n div 256), of_nat (n mod 256)]
               in case r of
                    [] \<Rightarrow> Some (ip1, ellipsis, [])
                  | [c] \<Rightarrow> None
                  | c # d # r1 \<Rightarrow>
                      if c \<noteq> CHR '':'' then None
                      else if d = CHR '':''
                      then if ellipsis \<noteq> None then None
                           else if r1 = [] then Some (ip1, Some (length ip1), [])
                           else ipv6_groups left ip1 (Some (length ip1)) r1
                      else ipv6_groups left ip1 ellipsis (d # r1))"

definition ipv6_expand :: "(bytes \<times> nat option \<times> string) option \<Rightarrow> bytes option" where
  "ipv6_expand st =
     (case st of
        None \<Rightarrow> None
      | Some (ip, ellipsis, s) \<Rightarrow>
          if s \<noteq> [] then None
          else if length ip < 16
          then (case ellipsis of
                  None \<Rightarrow> None
                | Some e \<Rightarrow> Some (take e ip @ replicate (16 - length ip) 0 @ drop e ip))
          else if ellipsis \<noteq> None then None else Some ip)"

definition parseIPv6 :: "string \<Rightarrow> bytes option" where
  "parseIPv6 s =
     (if take 2 s = ''::''
      then if length s = 2 then Some (replicate 16 0) else ipv6_expand (ipv6_groups 8 [] (Some 0) (drop 2 s))
      else ipv6_expand (ipv6_groups 8 [] None s))"

definition ParseIP :: "string \<Rightarrow> bytes option" where
  "ParseIP s =
     (case List.find (\<lambda>c. c = CHR ''.'' \<or> c = CHR '':'') s of
        None \<Rightarrow> None
      | Some c \<Rightarrow> if c = CHR ''.'' then parseIPv4 s else parseIPv6 s)"

section \<open>URLs\<close>

datatype enc_mode = encodeHost | encodeZone | encodeOther

definition shouldEscape :: "char \<Rightarrow> bool" where
  "shouldEscape c \<longleftrightarrow> \<not> (is_alpha c \<or> is_digit c \<or> c \<in> set ''!$&()*+,;=:[]<>-_.~'' \<or> ord c = 39 \<or> ord c = 34)"

definition unhex :: "char \<Rightarrow> nat" where
  "unhex c = (case hex_val c of None \<Rightarrow> 0 | Some d \<Rightarrow> d)"

fun unescape :: "enc_mode \<Rightarrow> string \<Rightarrow> string option" where
  "unescape m [] = Some []"
| "unescape m (c # cs) =
     (if c = CHR ''%''
      then case cs of
             a # b # r \<Rightarrow>
               if hex_val a = None \<or> hex_val b = None then None
               else if m = encodeHost \<and> unhex a < 8 \<and> \<not> (a = CHR ''2'' \<and> b = CHR ''5'') then None
               else let v = char_of (16 * unhex a + unhex b)
                    in if m = encodeZone \<and> \<not> (a = CHR ''2'' \<and> b = CHR ''5'') \<and> v \<noteq> CHR '' '' \<and> shouldEscape v
                       then None else map_option (\<lambda>r. v # r) (unescape m r)
           | _ \<Rightarrow> None
      else if m \<noteq> encodeOther \<and> ord c < 128 \<and> shouldEscape c then None
      else map_option (\<lambda>r. c # r) (unescape m cs))"

definition validOptionalPort :: "string \<Rightarrow> bool" where
  "validOptionalPort p = (case p of [] \<Rightarrow> True | c # ds \<Rightarrow> c = CHR '':'' \<and> list_all is_digit ds)"

fun split_zone :: "string \<Rightarrow> (string \<times> string) option" where
  "split_zone [] = None"
| "split_zone (c # cs) =
     (if take 3 (c # cs) = ''%25'' then Some ([], c # cs)
      else map_option (\<lambda>(a, b). (c # a, b)) (split_zone cs))"

definition parseHost :: "string \<Rightarrow> string option" where
  "parseHost host =
     (if host \<noteq> [] \<and> hd host = CHR ''[''
      then case split_last (CHR '']'') host of
             None \<Rightarrow> None
           | Some (inner, colonPort) \<Rightarrow>
               if \<not> validOptionalPort colonPort then None
               else (case split_zone inner of
                       Some (a, zone) \<Rightarrow>
                         (case (unescape encodeHost a, unescape encodeZone zone, unescape encodeHost ('']'' @ colonPort)) of
                            (Some h1, Some h2, Some h3) \<Rightarrow> Some (h1 @ h2 @ h3)
                          | _ \<Rightarrow> None)
                     | None \<Rightarrow> unescape encodeHost host)
      else if (case split_last (CHR '':'') host of None \<Rightarrow> False | Some (_, p) \<Rightarrow> \<not> validOptionalPort ('':'' @ p)) then None
      else unescape encodeHost host)"

definition validUserinfo :: "string \<Rightarrow> bool" where
  "validUserinfo s = list_all (\<lambda>c. is_alpha c \<or> is_digit c \<or> c \<in> set ''-._:~!$&()*+,;=%@'' \<or> ord c = 39) s"

definition parseAuthority :: "string \<Rightarrow> string option" where
  "parseAuthority authority =
     (case split_last (CHR ''@'') authority of
        None \<Rightarrow> parseHost authority
      | Some (userinfo, host) \<Rightarrow>
          (case parseHost host of
             None \<Rightarrow> None
           | Some h \<Rightarrow>
               if \<not> validUserinfo userinfo then None
               else if unescape encodeOther (takeWhile (\<lambda>c. c \<noteq> CHR '':'') userinfo) = None \<or>
                       unescape encodeOther (tl (dropWhile (\<lambda>c. c \<noteq> CHR '':'') userinfo)) = None then None
               else Some h))"

text \<open>\<open>getScheme\<close> is \<open>None\<close> for the error of a string that starts with a colon.\<close>

fun scheme_tail :: "string \<Rightarrow> (string \<times> string) option" where
  "scheme_tail [] = None"
| "scheme_tail (c # cs) =
     (if is_alpha c \<or> is_digit c \<or> c \<in> set ''+-.'' then map_option (\<lambda>(a, b). (c # a, b)) (scheme_tail cs)
      else if c = CHR '':'' then Some ([], cs)
      else None)"

definition getScheme :: "string \<Rightarrow> (string \<times> string) option" where
  "getScheme s =
     (case s of
        [] \<Rightarrow> Some ([], s)
      | c # _ \<Rightarrow>
          if c = CHR '':'' then None
          else if \<not> is_alpha c then Some ([], s)
          else case scheme_tail s of None \<Rightarrow> Some ([], s) | Some r \<Rightarrow> Some r)"

text \<open>\<open>url_Parse\<close> gives the fields \<open>Scheme\<close> and \<open>Host\<close>; every error is \<open>None\<close>.\<close>

definition url_parse :: "string \<Rightarrow> (string \<times> string) option" where
  "url_parse rawURL =
     (if list_ex (\<lambda>c. ord c < 32 \<or> ord c = 127) rawURL then None
      else if rawURL = ''*'' then Some ([], [])
      else case getScheme rawURL of
        None \<Rightarrow> None
      | Some (scheme, r0) \<Rightarrow>
          let scheme = map to_lower scheme;
              rest = takeWhile (\<lambda>c. c \<noteq> CHR ''?'') r0
          in if take 1 rest \<noteq> ''/'' \<and> scheme \<noteq> [] then Some (scheme, [])
             else if take 1 rest \<noteq> ''/'' \<and> CHR '':'' \<in> set (takeWhile (\<lambda>c. c \<noteq> CHR ''/'') rest) then None
             else if take 2 rest = ''//'' \<and> (scheme \<noteq> [] \<or> take 3 rest \<noteq> ''///'')
             then (let authority = takeWhile (\<lambda>c. c \<noteq> CHR ''/'') (drop 2 rest);
                       path = dropWhile (\<lambda>c. c \<noteq> CHR ''/'') (drop 2 rest)
                   in case parseAuthority authority of
                        None \<Rightarrow> None
                      | Some host \<Rightarrow> if unescape encodeOther path = None then None else Some (scheme, host))
             else if unescape encodeOther rest = None then None else Some (scheme, []))"

definition url_Parse :: "string \<Rightarrow> (string \<times> string) option" where
  "url_Parse rawURL =
     (let u = takeWhile (\<lambda>c. c \<noteq> CHR ''#'') rawURL; frag = tl (dropWhile (\<lambda>c. c \<noteq> CHR ''#'') rawURL)
      in case url_parse u of
           None \<Rightarrow> None
         | Some r \<Rightarrow> if unescape encodeOther frag = None then None else Some r)"

section \<open>Round trips\<close>

lemma ord_less_256 [simp]: "ord c < 256"
  by (simp add: ord_def nat_of_char_less_256)

lemma ord_digit: "d < 10 \<Longrightarrow> ord (digit d) = 48 + d"
  by (simp add: ord_def digit_def of_char_of)

lemma is_digit_digit [simp]: "d < 10 \<Longrightarrow> is_digit (digit d)"
  by (simp add: is_digit_def ord_digit)

lemma parse_digits_append:
  "parse_digits maxv n (xs @ ys) = Option.bind (parse_digits maxv n xs) (\<lambda>m. parse_digits maxv m ys)"
  by (induction xs arbitrary: n) (auto simp: Let_def)

lemma Itoa_digits: "list_all is_digit (Itoa n) \<and> Itoa n \<noteq> []"
proof (induction n rule: Itoa.induct)
  case (1 n)
  then show ?case by (subst (1 2) Itoa.simps) auto
qed

lemma parse_digits_Itoa: "n \<le> maxv \<Longrightarrow> parse_digits maxv 0 (Itoa n) = Some n"
proof (induction n rule: Itoa.induct)
  case (1 n)
  show ?case
  proof (cases "n < 10")
    case True
    then show ?thesis using "1.prems" by (subst Itoa.simps) (simp add: Let_def ord_digit)
  next
    case False
    then have "parse_digits maxv 0 (Itoa (n div 10)) = Some (n div 10)" using 1 by simp
    moreover have "n mod 10 < 10" "n div 10 * 10 + n mod 10 = n" by simp_all
    ultimately show ?thesis
      using False "1.prems" by (subst Itoa.simps) (simp add: parse_digits_append Let_def ord_digit)
  qed
qed

lemma ParseUint16_Itoa: "ParseUint16 (Itoa (unat p)) = Inr p"
proof -
  have "unat p \<le> 65535" using unsigned_less [of p, where 'a = nat] by simp
  then show ?thesis
    using Itoa_digits [of "unat p"] parse_digits_Itoa [of "unat p" 65535] by (simp add: ParseUint16_def)
qed

lemma split_last_append: "c \<notin> set b \<Longrightarrow> split_last c (a @ c # b) = Some (a, b)"
  by (simp add: split_last_def dropWhile_append takeWhile_append)

lemma split_last_None: "c \<notin> set s \<Longrightarrow> split_last c s = None"
  by (simp add: split_last_def)

lemma SplitHostPort_Join:
  assumes "CHR ''['' \<notin> set host" "CHR '']'' \<notin> set host" "list_all is_digit port"
  shows "SplitHostPort (JoinHostPort host port) = Inr (host, port)"
proof -
  have not_digit: "\<not> is_digit (CHR '':'')" "\<not> is_digit (CHR ''['')" "\<not> is_digit (CHR '']'')"
    by (simp_all add: is_digit_def ord_def)
  then have p: "CHR '':'' \<notin> set port" "CHR ''['' \<notin> set port" "CHR '']'' \<notin> set port"
    using assms(3) by (auto simp: list_all_iff)
  show ?thesis
  proof (cases "CHR '':'' \<in> set host")
    case True
    have "split_last (CHR '':'') (''['' @ host @ '']:'' @ port) = Some (''['' @ host @ '']'', port)"
      using split_last_append [OF p(1), of "''['' @ host @ '']''"] by simp
    moreover have "takeWhile (\<lambda>x. x \<noteq> CHR '']'') (host @ '']:'' @ port) = host"
      "dropWhile (\<lambda>x. x \<noteq> CHR '']'') (host @ '']:'' @ port) = '']:'' @ port"
      using assms(2) by (simp_all add: takeWhile_append dropWhile_append)
    ultimately show ?thesis
      using True assms(1) p by (simp add: SplitHostPort_def JoinHostPort_def Let_def)
  next
    case False
    have "hd (host @ '':'' @ port) \<noteq> CHR ''[''" using assms(1) by (cases host) auto
    then show ?thesis
      using False assms(1,2) p split_last_append [OF p(1), of host]
      by (simp add: SplitHostPort_def JoinHostPort_def)
  qed
qed

lemma unescape_id: "list_all (\<lambda>c. \<not> shouldEscape c) s \<Longrightarrow> unescape m s = Some s"
proof (induction s)
  case (Cons c s)
  have "c \<noteq> CHR ''%''" using Cons.prems by (auto simp: shouldEscape_def is_alpha_def is_digit_def ord_def)
  with Cons show ?case by auto
qed simp

text \<open>A scheme in the form \<^verbatim>\<open>url.Parse\<close> returns it.\<close>

definition scheme_ok :: "string \<Rightarrow> bool" where
  "scheme_ok s \<longleftrightarrow> s \<noteq> [] \<and> is_alpha (hd s) \<and>
     list_all (\<lambda>c. (is_alpha c \<or> is_digit c \<or> c \<in> set ''+-.'') \<and> to_lower c = c) s"

lemma scheme_tail_append:
  "list_all (\<lambda>c. is_alpha c \<or> is_digit c \<or> c \<in> set ''+-.'') p \<Longrightarrow> scheme_tail (p @ CHR '':'' # r) = Some (p, r)"
proof (induction p)
  case Nil
  have "\<not> is_alpha (CHR '':'')" "\<not> is_digit (CHR '':'')" by (simp_all add: is_alpha_def is_digit_def ord_def)
  then show ?case by simp
qed auto

lemma getScheme_append:
  assumes "scheme_ok p"
  shows "getScheme (p @ CHR '':'' # r) = Some (p, r)"
proof -
  obtain c cs where p: "p = c # cs" using assms by (cases p) (auto simp: scheme_ok_def)
  have "\<not> is_alpha (CHR '':'')" by (simp add: is_alpha_def ord_def)
  then have "c \<noteq> CHR '':''" "is_alpha c" using assms p by (auto simp: scheme_ok_def)
  moreover have "scheme_tail (p @ CHR '':'' # r) = Some (p, r)"
    using assms by (intro scheme_tail_append) (auto simp: scheme_ok_def list_all_iff)
  ultimately show ?thesis by (simp add: getScheme_def p)
qed

text \<open>No delimiter of a URL is a character that may stand unescaped in a host.\<close>

lemma plain_not_special:
  assumes "list_all (\<lambda>c. \<not> shouldEscape c) s"
  shows "CHR ''#'' \<notin> set s" "CHR ''?'' \<notin> set s" "CHR ''/'' \<notin> set s" "CHR ''@'' \<notin> set s" "CHR ''%'' \<notin> set s"
    "\<forall>c \<in> set s. \<not> ord c < 32 \<and> ord c \<noteq> 127"
  using assms by (auto simp: list_all_iff shouldEscape_def is_alpha_def is_digit_def ord_def)

lemma takeWhile_notin: "c \<notin> set s \<Longrightarrow> takeWhile (\<lambda>x. x \<noteq> c) s = s"
  by (auto simp: takeWhile_eq_all_conv)

lemma dropWhile_notin: "c \<notin> set s \<Longrightarrow> dropWhile (\<lambda>x. x \<noteq> c) s = []"
  by (auto simp: dropWhile_eq_Nil_conv)

lemma scheme_ok_chars:
  assumes "scheme_ok p"
  shows "CHR ''#'' \<notin> set p" "map to_lower p = p" "\<forall>c \<in> set p. \<not> ord c < 32 \<and> ord c \<noteq> 127"
proof -
  have *: "\<forall>c \<in> set p. (is_alpha c \<or> is_digit c \<or> c \<in> set ''+-.'') \<and> to_lower c = c"
    using assms by (simp add: scheme_ok_def list_all_iff)
  then show "map to_lower p = p" by (intro map_idI) blast
  show "CHR ''#'' \<notin> set p" using * by (auto simp: is_alpha_def is_digit_def ord_def)
  show "\<forall>c \<in> set p. \<not> ord c < 32 \<and> ord c \<noteq> 127"
    using * by (auto simp: is_alpha_def is_digit_def ord_def)
qed

lemma url_Parse_plain:
  assumes "scheme_ok p" "list_all (\<lambda>c. \<not> shouldEscape c) a"
  shows "url_Parse (p @ ''://'' @ a) = map_option (\<lambda>h. (p, h)) (parseHost a)"
proof -
  note sp = plain_not_special [OF assms(2)] and sc = scheme_ok_chars [OF assms(1)]
  let ?u = "p @ ''://'' @ a"
  have frag: "CHR ''#'' \<notin> set ?u" using sp(1) sc(1) by simp
  have ctl: "\<not> list_ex (\<lambda>c. ord c < 32 \<or> ord c = 127) ?u"
    using sp(6) sc(3) by (auto simp: list_ex_iff ord_def)
  have star: "?u \<noteq> ''*''" by (cases p) auto
  have scheme: "getScheme ?u = Some (p, ''//'' @ a)" using getScheme_append [OF assms(1), of "''//'' @ a"] by simp
  have rest: "takeWhile (\<lambda>c. c \<noteq> CHR ''?'') (''//'' @ a) = ''//'' @ a"
    using sp(2) by (intro takeWhile_notin) simp
  have auth: "takeWhile (\<lambda>c. c \<noteq> CHR ''/'') a = a" "dropWhile (\<lambda>c. c \<noteq> CHR ''/'') a = []"
    by (rule takeWhile_notin [OF sp(3)], rule dropWhile_notin [OF sp(3)])
  have host: "parseAuthority a = parseHost a" using sp(4) by (simp add: parseAuthority_def split_last_None)
  have p: "p \<noteq> []" using assms(1) by (simp add: scheme_ok_def)
  have "url_parse ?u = map_option (\<lambda>h. (p, h)) (parseHost a)"
    unfolding url_parse_def Let_def
    using ctl star p
    by (simp only: if_False scheme option.case prod.case sc(2) rest)
      (simp add: auth host split: option.split)
  then show ?thesis
    unfolding url_Parse_def Let_def takeWhile_notin [OF frag] dropWhile_notin [OF frag]
    by (simp split: option.split)
qed

lemma digits_plain: "list_all is_digit s \<Longrightarrow> list_all (\<lambda>c. \<not> shouldEscape c) s"
  by (auto simp: list_all_iff shouldEscape_def)

lemma split_zone_None: "CHR ''%'' \<notin> set s \<Longrightarrow> split_zone s = None"
  by (induction s) auto

lemma JoinHostPort_plain:
  assumes "list_all (\<lambda>c. \<not> shouldEscape c) host" "list_all is_digit port"
  shows "list_all (\<lambda>c. \<not> shouldEscape c) (JoinHostPort host port)"
  using assms digits_plain [OF assms(2)] by (auto simp: JoinHostPort_def shouldEscape_def)

lemma parseHost_Join:
  assumes "list_all (\<lambda>c. \<not> shouldEscape c) host" "CHR ''['' \<notin> set host" "CHR '']'' \<notin> set host" "list_all is_digit port"
  shows "parseHost (JoinHostPort host port) = Some (JoinHostPort host port)"
proof -
  have id: "unescape encodeHost (JoinHostPort host port) = Some (JoinHostPort host port)"
    using JoinHostPort_plain [OF assms(1,4)] by (rule unescape_id)
  have "\<not> is_digit (CHR '':'')" "\<not> is_digit (CHR '']'')" by (simp_all add: is_digit_def ord_def)
  then have p: "CHR '':'' \<notin> set port" "CHR '']'' \<notin> set port" using assms(4) by (auto simp: list_all_iff)
  show ?thesis
  proof (cases "CHR '':'' \<in> set host")
    case True
    have "split_last (CHR '']'') (''['' @ host @ '']:'' @ port) = Some (''['' @ host, '':'' @ port)"
      using split_last_append [of "CHR '']''" "'':'' @ port" "''['' @ host"] p(2) by simp
    moreover have "split_zone (''['' @ host) = None"
      using plain_not_special(5) [OF assms(1)] by (intro split_zone_None) simp
    ultimately show ?thesis
      using True id assms(4) by (simp add: parseHost_def JoinHostPort_def validOptionalPort_def)
  next
    case False
    have "hd (host @ '':'' @ port) \<noteq> CHR ''[''" using assms(2) by (cases host) auto
    then show ?thesis
      using False id assms(4) split_last_append [OF p(1), of host]
      by (simp add: parseHost_def JoinHostPort_def validOptionalPort_def)
  qed
qed

section \<open>The characters of an IP address\<close>

definition ip_char :: "char \<Rightarrow> bool" where
  "ip_char c \<longleftrightarrow> hex_val c \<noteq> None \<or> c = CHR ''.'' \<or> c = CHR '':''"

lemma number_chars:
  assumes "number val base n s = Some (m, r)" "\<And>c. val c \<noteq> None \<Longrightarrow> ip_char c"
  shows "\<exists>d. s = d @ r \<and> list_all ip_char d"
  using assms(1)
proof (induction s arbitrary: n)
  case (Cons c s)
  show ?case
  proof (cases "val c")
    case None
    then show ?thesis using Cons.prems by auto
  next
    case (Some k)
    then obtain d where "s = d @ r" "list_all ip_char d" using Cons by (auto split: if_splits)
    then show ?thesis using Some assms(2) [of c] by (intro exI [of _ "c # d"]) simp
  qed
qed auto

lemma dec_ip_char: "dec_val c \<noteq> None \<Longrightarrow> ip_char c"
  by (auto simp: dec_val_def ip_char_def hex_val_def split: if_splits)

lemma dtoi_chars: "dtoi s = Some (m, r) \<Longrightarrow> \<exists>d. s = d @ r \<and> list_all ip_char d"
  using number_chars [OF _ dec_ip_char] by (auto simp: dtoi_def split: list.splits if_splits)

lemma xtoi_chars: "xtoi s = Some (m, r) \<Longrightarrow> \<exists>d. s = d @ r \<and> list_all ip_char d"
  using number_chars [of hex_val] by (auto simp: xtoi_def ip_char_def split: list.splits if_splits)

lemma ip_char_dots [simp]: "ip_char (CHR ''.'')" "ip_char (CHR '':'')"
  by (simp_all add: ip_char_def)

lemma ipv4_octets_chars: "ipv4_octets k s = Some bs \<Longrightarrow> list_all ip_char s"
proof (induction k arbitrary: s bs)
  case (Suc k)
  then obtain n r where r: "dtoi s = Some (n, r)" by (auto split: option.splits)
  from dtoi_chars [OF r] obtain d where d: "s = d @ r" "list_all ip_char d" by blast
  have "list_all ip_char r"
    using Suc r by (fastforce split: if_splits list.splits)
  with d show ?case by simp
qed (auto split: if_splits)

lemma ipv6_groups_chars:
  "ipv6_groups k ip e s = Some (ip', e', r) \<Longrightarrow> \<exists>d. s = d @ r \<and> list_all ip_char d"
proof (induction k arbitrary: ip e s)
  case (Suc k)
  then obtain n t where t: "xtoi s = Some (n, t)" "n \<le> 0xFFFF" by (auto split: option.splits if_splits)
  from xtoi_chars [OF t(1)] obtain d where d: "s = d @ t" "list_all ip_char d" by blast
  show ?case
  proof (cases "t \<noteq> [] \<and> hd t = CHR ''.''")
    case True
    then obtain bs where bs: "ipv4_octets 4 s = Some bs" "r = []"
      using Suc.prems t by (simp split: option.splits if_splits)
    then show ?thesis using ipv4_octets_chars by blast
  next
    case False
    let ?ip = "ip @ [of_nat (n div 256), of_nat (n mod 256)]"
    consider (last) "t = []" "r = []"
      | (colon) c r1 where "t = CHR '':'' # c # r1" "ipv6_groups k ?ip e (c # r1) = Some (ip', e', r)"
      | (ellipsis) r1 where "t = CHR '':'' # CHR '':'' # r1" "ipv6_groups k ?ip (Some (length ?ip)) r1 = Some (ip', e', r)"
      | (final) "t = ''::''" "r = []"
      using Suc.prems t False by (auto simp: Let_def split: list.splits if_splits)
    then show ?thesis
    proof cases
      case colon
      from Suc.IH [OF colon(2)] obtain d1 where "c # r1 = d1 @ r" "list_all ip_char d1" by blast
      then show ?thesis using d colon(1) by (intro exI [of _ "d @ CHR '':'' # d1"]) simp
    next
      case ellipsis
      from Suc.IH [OF ellipsis(2)] obtain d1 where "r1 = d1 @ r" "list_all ip_char d1" by blast
      then show ?thesis using d ellipsis(1) by (intro exI [of _ "d @ ''::'' @ d1"]) simp
    qed (use d in auto)
  qed
qed (auto intro: exI [of _ "[]"])

lemma ipv6_expand_chars: "ipv6_expand (ipv6_groups k ip e s) = Some b \<Longrightarrow> list_all ip_char s"
  by (auto simp: ipv6_expand_def split: option.splits if_splits dest: ipv6_groups_chars)

lemma ParseIP_chars:
  assumes "ParseIP s \<noteq> None"
  shows "list_all ip_char s"
proof -
  have "list_all ip_char s" if v6: "parseIPv6 s = Some b" for b
  proof (cases "take 2 s = ''::''")
    case True
    then have s: "s = ''::'' @ drop 2 s" by (metis append_take_drop_id)
    have "length s = 2 \<or> list_all ip_char (drop 2 s)"
      using v6 True by (auto simp: parseIPv6_def split: if_splits intro: ipv6_expand_chars)
    then show ?thesis by (subst s) auto
  next
    case False
    then show ?thesis using v6 by (auto simp: parseIPv6_def intro: ipv6_expand_chars)
  qed
  moreover have "list_all ip_char s" if "parseIPv4 s = Some b" for b
    using that ipv4_octets_chars by (auto simp: parseIPv4_def)
  ultimately show ?thesis using assms by (auto simp: ParseIP_def split: option.splits if_splits)
qed

lemma ip_char_plain: "ip_char c \<Longrightarrow> \<not> shouldEscape c \<and> c \<noteq> CHR ''['' \<and> c \<noteq> CHR '']'' \<and> \<not> is_space c"
  by (auto simp: ip_char_def hex_val_def shouldEscape_def is_alpha_def is_digit_def is_space_def ord_def
      split: if_splits)

end
