(* ===== verification/Net_Address.thy ===== *)
theory Net_Address
  imports Go_Net Lru_Cache
begin

text \<open>
  Network addresses, \<^verbatim>\<open>src/network/address.go\<close>, and the address filter of \<^verbatim>\<open>src/network/utils.go\<close>. The
  domain name service behind \<^verbatim>\<open>net.LookupHost\<close> is the parameter \<open>lookup\<close>; the package's lookup cache is
  explicit state, an LRU cache of 1000 host names.

  Shown: formatting and parsing are inverse, and resolving an address yields a normal form: its host
  is an IP address and resolving it again changes nothing.
\<close>

section \<open>Addresses\<close>

record AddressInfo =
  Protocol :: string
  Host :: string
  Port :: uint16

definition ErrStrAddressEmpty :: go_error where
  "ErrStrAddressEmpty = Err ''address: cannot dial, address was empty''"

definition ErrStrNoAvailableAddresses :: go_error where
  "ErrStrNoAvailableAddresses = Err ''address: no available addresses''"

definition NewAddressInfo :: "string \<Rightarrow> string \<Rightarrow> uint16 \<Rightarrow> AddressInfo" where
  "NewAddressInfo protocol host port = \<lparr>Protocol = protocol, Host = host, Port = port\<rparr>"

definition HostPort :: "AddressInfo \<Rightarrow> string" where
  "HostPort info = JoinHostPort (Host info) (Itoa (unat (Port info)))"

definition AddressInfo_String :: "AddressInfo \<Rightarrow> string" where
  "AddressInfo_String info =
     (let address = JoinHostPort (Host info) (Itoa (unat (Port info)))
      in if 0 < length (Protocol info) then Protocol info @ ''://'' @ address else address)"

definition FormatAddress :: "string \<Rightarrow> string \<Rightarrow> uint16 \<Rightarrow> string" where
  "FormatAddress protocol host port = AddressInfo_String (NewAddressInfo protocol host port)"

definition ParseAddress :: "string \<Rightarrow> AddressInfo result" where
  "ParseAddress address =
     (case url_Parse address of
        None \<Rightarrow> Inl (Err ''parse url'')
      | Some (scheme, urlHost) \<Rightarrow>
          rbind (SplitHostPort urlHost) (\<lambda>(host, rawPort).
          rbind (ParseUint16 rawPort) (\<lambda>port.
          Inr \<lparr>Protocol = scheme, Host = host, Port = port\<rparr>)))"

section \<open>Resolution\<close>

type_synonym resolver = "string \<Rightarrow> string list result"
type_synonym lookup_cache = "string Cache"

definition domainLookupCache :: lookup_cache where
  "domainLookupCache = NewCache 1000"

definition resolve_host :: "resolver \<Rightarrow> string \<Rightarrow> string result" where
  "resolve_host lookup host =
     (if ParseIP host = None
      then case lookup host of
             Inl _ \<Rightarrow> Inl ErrStrNoAvailableAddresses
           | Inr [] \<Rightarrow> Inl ErrStrNoAvailableAddresses
           | Inr (a # _) \<Rightarrow> Inr (if a = ''::1'' then ''127.0.0.1'' else a)
      else Inr host)"

definition ToUnifiedHost :: "resolver \<Rightarrow> lookup_cache \<Rightarrow> string \<Rightarrow> string result \<times> lookup_cache" where
  "ToUnifiedHost lookup cache host =
     (case Get cache host (resolve_host lookup host) of
        (Inl (Err e), cache1) \<Rightarrow> (Inl ErrStrNoAvailableAddresses, cache1)
      | (r, cache1) \<Rightarrow> (r, cache1))"

definition ToUnifiedAddress :: "resolver \<Rightarrow> lookup_cache \<Rightarrow> string \<Rightarrow> string result \<times> lookup_cache" where
  "ToUnifiedAddress lookup cache address0 =
     (let address = TrimSpace address0
      in if length address = 0 then (Inl ErrStrAddressEmpty, cache)
         else case ParseAddress address of
                Inl e \<Rightarrow> (Inl e, cache)
              | Inr info \<Rightarrow>
                  (case ToUnifiedHost lookup cache (Host info) of
                     (Inl e, cache1) \<Rightarrow> (Inl e, cache1)
                   | (Inr h, cache1) \<Rightarrow> (Inr (AddressInfo_String (info\<lparr>Host := h\<rparr>)), cache1)))"

fun filter_loop :: "resolver \<Rightarrow> lookup_cache \<Rightarrow> string set \<Rightarrow> string list \<Rightarrow> string list \<times> lookup_cache" where
  "filter_loop lookup cache visited [] = ([], cache)"
| "filter_loop lookup cache visited (peerAddress # peers) =
     (if length peerAddress = 0 then filter_loop lookup cache visited peers
      else case ToUnifiedAddress lookup cache peerAddress of
             (Inl _, cache1) \<Rightarrow> filter_loop lookup cache1 visited peers
           | (Inr resolved, cache1) \<Rightarrow>
               if resolved \<in> visited then filter_loop lookup cache1 visited peers
               else (case filter_loop lookup cache1 (insert resolved visited) peers of
                       (filtered, cache2) \<Rightarrow> (resolved # filtered, cache2)))"

definition FilterPeers :: "resolver \<Rightarrow> lookup_cache \<Rightarrow> string \<Rightarrow> string list \<Rightarrow> string list \<times> lookup_cache" where
  "FilterPeers lookup cache address peers = filter_loop lookup cache {address} peers"

section \<open>Formatting and parsing\<close>

definition host_ok :: "string \<Rightarrow> bool" where
  "host_ok h \<longleftrightarrow> list_all (\<lambda>c. \<not> shouldEscape c \<and> c \<noteq> CHR ''['' \<and> c \<noteq> CHR '']'') h"

lemma ParseAddress_Format:
  assumes "scheme_ok p" "host_ok h"
  shows "ParseAddress (FormatAddress p h port) = Inr \<lparr>Protocol = p, Host = h, Port = port\<rparr>"
proof -
  let ?a = "JoinHostPort h (Itoa (unat port))"
  have digits: "list_all is_digit (Itoa (unat port))" using Itoa_digits by blast
  have plain: "list_all (\<lambda>c. \<not> shouldEscape c) h" "CHR ''['' \<notin> set h" "CHR '']'' \<notin> set h"
    using assms(2) by (auto simp: host_ok_def list_all_iff)
  have "FormatAddress p h port = p @ ''://'' @ ?a"
    using assms(1) by (simp add: FormatAddress_def AddressInfo_String_def NewAddressInfo_def scheme_ok_def Let_def)
  then show ?thesis
    using url_Parse_plain [OF assms(1) JoinHostPort_plain [OF plain(1) digits]]
      parseHost_Join [OF plain digits] SplitHostPort_Join [OF plain(2,3) digits]
    by (simp add: ParseAddress_def ParseUint16_Itoa)
qed

lemma IP_host_ok: "ParseIP h \<noteq> None \<Longrightarrow> host_ok h"
  using ParseIP_chars [of h] ip_char_plain by (auto simp: host_ok_def list_all_iff)

text \<open>
  \<open>ParseAddress\<close> inverts \<open>FormatAddress\<close>: for every scheme in normal form, every host of characters
  that need no escaping (domain names, IPv4 and IPv6 addresses) and every port, parsing the
  formatted address gives back protocol, host and port.
\<close>

theorem address_round_trip:
  assumes "scheme_ok protocol" "host_ok host \<or> ParseIP host \<noteq> None"
  shows "ParseAddress (FormatAddress protocol host port) =
    Inr (NewAddressInfo protocol host port)"
  using assms ParseAddress_Format [of protocol host port] IP_host_ok [of host]
  by (auto simp: NewAddressInfo_def)

section \<open>Resolution reaches a normal form\<close>

text \<open>What is relied on of the name service: the addresses it returns are IP addresses.\<close>

definition returns_ips :: "resolver \<Rightarrow> bool" where
  "returns_ips lookup \<longleftrightarrow> (\<forall>h as. lookup h = Inr as \<longrightarrow> list_all (\<lambda>a. ParseIP a \<noteq> None) as)"

lemma resolve_host_ip:
  assumes "returns_ips lookup" "resolve_host lookup h = Inr a"
  shows "ParseIP a \<noteq> None"
proof -
  have "ParseIP ''127.0.0.1'' \<noteq> None" by code_simp
  then show ?thesis
    using assms(2) assms(1) [unfolded returns_ips_def, rule_format, of h]
    by (auto simp: resolve_host_def split: if_splits sum.splits list.splits)
qed

lemma resolve_host_error: "resolve_host lookup h = Inl e \<Longrightarrow> e = ErrStrNoAvailableAddresses"
  by (auto simp: resolve_host_def split: if_splits sum.splits list.splits)

text \<open>
  The cache is transparent: as long as it only holds results of the name service, a resolution
  through it is the resolution without it. This rests on the contract of the LRU cache.
\<close>

definition consistent :: "resolver \<Rightarrow> lookup_cache \<Rightarrow> bool" where
  "consistent lookup cache \<longleftrightarrow> lru.sound (\<lambda>k v. resolve_host lookup k = Inr v) cache"

lemma consistent_initial: "consistent lookup domainLookupCache"
  using lru_inv_NewCache [of 1000] by (simp add: consistent_def lru.sound_def domainLookupCache_def)

lemma ToUnifiedHost_transparent:
  assumes "consistent lookup cache"
  shows "\<exists>cache1. ToUnifiedHost lookup cache h = (resolve_host lookup h, cache1) \<and> consistent lookup cache1"
proof -
  let ?f = "resolve_host lookup h"
  have inv: "lru_inv cache" using assms by (simp add: consistent_def lru.sound_def)
  obtain r cache1 where g: "Get cache h ?f = (r, cache1)" by force
  have "fst (Get cache h ?f) = ?f"
  proof (cases "cached cache h")
    case None
    then show ?thesis by (rule lru.get_miss [OF inv])
  next
    case (Some v)
    then have "?f = Inr v" using assms by (simp add: consistent_def lru.sound_def)
    then show ?thesis using lru.get_hit [OF inv Some] by simp
  qed
  then have "r = ?f" using g by simp
  moreover have "consistent lookup cache1"
    using lru.get_sound(1) [of "\<lambda>k v. resolve_host lookup k = Inr v" cache ?f h] assms g
    by (simp add: consistent_def)
  ultimately show ?thesis
    using g resolve_host_error [of lookup h]
    by (auto simp: ToUnifiedHost_def ErrStrNoAvailableAddresses_def split: sum.splits)
qed

text \<open>The resolution of an address, without the cache.\<close>

definition unified :: "resolver \<Rightarrow> string \<Rightarrow> string result" where
  "unified lookup address =
     (if TrimSpace address = [] then Inl ErrStrAddressEmpty
      else rbind (ParseAddress (TrimSpace address)) (\<lambda>info.
        rbind (resolve_host lookup (Host info)) (\<lambda>h. Inr (AddressInfo_String (info\<lparr>Host := h\<rparr>)))))"

lemma ToUnifiedAddress_transparent:
  assumes "consistent lookup cache"
  shows "\<exists>cache1. ToUnifiedAddress lookup cache a = (unified lookup a, cache1) \<and> consistent lookup cache1"
proof (cases "TrimSpace a = []")
  case False
  show ?thesis
  proof (cases "ParseAddress (TrimSpace a)")
    case (Inr info)
    obtain cache1 where "ToUnifiedHost lookup cache (Host info) = (resolve_host lookup (Host info), cache1)"
      "consistent lookup cache1" using ToUnifiedHost_transparent [OF assms] by blast
    then show ?thesis
      using False Inr by (auto simp: ToUnifiedAddress_def unified_def Let_def split: sum.split)
  qed (use False assms in \<open>simp add: ToUnifiedAddress_def unified_def Let_def\<close>)
qed (use assms in \<open>simp add: ToUnifiedAddress_def unified_def Let_def\<close>)

lemma TrimSpace_id:
  assumes "s \<noteq> []" "\<not> is_space (hd s)" "\<not> is_space (last s)"
  shows "TrimSpace s = s"
proof -
  have "dropWhile is_space s = s" using assms(1,2) by (cases s) auto
  moreover have "dropWhile is_space (rev s) = rev s"
    using assms(1,3) by (cases s rule: rev_cases) auto
  ultimately show ?thesis by (simp add: TrimSpace_def)
qed

lemma to_lower_alpha: "is_alpha c \<Longrightarrow> is_alpha (to_lower c)"
  and to_lower_idem: "to_lower (to_lower c) = to_lower c"
  by (auto simp: is_alpha_def to_lower_def ord_def of_char_of)

lemma to_lower_other: "\<not> is_alpha c \<Longrightarrow> to_lower c = c"
  by (auto simp: is_alpha_def to_lower_def)

lemma scheme_tail_ok:
  "scheme_tail s = Some (p, r) \<Longrightarrow> list_all (\<lambda>c. is_alpha c \<or> is_digit c \<or> c \<in> set ''+-.'') p"
  by (induction s arbitrary: p) (auto split: if_splits)

lemma scheme_lower_ok:
  assumes "getScheme s = Some (p, r)" "p \<noteq> []"
  shows "scheme_ok (map to_lower p)"
proof -
  obtain c cs where s: "s = c # cs" "is_alpha c" "scheme_tail s = Some (p, r)"
    using assms by (auto simp: getScheme_def split: list.splits if_splits option.splits)
  then have "hd p = c" using assms(2) by (auto split: if_splits)
  moreover have "list_all (\<lambda>c. is_alpha c \<or> is_digit c \<or> c \<in> set ''+-.'') p" using s(3) by (rule scheme_tail_ok)
  moreover have "(is_alpha (to_lower d) \<or> is_digit (to_lower d) \<or> to_lower d \<in> set ''+-.'') \<and>
      to_lower (to_lower d) = to_lower d" if "is_alpha d \<or> is_digit d \<or> d \<in> set ''+-.''" for d
    using that to_lower_alpha [of d] to_lower_idem [of d] to_lower_other [of d] by (cases "is_alpha d") auto
  ultimately show ?thesis
    using s(2) assms(2) to_lower_alpha by (auto simp: scheme_ok_def list_all_iff hd_map)
qed

lemma ParseAddress_scheme:
  assumes "ParseAddress a = Inr info" "Protocol info \<noteq> []"
  shows "scheme_ok (Protocol info)"
proof -
  obtain h where "url_Parse a = Some (Protocol info, h)"
    using assms(1) by (auto simp: ParseAddress_def rbind_Inr_iff split: option.splits)
  then obtain u where "url_parse u = Some (Protocol info, h)"
    by (auto simp: url_Parse_def Let_def split: option.splits if_splits)
  then obtain p r where "getScheme u = Some (p, r)" "Protocol info = map to_lower p"
    using assms(2) by (auto simp: url_parse_def Let_def split: option.splits if_splits)
  then show ?thesis using assms(2) scheme_lower_ok by auto
qed

lemma unified_Inr:
  assumes "returns_ips lookup" "unified lookup a = Inr u"
  obtains info ip where "ParseAddress (TrimSpace a) = Inr info" "ParseIP ip \<noteq> None"
    "u = FormatAddress (Protocol info) ip (Port info)"
proof -
  obtain info ip where i: "ParseAddress (TrimSpace a) = Inr info" "resolve_host lookup (Host info) = Inr ip"
    "u = AddressInfo_String (info\<lparr>Host := ip\<rparr>)"
    using assms(2) by (auto simp: unified_def rbind_Inr_iff split: if_splits)
  show thesis
    using that [OF i(1) resolve_host_ip [OF assms(1) i(2)]] i(3)
    by (simp add: FormatAddress_def NewAddressInfo_def AddressInfo_String_def Let_def)
qed

lemma unified_fixed_point:
  assumes "scheme_ok p" "ParseIP ip \<noteq> None"
  shows "unified lookup (FormatAddress p ip port) = Inr (FormatAddress p ip port)"
proof -
  let ?u = "FormatAddress p ip port"
  let ?d = "Itoa (unat port)"
  have p: "p \<noteq> []" "is_alpha (hd p)" using assms(1) by (auto simp: scheme_ok_def)
  have d: "?d \<noteq> []" "list_all is_digit ?d" using Itoa_digits by blast+
  have u: "?u = p @ ''://'' @ JoinHostPort ip ?d"
    using p by (simp add: FormatAddress_def AddressInfo_String_def NewAddressInfo_def Let_def)
  have "hd ?u = hd p" "last ?u = last ?d" using p(1) d(1) by (auto simp: u JoinHostPort_def)
  moreover have "is_digit (last ?d)" using d by (metis last_in_set list_all_iff)
  ultimately have "\<not> is_space (hd ?u)" "\<not> is_space (last ?u)"
    using p(2) by (auto simp: is_space_def is_alpha_def is_digit_def)
  moreover have "?u \<noteq> []" by (simp add: u)
  ultimately have "TrimSpace ?u = ?u" by (intro TrimSpace_id)
  moreover have "ParseAddress ?u = Inr \<lparr>Protocol = p, Host = ip, Port = port\<rparr>"
    using ParseAddress_Format [OF assms(1) IP_host_ok [OF assms(2)]] .
  moreover have "resolve_host lookup ip = Inr ip" using assms(2) by (auto simp: resolve_host_def)
  ultimately show ?thesis
    using \<open>?u \<noteq> []\<close> by (simp add: unified_def FormatAddress_def NewAddressInfo_def)
qed

text \<open>
  C29. Resolution is a normal form: if \<open>ToUnifiedAddress\<close> succeeds, the result names an IP address with
  the protocol and port of the input, and (for an address with a protocol) resolving the result
  again, with the cache as it was left, returns it unchanged. The name service is assumed to
  return IP addresses.
\<close>

theorem ToUnifiedAddress_normal_form:
  assumes "returns_ips lookup" "consistent lookup cache" "ToUnifiedAddress lookup cache a = (Inr u, cache1)"
  shows "consistent lookup cache1 \<and> (\<exists>info ip. ParseAddress (TrimSpace a) = Inr info \<and> ParseIP ip \<noteq> None \<and>
    u = FormatAddress (Protocol info) ip (Port info) \<and>
    (Protocol info \<noteq> [] \<longrightarrow> fst (ToUnifiedAddress lookup cache1 u) = Inr u))"
proof -
  have u: "unified lookup a = Inr u" "consistent lookup cache1"
    using ToUnifiedAddress_transparent [OF assms(2), of a] assms(3) by auto
  obtain info ip where i: "ParseAddress (TrimSpace a) = Inr info" "ParseIP ip \<noteq> None"
    "u = FormatAddress (Protocol info) ip (Port info)" by (rule unified_Inr [OF assms(1) u(1)])
  have "fst (ToUnifiedAddress lookup cache1 u) = Inr u" if "Protocol info \<noteq> []"
    using ToUnifiedAddress_transparent [OF u(2), of u] i(3)
      unified_fixed_point [OF ParseAddress_scheme [OF i(1) that] i(2)] by auto
  then show ?thesis using u(2) i by blast
qed

lemma filter_loop_spec:
  assumes "consistent lookup cache"
  shows "distinct (fst (filter_loop lookup cache visited peers)) \<and>
    set (fst (filter_loop lookup cache visited peers)) =
      {u. \<exists>p \<in> set peers. p \<noteq> [] \<and> unified lookup p = Inr u} - visited"
  using assms
proof (induction peers arbitrary: cache visited)
  case (Cons p peers)
  obtain cache1 where c: "ToUnifiedAddress lookup cache p = (unified lookup p, cache1)" "consistent lookup cache1"
    using ToUnifiedAddress_transparent [OF Cons.prems] by blast
  show ?case
    using Cons.IH [OF Cons.prems] Cons.IH [OF c(2), of visited]
      Cons.IH [OF c(2), of "insert (projr (unified lookup p)) visited"] c(1)
    by (cases "unified lookup p") (auto split: prod.split)
qed simp

text \<open>
  C30. \<open>FilterPeers\<close> returns, without repetition, exactly the resolved forms of the non-empty addresses
  that resolve, except the given address; the lookup cache does not influence the result.
\<close>

theorem FilterPeers_spec:
  assumes "consistent lookup cache"
  shows "distinct (fst (FilterPeers lookup cache address peers)) \<and>
    set (fst (FilterPeers lookup cache address peers)) =
      {u. \<exists>p \<in> set peers. p \<noteq> [] \<and> fst (ToUnifiedAddress lookup domainLookupCache p) = Inr u} - {address}"
proof -
  have "fst (ToUnifiedAddress lookup domainLookupCache p) = unified lookup p" for p
    using ToUnifiedAddress_transparent [OF consistent_initial, of lookup p] by auto
  then show ?thesis using filter_loop_spec [OF assms, of "{address}" peers] by (simp add: FilterPeers_def)
qed

text \<open>A name service for the witnesses.\<close>

definition sample_lookup :: resolver where
  "sample_lookup h = (if h = ''localhost'' then Inr [''::1''] else Inl (Err ''no such host''))"

theorem ToUnifiedAddress_normal_form_witness:
  "\<exists>u cache1. ToUnifiedAddress sample_lookup domainLookupCache '' tcp://localhost:080'' = (Inr u, cache1) \<and>
     u = ''tcp://127.0.0.1:80'' \<and> fst (ToUnifiedAddress sample_lookup cache1 u) = Inr u"
proof -
  let ?r = "ToUnifiedAddress sample_lookup domainLookupCache '' tcp://localhost:080''"
  have v6: "ParseIP ''::1'' \<noteq> None" by code_simp
  have res: "fst ?r = Inr ''tcp://127.0.0.1:80''"
    "ParseAddress (TrimSpace '' tcp://localhost:080'') = Inr \<lparr>Protocol = ''tcp'', Host = ''localhost'', Port = 80\<rparr>"
    by code_simp+
  then obtain cache1 where r: "?r = (Inr ''tcp://127.0.0.1:80'', cache1)" by (metis prod.collapse)
  have "returns_ips sample_lookup" using v6 by (auto simp: returns_ips_def sample_lookup_def)
  from ToUnifiedAddress_normal_form [OF this consistent_initial r] res(2)
  have "fst (ToUnifiedAddress sample_lookup cache1 ''tcp://127.0.0.1:80'') = Inr ''tcp://127.0.0.1:80''" by auto
  then show ?thesis using r by blast
qed

theorem FilterPeers_spec_witness:
  "set (fst (FilterPeers sample_lookup domainLookupCache ''tcp://127.0.0.1:1''
     [''tcp://localhost:1'', ''tcp://127.0.0.1:2'', [], ''tcp://localhost:2''])) = {''tcp://127.0.0.1:2''}"
proof -
  have "fst (ToUnifiedAddress sample_lookup domainLookupCache ''tcp://localhost:1'') = Inr ''tcp://127.0.0.1:1''"
    "fst (ToUnifiedAddress sample_lookup domainLookupCache ''tcp://127.0.0.1:2'') = Inr ''tcp://127.0.0.1:2''"
    "fst (ToUnifiedAddress sample_lookup domainLookupCache ''tcp://localhost:2'') = Inr ''tcp://127.0.0.1:2''"
    by code_simp+
  then show ?thesis
    using FilterPeers_spec [OF consistent_initial, of sample_lookup "''tcp://127.0.0.1:1''"
        "[''tcp://localhost:1'', ''tcp://127.0.0.1:2'', [], ''tcp://localhost:2'']"] by auto
qed

end
