(* ===== verification/Component_List.thy ===== *)
theory Component_List
  imports Carrier_Prelude
begin

text \<open>
  The registry of network components (\<^verbatim>\<open>network/component_list.go\<close>): a map from the dynamic type of a
  component to its entry, and the slice of entries in the order in which callbacks visit them. The
  two views are kept consistent by every operation.
\<close>

section \<open>State and operations\<close>

text \<open>An interface value: its dynamic type (\<^verbatim>\<open>reflect.TypeOf\<close>) and the object.\<close>

record ComponentInterface =
  comp_type :: string
  comp_ref :: nat

record ComponentInfo =
  Priority :: int
  Component :: ComponentInterface

record ComponentList =
  comp_keys :: "(string, ComponentInfo) sync_map"
  comp_values :: "ComponentInfo list"

definition NewComponentList :: ComponentList where
  "NewComponentList = \<lparr>comp_keys = [], comp_values = []\<rparr>"

definition GetInstallComponents :: "ComponentList \<Rightarrow> ComponentInfo list" where
  "GetInstallComponents m = comp_values m"

definition SortByPriority :: "ComponentList \<Rightarrow> ComponentList" where
  "SortByPriority m = m\<lparr>comp_values := sort_slice (\<lambda>a b. Priority a < Priority b) (comp_values m)\<rparr>"

definition PutInfo :: "ComponentInfo \<Rightarrow> ComponentList \<Rightarrow> bool \<times> ComponentList" where
  "PutInfo info m =
    (let ty = comp_type (Component info)
     in if Load (comp_keys m) ty \<noteq> None then (False, m)
        else (True, m\<lparr>comp_keys := Store ty info (comp_keys m), comp_values := comp_values m @ [info]\<rparr>))"

definition Put :: "int \<Rightarrow> ComponentInterface \<Rightarrow> ComponentList \<Rightarrow> bool \<times> ComponentList" where
  "Put priority c m = PutInfo \<lparr>Priority = priority, Component = c\<rparr> m"

definition Delete :: "ComponentInterface \<Rightarrow> ComponentList \<Rightarrow> bool \<times> ComponentList" where
  "Delete c m =
    (True, m\<lparr>comp_keys := map_Delete (comp_type c) (comp_keys m),
       comp_values := remove_first (\<lambda>v. comp_type (Component v) = comp_type c) (comp_values m)\<rparr>)"

definition Len :: "ComponentList \<Rightarrow> nat" where
  "Len m = length (comp_keys m)"

definition GetInfo :: "string \<Rightarrow> ComponentList \<Rightarrow> ComponentInfo option" where
  "GetInfo withTy m = Load (comp_keys m) withTy"

definition GetComponent :: "string \<Rightarrow> ComponentList \<Rightarrow> ComponentInterface option" where
  "GetComponent withTy m = (case GetInfo withTy m of Some info \<Rightarrow> Some (Component info) | None \<Rightarrow> None)"

text \<open>\<^verbatim>\<open>Each\<close> with a callback that changes a state.\<close>

definition Each :: "ComponentList \<Rightarrow> (ComponentInterface \<Rightarrow> 's \<Rightarrow> 's) \<Rightarrow> 's \<Rightarrow> 's" where
  "Each m f s = fold (\<lambda>item. f (Component item)) (comp_values m) s"

datatype registry_op = OpPut int ComponentInterface | OpDelete ComponentInterface | OpSort

fun registry_step :: "registry_op \<Rightarrow> ComponentList \<Rightarrow> ComponentList" where
  "registry_step (OpPut p c) m = snd (Put p c m)"
| "registry_step (OpDelete c) m = snd (Delete c m)"
| "registry_step OpSort m = SortByPriority m"

text \<open>The components that a callback sees, in the order of the calls.\<close>

definition visited :: "ComponentList \<Rightarrow> ComponentInterface list" where
  "visited m = Each m (\<lambda>c cs. cs @ [c]) []"

definition registry_run :: "registry_op list \<Rightarrow> ComponentList" where
  "registry_run ops = fold registry_step ops NewComponentList"

section \<open>Invariant\<close>

text \<open>Each type is registered once, and both views hold the same entries.\<close>

definition registry_inv :: "ComponentList \<Rightarrow> bool" where
  "registry_inv m =
    (distinct (map (\<lambda>i. comp_type (Component i)) (comp_values m)) \<and> unique_keys (comp_keys m) \<and>
     (\<forall>t i. Load (comp_keys m) t = Some i \<longleftrightarrow> i \<in> set (comp_values m) \<and> comp_type (Component i) = t))"

interpretation priority_order: weak_order "\<lambda>a b. Priority a < Priority b"
  by unfold_locales auto

lemma registry_absent:
  "registry_inv m \<Longrightarrow> Load (comp_keys m) t = None \<longleftrightarrow> (\<forall>i\<in>set (comp_values m). comp_type (Component i) \<noteq> t)"
  unfolding registry_inv_def by (metis option.exhaust option.distinct(1))

lemma registry_Len: 
  assumes "registry_inv m"
  shows "Len m = length (comp_values m)"
proof -
  let ?t = "\<lambda>i. comp_type (Component i)"
  have "set (map fst (comp_keys m)) = set (map ?t (comp_values m))"
    using registry_absent [OF assms] by (auto simp: keys_Load)
  moreover have "distinct (map fst (comp_keys m))" "distinct (map ?t (comp_values m))"
    using assms by (simp_all add: registry_inv_def unique_keys_def)
  ultimately show ?thesis unfolding Len_def by (metis distinct_card length_map)
qed

lemma registry_inv_New [inv_intros]: "registry_inv NewComponentList"
  by (simp add: registry_inv_def NewComponentList_def)

lemma registry_inv_Put [inv_intros]: "registry_inv m \<Longrightarrow> registry_inv (snd (Put p c m))"
  using registry_absent [of m "comp_type c"]
  by (auto simp: Put_def PutInfo_def Let_def registry_inv_def)

lemma registry_inv_Delete [inv_intros]: "registry_inv m \<Longrightarrow> registry_inv (snd (Delete c m))"
  by (auto simp: Delete_def registry_inv_def remove_first_eq_filter distinct_map_filter)

lemma registry_inv_Sort [inv_intros]: "registry_inv m \<Longrightarrow> registry_inv (SortByPriority m)"
  by (simp add: SortByPriority_def registry_inv_def)

lemma registry_inv_step: "registry_inv m \<Longrightarrow> registry_inv (registry_step x m)"
  by (cases x) (simp_all add: inv_intros)

lemma registry_history: "registry_inv m \<Longrightarrow> registry_inv (fold registry_step xs m)"
  by (induction xs arbitrary: m) (simp_all add: registry_inv_step)

lemma visited_eq: "visited m = map Component (comp_values m)"
proof -
  have "fold (\<lambda>item cs. cs @ [Component item]) xs acc = acc @ map Component xs"
    for xs :: "ComponentInfo list" and acc
    by (induction xs arbitrary: acc) simp_all
  then show ?thesis by (simp add: visited_def Each_def)
qed

section \<open>Correctness\<close>

text \<open>
  C38. After any sequence of registrations, deletions and sorts, lookup by type and iteration agree:
  the components visited by a callback have different types, they are as many as \<open>Len\<close> says, and
  a lookup finds a component exactly when it is visited. Sorting visits them in ascending priority
  and keeps the previous order among equal priorities.
\<close>

theorem component_registry:
  "Len (registry_run ops) = length (visited (registry_run ops)) \<and>
   distinct (map comp_type (visited (registry_run ops))) \<and>
   (GetComponent t (registry_run ops) = Some c \<longleftrightarrow>
      c \<in> set (visited (registry_run ops)) \<and> comp_type c = t) \<and>
   sorted (map Priority (GetInstallComponents (SortByPriority (registry_run ops)))) \<and>
   filter (\<lambda>i. Priority i = p) (GetInstallComponents (SortByPriority (registry_run ops))) =
     filter (\<lambda>i. Priority i = p) (GetInstallComponents (registry_run ops))"
proof -
  let ?m = "registry_run ops"
  have inv: "registry_inv ?m"
    unfolding registry_run_def by (intro registry_history inv_intros)
  have get: "GetComponent t ?m = Some c \<longleftrightarrow> c \<in> set (visited ?m) \<and> comp_type c = t"
  proof (cases "Load (comp_keys ?m) t")
    case None
    then show ?thesis
      using registry_absent [OF inv, of t] by (auto simp: GetComponent_def GetInfo_def visited_eq)
  next
    case (Some i)
    then have "{j \<in> set (comp_values ?m). comp_type (Component j) = t} = {i}"
      using inv unfolding registry_inv_def by (auto; metis option.inject)
    moreover have "c \<in> Component ` set (comp_values ?m) \<and> comp_type c = t \<longleftrightarrow>
        c \<in> Component ` {j \<in> set (comp_values ?m). comp_type (Component j) = t}"
      by auto
    ultimately have "c \<in> Component ` set (comp_values ?m) \<and> comp_type c = t \<longleftrightarrow> c = Component i"
      by simp
    then show ?thesis using Some by (auto simp: GetComponent_def GetInfo_def visited_eq)
  qed
  have "sorted (map Priority (comp_values (SortByPriority ?m)))"
    using priority_order.sorted_sort_slice [of "comp_values ?m"]
    by (simp add: SortByPriority_def sorted_map not_less)
  moreover have "filter (\<lambda>i. Priority i = p) (comp_values (SortByPriority ?m)) =
      filter (\<lambda>i. Priority i = p) (comp_values ?m)"
    by (simp add: SortByPriority_def) (rule priority_order.sort_slice_stable, simp)
  moreover have "distinct (map comp_type (visited ?m))"
    using inv by (simp add: visited_eq registry_inv_def comp_def)
  ultimately show ?thesis
    using get registry_Len [OF inv] by (simp add: GetInstallComponents_def visited_eq)
qed

end
