(* ===== verification/Crypto_Keys.thy ===== *)
theory Crypto_Keys
  imports Carrier_Prelude
begin

text \<open>
  Key pairs (\<^verbatim>\<open>crypto/keypair.go\<close>, \<^verbatim>\<open>crypto/policy.go\<close>). A signature policy and a hash policy are
  interfaces in the code, so they are records of functions here; \<open>correct_pair\<close> is what a signature
  scheme promises of a key pair it generated.
\<close>

section \<open>Policies and key pairs\<close>

record SignaturePolicy =
  PrivateKeySize :: int
  PublicKeySize :: int
  PrivateToPublic :: "bytes \<Rightarrow> bytes result"
  policy_Sign :: "bytes \<Rightarrow> bytes \<Rightarrow> bytes"
  policy_Verify :: "bytes \<Rightarrow> bytes \<Rightarrow> bytes \<Rightarrow> bool"

type_synonym HashPolicy = "bytes \<Rightarrow> bytes"

record KeyPair =
  PrivateKey :: bytes
  PublicKey :: bytes

definition PrivateKeySizeErr :: go_error where
  "PrivateKeySizeErr = Err ''private key length does not equal expected key length''"

definition Sign :: "KeyPair \<Rightarrow> SignaturePolicy \<Rightarrow> HashPolicy \<Rightarrow> bytes \<Rightarrow> bytes result" where
  "Sign k sp hp message =
     (if int (length (PrivateKey k)) \<noteq> PrivateKeySize sp then Inl PrivateKeySizeErr
      else Inr (policy_Sign sp (PrivateKey k) (hp message)))"

definition PrivateKeyHex :: "KeyPair \<Rightarrow> string" where
  "PrivateKeyHex k = hex_EncodeToString (PrivateKey k)"

definition KeyPair_PublicKeyHex :: "KeyPair \<Rightarrow> string" where
  "KeyPair_PublicKeyHex k = hex_EncodeToString (PublicKey k)"

definition KeyPair_String :: "KeyPair \<Rightarrow> string \<times> string" where
  "KeyPair_String k = (PrivateKeyHex k, KeyPair_PublicKeyHex k)"

definition fromPrivateKeyBytes :: "SignaturePolicy \<Rightarrow> bytes \<Rightarrow> KeyPair result" where
  "fromPrivateKeyBytes sp rawPrivateKey =
     (if int (length rawPrivateKey) \<noteq> PrivateKeySize sp then Inl PrivateKeySizeErr
      else rbind (PrivateToPublic sp rawPrivateKey) (\<lambda>rawPublicKey.
        Inr \<lparr>PrivateKey = rawPrivateKey, PublicKey = rawPublicKey\<rparr>))"

definition FromPrivateKey :: "SignaturePolicy \<Rightarrow> string \<Rightarrow> KeyPair result" where
  "FromPrivateKey sp privateKey =
     rbind (hex_DecodeString privateKey) (fromPrivateKeyBytes sp)"

definition Verify :: "SignaturePolicy \<Rightarrow> HashPolicy \<Rightarrow> bytes \<Rightarrow> bytes \<Rightarrow> bytes \<Rightarrow> bool" where
  "Verify sp hp publicKey message signature =
     (if int (length publicKey) \<noteq> PublicKeySize sp then False
      else policy_Verify sp publicKey (hp message) signature)"

section \<open>Correctness\<close>

text \<open>
  A key pair of a signature scheme: the keys have the lengths of the scheme and what the private key
  signs verifies under the public key.
\<close>

definition correct_pair :: "SignaturePolicy \<Rightarrow> KeyPair \<Rightarrow> bool" where
  "correct_pair sp k \<longleftrightarrow> int (length (PrivateKey k)) = PrivateKeySize sp \<and> int (length (PublicKey k)) = PublicKeySize sp \<and>
     (\<forall>m. policy_Verify sp (PublicKey k) m (policy_Sign sp (PrivateKey k) m))"

lemma fromPrivateKeyBytes_Inr:
  "fromPrivateKeyBytes sp sk = Inr k \<longleftrightarrow>
     int (length sk) = PrivateKeySize sp \<and> PrivateKey k = sk \<and> PrivateToPublic sp sk = Inr (PublicKey k)"
  by (cases k) (auto simp: fromPrivateKeyBytes_def rbind_Inr_iff)

lemma Sign_Verify:
  assumes "correct_pair sp k"
  shows "\<exists>s. Sign k sp hp m = Inr s \<and> Verify sp hp (PublicKey k) m s"
  using assms by (auto simp: Sign_def Verify_def correct_pair_def)

text \<open>A key pair restored from a private key is restored to the same pair from its own hexadecimal form.\<close>

theorem keypair_restored:
  assumes "FromPrivateKey sp h = Inr k"
  shows "FromPrivateKey sp (PrivateKeyHex k) = Inr k"
  using assms by (auto simp: FromPrivateKey_def rbind_Inr_iff PrivateKeyHex_def fromPrivateKeyBytes_Inr)

text \<open>A policy for the witness: keys of one byte, the signature repeats key and digest.\<close>

definition sample_policy :: SignaturePolicy where
  "sample_policy = \<lparr>PrivateKeySize = 1, PublicKeySize = 1, PrivateToPublic = (\<lambda>sk. Inr sk),
     policy_Sign = (\<lambda>sk m. sk @ m), policy_Verify = (\<lambda>pk m s. s = pk @ m)\<rparr>"

lemma sample_policy_correct: "correct_pair sample_policy \<lparr>PrivateKey = [b], PublicKey = [b]\<rparr>"
  by (simp add: correct_pair_def sample_policy_def)

end
