(* ===== verification/Network_State.thy ===== *)
theory Network_State
  imports Component_List Crypto_Keys Message_Codec Net_Address Recv_Window
begin

text \<open>
  The state of a node (\<^verbatim>\<open>network/network.go\<close>, the types of \<^verbatim>\<open>network/client.go\<close> and
  \<^verbatim>\<open>network/multiplex.go\<close>) and the operations that read or set parts of it: configuration, the proxy
  service and the connection tables.

  Objects that the code shares through pointers are held in the state: peer clients in the list
  \<open>clients\<close> (a pointer is an index), sockets in the table \<open>sockets\<close>. A \<^verbatim>\<open>sync.Map\<close> is an association
  list. A closed channel that is only used as a flag is a boolean; a buffered channel is the list of
  what it holds. Goroutines that an operation starts are recorded in \<open>goroutines\<close>, and the callbacks
  it makes on components in \<open>callbacks\<close>.
\<close>

section \<open>Types\<close>

datatype PeerState = PEER_UNKNOWN | PEER_UNREACHABLE | PEER_REACHABLE

text \<open>
  The dynamic types behind the \<^verbatim>\<open>interface{}\<close> connections: TCP sockets, KCP sessions, UDP sockets and
  QUIC streams. The first three implement \<^verbatim>\<open>net.Conn\<close>.
\<close>

datatype Conn = TCPConn nat | KCPSession nat | UDPConn nat | QuicStream nat

fun is_net_Conn :: "Conn \<Rightarrow> bool" where
  "is_net_Conn (QuicStream _) = False"
| "is_net_Conn _ = True"

fun is_UDPConn :: "Conn \<Rightarrow> bool" where
  "is_UDPConn (UDPConn _) = True"
| "is_UDPConn _ = False"

fun is_QuicStream :: "Conn \<Rightarrow> bool" where
  "is_QuicStream (QuicStream _) = True"
| "is_QuicStream _ = False"

text \<open>
  A connection's buffered writer writes to the socket \<open>wr_conn\<close>. It has none when the connection was
  not of the type expected for the peer's protocol: then the \<^verbatim>\<open>io.Writer\<close> below is nil (\<open>wr_nil\<close>), or a
  nil \<^verbatim>\<open>*net.UDPConn\<close> on which every write fails.
\<close>

record ConnState =
  cs_conn :: "Conn option"
  wr_nil :: bool
  wr_conn :: "Conn option"
  writer :: bufio_Writer
  messageNonce :: uint64

record Stream =
  stream_ID :: string
  SendCnt :: uint64

record MultiStream =
  idIncCounter :: uint32
  stream_map :: "(string, Stream) sync_map"

record StreamState =
  stream_buffer :: bytes
  isClosed :: bool
  readDeadline :: "int option"
  writeDeadline :: "int option"

record RequestState =
  req_data :: "proto_message list"
  req_closed :: bool

record PrepareAckMessage =
  ack_MessageID :: string
  ack_Message :: proto_message
  WhenSend :: int
  Frequency :: "8 word"
  LatestSendSuccessAt :: int

datatype AckState = ACK_SUCCESS | ACK_FAILED

record AckStatus =
  status_MessageID :: string
  status_State :: AckState

record StreamSendItem =
  item_conn :: Conn
  item_Message :: Message
  item_PeerID :: string
  item_Address :: string
  item_StreamID :: string

record PeerClient =
  client_ID :: "ID option"
  client_Address :: string
  Requests :: "(uint64, RequestState) sync_map"
  client_RequestNonce :: uint64
  client_stream :: StreamState
  outgoingReady :: bool
  incomingReady :: bool
  jobs :: "Message list"
  client_closed :: bool
  client_Time :: int
  client_RecvWindow :: "Message RecvWindow"
  enableBackoff :: bool
  EnableAckReply :: bool
  SyncWaitAck :: "(string, PrepareAckMessage) sync_map"
  AckStatusNotify :: "AckStatus list"
  StreamSendQueue :: "StreamSendItem list"
  StreamQueueSize :: nat
  RecvChannelClosed :: uint32
  RecvRemotePubKey :: bool
  PubKey :: string

record ProxyServer =
  proxy_IP :: string
  proxy_PeerID :: string

record Proxy =
  proxy_Enable :: bool
  Finish :: "(string, bool) sync_map"
  Servers :: "ProxyServer list"
  WorkID :: uint16

record options =
  connectionTimeout :: int
  signaturePolicy :: SignaturePolicy
  hashPolicy :: HashPolicy
  recvWindowSize :: int
  sendWindowSize :: int
  writeBufferSize :: int
  recvBufferSize :: int
  writeFlushLatency :: int
  perBlockWriteTimeout :: int

record CAConfig =
  ca_enable :: bool
  certPath :: string
  keyPath :: string
  caPath :: string

text \<open>The transport layers that the library provides.\<close>

datatype Layer = TCP | KCP | UDP | Quic

datatype goroutine =
    AcceptLoop Conn "nat option"
  | AcceptQuicLoop Conn "nat option"
  | ExecuteJobs nat
  | LoopStreamSend nat
  | StreamSend nat StreamSendItem

datatype callback =
    PeerConnect ComponentInterface nat
  | PeerDisconnect ComponentInterface nat
  | Receive ComponentInterface nat proto_message uint64

record Network =
  config :: net_config
  opts :: options
  net_keys :: "KeyPair option"
  ClientIDs :: "(string, string) sync_map option"
  net_Address :: string
  ListenAddr :: string
  Components :: ComponentList
  net_ID :: ID
  peers :: "(string, nat) sync_map"
  connections :: "(string, ConnState) sync_map"
  connStates :: "(string, PeerState) sync_map"
  streams :: "(string, MultiStream) sync_map"
  nodeQuit :: "string list"
  transports :: "(string, Layer) sync_map"
  listeningCh :: bool
  Kill :: bool
  ProxyService :: Proxy
  dialTimeout :: int
  DisableDispatchMsgGoroutine :: bool
  streamQueueLen :: uint16
  bootstrapWaitSecond :: int
  net_CAConfig :: CAConfig
  clients :: "PeerClient list"
  sockets :: "(Conn, net_conn) sync_map"
  lookups :: lookup_cache
  opcodes :: opcode_tables
  goroutines :: "goroutine list"
  callbacks :: "callback list"

text \<open>
  What the operating system, the name service, the clock and third-party packages answer: name
  resolution, dialling (by network and host:port; over TLS with the authorities and the certificate),
  files and certificates, the protobuf encodings and the compression formats.
\<close>

record env =
  resolve :: resolver
  net_Dial :: "string \<Rightarrow> string \<Rightarrow> int \<Rightarrow> (nat \<times> net_conn) result"
  ReadFile :: "string \<Rightarrow> bytes result"
  LoadX509KeyPair :: "string \<Rightarrow> string \<Rightarrow> bytes result"
  AppendCertsFromPEM :: "bytes \<Rightarrow> bool"
  tls_Dial :: "string \<Rightarrow> int \<Rightarrow> bytes \<Rightarrow> bytes \<Rightarrow> (nat \<times> net_conn) result"
  marshal_Message :: marshaller
  unmarshal_Message :: unmarshaller
  marshal_proto :: "proto_message \<Rightarrow> bytes result"
  unmarshal_proto :: "proto_message \<Rightarrow> bytes \<Rightarrow> proto_message result"
  compressors :: codecs
  time_Now :: int

section \<open>Tables of peers and connections\<close>

definition GetPeerClient :: "Network \<Rightarrow> string \<Rightarrow> nat option" where
  "GetPeerClient n peerID = Load (peers n) peerID"

definition client_of :: "Network \<Rightarrow> nat \<Rightarrow> PeerClient" where
  "client_of n c = clients n ! c"

definition update_client :: "nat \<Rightarrow> (PeerClient \<Rightarrow> PeerClient) \<Rightarrow> Network \<Rightarrow> Network" where
  "update_client c f n = n\<lparr>clients := (clients n)[c := f (clients n ! c)]\<rparr>"

definition GetAddrByPeerID :: "Network \<Rightarrow> string \<Rightarrow> string" where
  "GetAddrByPeerID n peerID =
     (case GetPeerClient n peerID of
        Some c \<Rightarrow> client_Address (client_of n c)
      | None \<Rightarrow> ''NO_EXIST_ADDR'')"

definition ClientExist :: "Network \<Rightarrow> string \<Rightarrow> bool" where
  "ClientExist n peerID = (Load (peers n) peerID \<noteq> None)"

definition ConnectionStateExists :: "Network \<Rightarrow> string \<Rightarrow> bool" where
  "ConnectionStateExists n peerID = (Load (connections n) peerID \<noteq> None)"

definition ConnectionState :: "Network \<Rightarrow> string \<Rightarrow> ConnState option" where
  "ConnectionState n peerID = Load (connections n) peerID"

definition PeersNum :: "Network \<Rightarrow> nat" where
  "PeersNum n = length (peers n)"

definition ConnsNum :: "Network \<Rightarrow> nat" where
  "ConnsNum n = length (connections n)"

definition UpdateConnState :: "string \<Rightarrow> PeerState \<Rightarrow> Network \<Rightarrow> Network" where
  "UpdateConnState peerID state n = n\<lparr>connStates := Store peerID state (connStates n)\<rparr>"

definition GetRealConnState :: "Network \<Rightarrow> string \<Rightarrow> PeerState \<times> go_error option" where
  "GetRealConnState n peerID =
     (case Load (connStates n) peerID of
        None \<Rightarrow> (PEER_UNREACHABLE, Some (Err ''connStates does not exist''))
      | Some state \<Rightarrow>
          if Load (peers n) peerID = None then (PEER_UNREACHABLE, Some (Err ''peer does not exist''))
          else if Load (connections n) peerID = None
          then (PEER_UNREACHABLE, Some (Err ''connection does not exist''))
          else if state = PEER_REACHABLE then (PEER_REACHABLE, None)
          else (PEER_UNREACHABLE, Some (Err ''conn&peer exist but state is UNREACHABLE'')))"

section \<open>Proxy service\<close>

definition SetProxyServer :: "ProxyServer list \<Rightarrow> Network \<Rightarrow> Network" where
  "SetProxyServer proxies n = n\<lparr>ProxyService := (ProxyService n)\<lparr>Servers := proxies\<rparr>\<rparr>"

definition EnableProxyMode :: "bool \<Rightarrow> Network \<Rightarrow> Network" where
  "EnableProxyMode enable n = n\<lparr>ProxyService := (ProxyService n)\<lparr>proxy_Enable := enable\<rparr>\<rparr>"

definition ProxyModeEnable :: "Network \<Rightarrow> bool" where
  "ProxyModeEnable n = proxy_Enable (ProxyService n)"

definition GetWorkingProxyServer :: "Network \<Rightarrow> (string \<times> string) result" where
  "GetWorkingProxyServer n =
     (if \<not> ProxyModeEnable n then Inr ([], [])
      else let p = ProxyService n; i = unat (WorkID p)
           in if i < length (Servers p)
              then Inr (proxy_IP (Servers p ! i), proxy_PeerID (Servers p ! i))
              else Inl (Panic ''index out of range''))"

definition UpdateProxyWorkID :: "Network \<Rightarrow> Network result" where
  "UpdateProxyWorkID n =
     (let p = ProxyService n; w = WorkID p + 1; k = (of_nat (length (Servers p)) :: uint16)
      in if k = 0 then Inl (Panic ''integer divide by zero'')
         else Inr (n\<lparr>ProxyService := p\<lparr>WorkID := w mod k\<rparr>\<rparr>))"

text \<open>Closing a channel that is already closed panics.\<close>

definition FinishProxyServer :: "string \<Rightarrow> Network \<Rightarrow> Network result" where
  "FinishProxyServer protocol n =
     (case Load (Finish (ProxyService n)) protocol of
        None \<Rightarrow> Inr n
      | Some True \<Rightarrow> Inl (Panic ''close of closed channel'')
      | Some False \<Rightarrow>
          Inr (n\<lparr>ProxyService := (ProxyService n)\<lparr>Finish := Store protocol True (Finish (ProxyService n))\<rparr>\<rparr>))"

text \<open>
  Waiting for the end of a proxy handshake: the wait is over when the protocol's channel is closed,
  and an unknown protocol does not wait.
\<close>

definition BlockUntilProxyFinish :: "string \<Rightarrow> Network \<Rightarrow> unit result" where
  "BlockUntilProxyFinish protocol n =
     (if protocol \<in> {''tcp'', ''udp'', ''quic'', ''kcp''} \<and> Load (Finish (ProxyService n)) protocol = Some False
      then Inl (Blocks ''proxy finish'') else Inr ())"

definition ProxyConnectionStateExists :: "Network \<Rightarrow> bool result" where
  "ProxyConnectionStateExists n =
     (if ProxyModeEnable n
      then rbind (GetWorkingProxyServer n) (\<lambda>(_, peerID). Inr (Load (connections n) peerID \<noteq> None))
      else Inl (Err ''proxy does not enable''))"

definition ProxyConnectionState :: "Network \<Rightarrow> ConnState option result" where
  "ProxyConnectionState n =
     (if \<not> ProxyModeEnable n then Inr None
      else rbind (GetWorkingProxyServer n) (\<lambda>(_, peerID). Inr (Load (connections n) peerID)))"

section \<open>Configuration\<close>

definition SetNetworkID :: "uint32 \<Rightarrow> Network \<Rightarrow> Network" where
  "SetNetworkID i n = n\<lparr>config := (config n)\<lparr>netID := i\<rparr>\<rparr>"

definition GetNetworkID :: "Network \<Rightarrow> uint32" where
  "GetNetworkID n = netID (config n)"

definition SetBootstrapWaitSecond :: "int \<Rightarrow> Network \<Rightarrow> Network" where
  "SetBootstrapWaitSecond timeout n = n\<lparr>bootstrapWaitSecond := timeout\<rparr>"

definition SetDialTimeout :: "int \<Rightarrow> Network \<Rightarrow> Network" where
  "SetDialTimeout timeout n = n\<lparr>dialTimeout := timeout\<rparr>"

definition SetWrittenBufferSize :: "int \<Rightarrow> Network \<Rightarrow> Network" where
  "SetWrittenBufferSize b n = n\<lparr>opts := (opts n)\<lparr>writeBufferSize := b\<rparr>\<rparr>"

definition SetReadBufferSize :: "int \<Rightarrow> Network \<Rightarrow> Network" where
  "SetReadBufferSize b n = n\<lparr>opts := (opts n)\<lparr>recvBufferSize := b\<rparr>\<rparr>"

definition EnableCompress :: "Network \<Rightarrow> Network" where
  "EnableCompress n = n\<lparr>config := (config n)\<lparr>compressEnable := True\<rparr>\<rparr>"

definition DisableCompress :: "Network \<Rightarrow> Network" where
  "DisableCompress n = n\<lparr>config := (config n)\<lparr>compressEnable := False\<rparr>\<rparr>"

definition SetCompressAlgo :: "AlgoType \<Rightarrow> Network \<Rightarrow> Network" where
  "SetCompressAlgo algo n = n\<lparr>config := (config n)\<lparr>compressAlgo := algo\<rparr>\<rparr>"

definition SetCompressFileSize :: "int \<Rightarrow> Network \<Rightarrow> Network" where
  "SetCompressFileSize b n = n\<lparr>config := (config n)\<lparr>ConditionSize := b\<rparr>\<rparr>"

text \<open>\<^verbatim>\<open>Store\<close> on a nil \<^verbatim>\<open>*sync.Map\<close> is a nil dereference.\<close>

definition SetClientID :: "string \<Rightarrow> string \<Rightarrow> Network \<Rightarrow> Network result" where
  "SetClientID ip cid n =
     (case ClientIDs n of
        None \<Rightarrow> Inl (Panic ''nil pointer dereference'')
      | Some m \<Rightarrow> Inr (n\<lparr>ClientIDs := Some (Store ip cid m)\<rparr>))"

definition DisableMsgGoroutine :: "Network \<Rightarrow> Network" where
  "DisableMsgGoroutine n = n\<lparr>DisableDispatchMsgGoroutine := True\<rparr>"

definition EnableMsgGoroutine :: "Network \<Rightarrow> Network" where
  "EnableMsgGoroutine n = n\<lparr>DisableDispatchMsgGoroutine := False\<rparr>"

definition SetStreamQueueLen :: "uint16 \<Rightarrow> Network \<Rightarrow> Network" where
  "SetStreamQueueLen k n = n\<lparr>streamQueueLen := k\<rparr>"

definition IsCAEnable :: "Network \<Rightarrow> bool" where
  "IsCAEnable n = ca_enable (net_CAConfig n)"

definition EnableCAAbility :: "Network \<Rightarrow> Network" where
  "EnableCAAbility n = n\<lparr>net_CAConfig := (net_CAConfig n)\<lparr>ca_enable := True\<rparr>\<rparr>"

definition DisableCAAbility :: "Network \<Rightarrow> Network" where
  "DisableCAAbility n = n\<lparr>net_CAConfig := (net_CAConfig n)\<lparr>ca_enable := True\<rparr>\<rparr>"

definition SetCAFileConfig :: "string \<Rightarrow> string \<Rightarrow> string \<Rightarrow> Network \<Rightarrow> bool \<times> Network" where
  "SetCAFileConfig ca cert key n =
     (if ca = [] \<or> cert = [] \<or> key = [] then (False, n)
      else (True, n\<lparr>net_CAConfig := (net_CAConfig n)\<lparr>caPath := ca, certPath := cert, keyPath := key\<rparr>\<rparr>))"

definition GetCAFileConfig :: "Network \<Rightarrow> string \<times> string \<times> string" where
  "GetCAFileConfig n = (caPath (net_CAConfig n), certPath (net_CAConfig n), keyPath (net_CAConfig n))"

definition startListening :: "Network \<Rightarrow> Network result" where
  "startListening n = (if listeningCh n then Inl (Panic ''close of closed channel'') else Inr (n\<lparr>listeningCh := True\<rparr>))"

definition BlockUntilListening :: "Network \<Rightarrow> unit result" where
  "BlockUntilListening n = (if listeningCh n then Inr () else Inl (Blocks ''listening''))"

definition Network_PeerID :: "Network \<Rightarrow> string" where
  "Network_PeerID n = hex_EncodeToString (Id_hash (net_ID n))"

section \<open>Proxy rotation\<close>

fun rotations :: "nat \<Rightarrow> Network \<Rightarrow> Network result" where
  "rotations 0 n = Inr n"
| "rotations (Suc j) n = rbind (UpdateProxyWorkID n) (rotations j)"

lemma UpdateProxyWorkID_ok:
  assumes "length (Servers (ProxyService n)) < 65536" "unat (WorkID (ProxyService n)) < length (Servers (ProxyService n))"
  shows "\<exists>m. UpdateProxyWorkID n = Inr m \<and> Servers (ProxyService m) = Servers (ProxyService n) \<and>
    proxy_Enable (ProxyService m) = proxy_Enable (ProxyService n) \<and>
    unat (WorkID (ProxyService m)) = (unat (WorkID (ProxyService n)) + 1) mod length (Servers (ProxyService n))"
proof -
  let ?w = "WorkID (ProxyService n)" and ?k = "length (Servers (ProxyService n))"
  have k: "unat (of_nat ?k :: uint16) = ?k" using assms(1) by (simp add: unat_of_nat take_bit_nat_eq_self)
  have "unat (?w + 1) = unat ?w + 1"
    using assms by (simp add: unat_word_ariths)
  then have "unat ((?w + 1) mod of_nat ?k) = (unat ?w + 1) mod ?k" by (simp add: unat_mod k)
  moreover have "(of_nat ?k :: uint16) \<noteq> 0" using k assms(2) by auto
  ultimately show ?thesis by (simp add: UpdateProxyWorkID_def Let_def)
qed

lemma rotations_ok:
  assumes "length (Servers (ProxyService n)) < 65536" "unat (WorkID (ProxyService n)) < length (Servers (ProxyService n))"
  shows "\<exists>m. rotations j n = Inr m \<and> Servers (ProxyService m) = Servers (ProxyService n) \<and>
    proxy_Enable (ProxyService m) = proxy_Enable (ProxyService n) \<and>
    unat (WorkID (ProxyService m)) = (unat (WorkID (ProxyService n)) + j) mod length (Servers (ProxyService n))"
  using assms
proof (induction j arbitrary: n)
  case (Suc j)
  let ?k = "length (Servers (ProxyService n))"
  obtain m where m: "UpdateProxyWorkID n = Inr m" "Servers (ProxyService m) = Servers (ProxyService n)"
    "proxy_Enable (ProxyService m) = proxy_Enable (ProxyService n)"
    "unat (WorkID (ProxyService m)) = (unat (WorkID (ProxyService n)) + 1) mod ?k"
    using UpdateProxyWorkID_ok [OF Suc.prems] by blast
  have "(unat (WorkID (ProxyService n)) + 1) mod ?k < ?k" using Suc.prems(2) by (intro mod_less_divisor) linarith
  then show ?case
    using Suc.IH [of m] Suc.prems m by (auto simp: mod_simps add.assoc)
qed simp

text \<open>
  Switching proxies is a round robin: as long as there are between 1 and 65535 servers and the
  working index is in range, any number of switches runs without a panic, and after j of them the
  working server is the one j places further, cyclically. Without servers a switch panics (division
  by zero), and \<open>SetProxyServer\<close> with a shorter list leaves the index behind, so that the next use of
  the proxy panics.
\<close>

theorem proxy_round_robin:
  assumes "length (Servers (ProxyService n)) < 65536" "unat (WorkID (ProxyService n)) < length (Servers (ProxyService n))"
    "ProxyModeEnable n"
  shows "(\<exists>m s. rotations j n = Inr m \<and>
      s = Servers (ProxyService n) ! ((unat (WorkID (ProxyService n)) + j) mod length (Servers (ProxyService n))) \<and>
      GetWorkingProxyServer m = Inr (proxy_IP s, proxy_PeerID s)) \<and>
    panics (UpdateProxyWorkID (SetProxyServer [] n)) \<and>
    panics (GetWorkingProxyServer (SetProxyServer (take (unat (WorkID (ProxyService n))) (Servers (ProxyService n))) n))"
proof (intro conjI)
  obtain m where m: "rotations j n = Inr m" "Servers (ProxyService m) = Servers (ProxyService n)"
    "proxy_Enable (ProxyService m) = proxy_Enable (ProxyService n)"
    "unat (WorkID (ProxyService m)) = (unat (WorkID (ProxyService n)) + j) mod length (Servers (ProxyService n))"
    using rotations_ok [OF assms(1,2)] by blast
  have "unat (WorkID (ProxyService m)) < length (Servers (ProxyService n))"
    unfolding m(4) using assms(2) by (intro mod_less_divisor) linarith
  then show "\<exists>m s. rotations j n = Inr m \<and>
      s = Servers (ProxyService n) ! ((unat (WorkID (ProxyService n)) + j) mod length (Servers (ProxyService n))) \<and>
      GetWorkingProxyServer m = Inr (proxy_IP s, proxy_PeerID s)"
    using m assms(3) by (auto simp: GetWorkingProxyServer_def ProxyModeEnable_def Let_def)
qed (use assms in \<open>auto simp: UpdateProxyWorkID_def GetWorkingProxyServer_def SetProxyServer_def ProxyModeEnable_def Let_def\<close>)

section \<open>A sample node\<close>

text \<open>A node for the witnesses: \<^verbatim>\<open>tcp://1.2.3.4:80\<close>, no peers.\<close>

definition sample_opts :: options where
  "sample_opts = \<lparr>connectionTimeout = 60, signaturePolicy = sample_policy, hashPolicy = (\<lambda>b. b), recvWindowSize = 4,
     sendWindowSize = 4, writeBufferSize = 16, recvBufferSize = 16, writeFlushLatency = 1, perBlockWriteTimeout = 3\<rparr>"

definition sample_net :: Network where
  "sample_net = \<lparr>config = sample_config, opts = sample_opts,
     net_keys = Some \<lparr>PrivateKey = [7], PublicKey = [7]\<rparr>, ClientIDs = None, net_Address = ''tcp://1.2.3.4:80'',
     ListenAddr = ''tcp://1.2.3.4:80'', Components = NewComponentList,
     net_ID = CreateID (\<lambda>b. b) ''tcp://1.2.3.4:80'' (Some [7]), peers = [], connections = [], connStates = [], streams = [],
     nodeQuit = [], transports = [(''tcp'', TCP), (''kcp'', KCP), (''udp'', UDP), (''quic'', Quic)], listeningCh = True,
     Kill = False, ProxyService = \<lparr>proxy_Enable = True, Finish = [],
       Servers = [\<lparr>proxy_IP = ''a'', proxy_PeerID = ''1''\<rparr>, \<lparr>proxy_IP = ''b'', proxy_PeerID = ''2''\<rparr>], WorkID = 1\<rparr>,
     dialTimeout = 3, DisableDispatchMsgGoroutine = True, streamQueueLen = 2, bootstrapWaitSecond = 30,
     net_CAConfig = \<lparr>ca_enable = False, certPath = ''c'', keyPath = ''k'', caPath = ''a''\<rparr>, clients = [], sockets = [],
     lookups = domainLookupCache, opcodes = init_tables, goroutines = [], callbacks = []\<rparr>"

end
