(* ===== verification/Builder.thy ===== *)
theory Builder
  imports Network_State
begin

text \<open>
  Building a node (\<^verbatim>\<open>network/builder.go\<close>): options, component registration, transport layers and
  \<open>Build\<close>. The random key pair of \<open>NewBuilder\<close>, the hash of \<open>CreateID\<close> and the test for the
  certificate files are parameters.
\<close>

section \<open>The builder\<close>

record Builder =
  b_opts :: options
  b_keys :: "KeyPair option"
  b_address :: string
  b_listenAddr :: string
  b_Components :: "ComponentList option"
  ComponentCount :: int
  b_transports :: "(string, Layer) sync_map"

definition defaultAddress :: string where "defaultAddress = ''tcp://localhost:8588''"
definition CAPATH :: string where "CAPATH = ''./ca/CA_of_FISCP.cer''"
definition CERTPATH :: string where "CERTPATH = ''./ca/NRT_Permit_To_Client.cer''"
definition KEYPATH :: string where "KEYPATH = ''./ca/adminKeyV2.pem''"

text \<open>Durations are in milliseconds.\<close>

definition defaultBuilderOptions :: "SignaturePolicy \<Rightarrow> HashPolicy \<Rightarrow> options" where
  "defaultBuilderOptions ed25519 blake2b =
     \<lparr>connectionTimeout = 60 * 1000, signaturePolicy = ed25519, hashPolicy = blake2b,
      recvWindowSize = 4096, sendWindowSize = 4096, writeBufferSize = 1024 * 1024 * 8,
      recvBufferSize = 1024 * 1024 * 8, writeFlushLatency = 10, perBlockWriteTimeout = 3\<rparr>"

type_synonym BuilderOption = "options \<Rightarrow> options"

definition ConnectionTimeout :: "int \<Rightarrow> BuilderOption" where
  "ConnectionTimeout d o1 = o1\<lparr>connectionTimeout := d\<rparr>"

definition SignaturePolicy_option :: "SignaturePolicy \<Rightarrow> BuilderOption" where
  "SignaturePolicy_option policy o1 = o1\<lparr>signaturePolicy := policy\<rparr>"

definition HashPolicy_option :: "HashPolicy \<Rightarrow> BuilderOption" where
  "HashPolicy_option policy o1 = o1\<lparr>hashPolicy := policy\<rparr>"

definition RecvWindowSize :: "int \<Rightarrow> BuilderOption" where
  "RecvWindowSize k o1 = o1\<lparr>recvWindowSize := k\<rparr>"

definition SendWindowSize :: "int \<Rightarrow> BuilderOption" where
  "SendWindowSize k o1 = o1\<lparr>sendWindowSize := k\<rparr>"

definition WriteBufferSize :: "int \<Rightarrow> BuilderOption" where
  "WriteBufferSize byteSize o1 = o1\<lparr>writeBufferSize := byteSize\<rparr>"

definition ReceiveBufferSize :: "int \<Rightarrow> BuilderOption" where
  "ReceiveBufferSize byteSize o1 = o1\<lparr>recvBufferSize := byteSize\<rparr>"

definition WriteFlushLatency :: "int \<Rightarrow> BuilderOption" where
  "WriteFlushLatency d o1 = o1\<lparr>writeFlushLatency := d\<rparr>"

definition WriteTimeout :: "int \<Rightarrow> BuilderOption" where
  "WriteTimeout d o1 = o1\<lparr>perBlockWriteTimeout := d\<rparr>"

definition RegisterTransportLayer :: "string \<Rightarrow> Layer \<Rightarrow> Builder \<Rightarrow> Builder" where
  "RegisterTransportLayer name layer b = b\<lparr>b_transports := Store name layer (b_transports b)\<rparr>"

definition ClearTransportLayers :: "Builder \<Rightarrow> Builder" where
  "ClearTransportLayers b = b\<lparr>b_transports := []\<rparr>"

definition NewBuilder :: "SignaturePolicy \<Rightarrow> HashPolicy \<Rightarrow> KeyPair \<Rightarrow> Builder" where
  "NewBuilder ed25519 blake2b random_pair =
     (let b = \<lparr>b_opts = defaultBuilderOptions ed25519 blake2b, b_keys = Some random_pair, b_address = defaultAddress,
               b_listenAddr = [], b_Components = None, ComponentCount = 0, b_transports = []\<rparr>;
          b = RegisterTransportLayer ''tcp'' TCP b;
          b = RegisterTransportLayer ''kcp'' KCP b;
          b = RegisterTransportLayer ''udp'' UDP b
      in RegisterTransportLayer ''quic'' Quic b)"

definition NewBuilderWithOptions ::
  "SignaturePolicy \<Rightarrow> HashPolicy \<Rightarrow> KeyPair \<Rightarrow> BuilderOption list \<Rightarrow> Builder" where
  "NewBuilderWithOptions ed25519 blake2b random_pair opt =
     (let b = NewBuilder ed25519 blake2b random_pair
      in b\<lparr>b_opts := fold (\<lambda>f o1. f o1) opt (b_opts b)\<rparr>)"

definition SetKeys :: "KeyPair option \<Rightarrow> Builder \<Rightarrow> Builder" where
  "SetKeys pair b = b\<lparr>b_keys := pair\<rparr>"

definition SetAddress :: "string \<Rightarrow> Builder \<Rightarrow> Builder" where
  "SetAddress address b = b\<lparr>b_address := address\<rparr>"

definition SetListenAddr :: "string \<Rightarrow> Builder \<Rightarrow> Builder" where
  "SetListenAddr address b = b\<lparr>b_listenAddr := address\<rparr>"

definition AddComponentWithPriority :: "int \<Rightarrow> ComponentInterface \<Rightarrow> Builder \<Rightarrow> go_error option \<times> Builder" where
  "AddComponentWithPriority priority c b =
     (let m = (case b_Components b of None \<Rightarrow> NewComponentList | Some m \<Rightarrow> m)
      in case Put priority c m of
           (ok, m1) \<Rightarrow>
             (if ok then None else Some (Err (''builder: Component '' @ comp_type c @ '' is already registered'')),
              b\<lparr>b_Components := Some m1\<rparr>))"

definition DeleteComponent :: "ComponentInterface \<Rightarrow> Builder \<Rightarrow> bool result \<times> Builder" where
  "DeleteComponent c b =
     (case b_Components b of
        None \<Rightarrow> (Inl (Panic ''nil pointer dereference''), b)
      | Some m \<Rightarrow> (case Delete c m of (ok, m1) \<Rightarrow> (Inr ok, b\<lparr>b_Components := Some m1\<rparr>)))"

definition AddComponent :: "ComponentInterface \<Rightarrow> Builder \<Rightarrow> go_error option \<times> Builder" where
  "AddComponent c b =
     (case AddComponentWithPriority (ComponentCount b) c b of
        (None, b1) \<Rightarrow> (None, b1\<lparr>ComponentCount := ComponentCount b1 + 1\<rparr>)
      | (Some e, b1) \<Rightarrow> (Some e, b1))"

section \<open>Build\<close>

definition ErrStrNoKeyPair :: go_error where
  "ErrStrNoKeyPair = Err ''builder: cryptography keys not provided to Network; cannot create node ID''"

definition ErrStrNoAddress :: go_error where
  "ErrStrNoAddress = Err ''builder: network requires public server IP for peers to connect to''"

definition new_network ::
  "(bytes \<Rightarrow> bytes) \<Rightarrow> (string \<Rightarrow> bool) \<Rightarrow> opcode_tables \<Rightarrow> lookup_cache \<Rightarrow> Builder \<Rightarrow> KeyPair \<Rightarrow> ComponentList \<Rightarrow>
    string \<Rightarrow> string \<Rightarrow> Network" where
  "new_network hash FileExisted tables cache b pair components unifiedAddress unifiedListenAddr =
     \<lparr>config = \<lparr>netID = 0, compressEnable = True, compressAlgo = GZIP, ConditionSize = 4 * 1024 * 1024\<rparr>,
      opts = b_opts b, net_keys = Some pair, ClientIDs = None, net_Address = unifiedAddress,
      ListenAddr = unifiedListenAddr, Components = components,
      net_ID = CreateID hash unifiedAddress (Some (PublicKey pair)),
      peers = [], connections = [], connStates = [], streams = [], nodeQuit = [],
      transports = b_transports b, listeningCh = False, Kill = False,
      ProxyService = \<lparr>proxy_Enable = False, Finish = map (\<lambda>(protocol, _). (protocol, False)) (b_transports b),
        Servers = [], WorkID = 0\<rparr>,
      dialTimeout = 0, DisableDispatchMsgGoroutine = False, streamQueueLen = 256, bootstrapWaitSecond = 30 * 1000,
      net_CAConfig = \<lparr>ca_enable = FileExisted KEYPATH \<and> FileExisted CERTPATH \<and> FileExisted CAPATH,
        certPath = CERTPATH, keyPath = KEYPATH, caPath = CAPATH\<rparr>,
      clients = [], sockets = [], lookups = cache, opcodes = tables, goroutines = [], callbacks = []\<rparr>"

definition Build ::
  "resolver \<Rightarrow> (bytes \<Rightarrow> bytes) \<Rightarrow> (string \<Rightarrow> bool) \<Rightarrow> opcode_tables \<Rightarrow> lookup_cache \<Rightarrow> Builder \<Rightarrow>
    Network result \<times> Builder \<times> lookup_cache" where
  "Build lookup hash FileExisted tables cache b =
     (case b_keys b of
        None \<Rightarrow> (Inl ErrStrNoKeyPair, b, cache)
      | Some pair \<Rightarrow>
          if length (b_address b) = 0 then (Inl ErrStrNoAddress, b, cache)
          else
            let components = (case b_Components b of None \<Rightarrow> NewComponentList | Some m \<Rightarrow> SortByPriority m);
                b = b\<lparr>b_Components := Some components\<rparr>
            in case ToUnifiedAddress lookup cache (b_address b) of
                 (Inl e, cache1) \<Rightarrow> (Inl e, b, cache1)
               | (Inr unifiedAddress, cache1) \<Rightarrow>
                   (case ToUnifiedAddress lookup cache1 (b_listenAddr b) of
                      (Inl e, cache2) \<Rightarrow> (Inl e, b, cache2)
                    | (Inr unifiedListenAddr, cache2) \<Rightarrow>
                        (Inr (new_network hash FileExisted tables cache2 b pair components unifiedAddress unifiedListenAddr),
                         b, cache2)))"

section \<open>Registration order\<close>

definition add_all :: "ComponentInterface list \<Rightarrow> Builder \<Rightarrow> Builder" where
  "add_all cs b = fold (\<lambda>c b. snd (AddComponent c b)) cs b"

text \<open>The first registration of each type counts.\<close>

fun first_of_each_type :: "ComponentInterface list \<Rightarrow> ComponentInterface list" where
  "first_of_each_type [] = []"
| "first_of_each_type (c # cs) = c # filter (\<lambda>d. comp_type d \<noteq> comp_type c) (first_of_each_type cs)"

definition numbered :: "ComponentInterface list \<Rightarrow> ComponentInfo list" where
  "numbered cs = map (\<lambda>i. \<lparr>Priority = int i, Component = cs ! i\<rparr>) [0..<length cs]"

definition registered :: "Builder \<Rightarrow> ComponentInterface list \<Rightarrow> bool" where
  "registered b cs \<longleftrightarrow> ComponentCount b = int (length cs) \<and>
     (case b_Components b of None \<Rightarrow> cs = [] | Some m \<Rightarrow> registry_inv m \<and> comp_values m = numbered cs)"

lemma numbered_snoc: "numbered (cs @ [c]) = numbered cs @ [\<lparr>Priority = int (length cs), Component = c\<rparr>]"
  by (auto simp: numbered_def nth_append)

lemma numbered_Nil [simp]: "numbered [] = []"
  by (simp add: numbered_def)

lemma numbered_Component: "map Component (numbered cs) = cs"
  by (simp add: numbered_def comp_def map_nth)

lemma numbered_sorted: "sort_slice (\<lambda>a b. Priority a < Priority b) (numbered cs) = numbered cs"
proof (rule priority_order.sort_slice_unique [symmetric])
  show "sorted_wrt (\<lambda>x y. \<not> Priority y < Priority x) (numbered cs)"
    by (auto simp: numbered_def sorted_wrt_iff_nth_less)
qed (auto simp: numbered_def)

lemma comp_types_numbered: "Component ` set (numbered cs) = set cs"
  by (metis list.set_map numbered_Component)

lemma first_of_each_type_snoc:
  "first_of_each_type (cs @ [c]) =
     (if comp_type c \<in> comp_type ` set (first_of_each_type cs) then first_of_each_type cs
      else first_of_each_type cs @ [c])"
  by (induction cs) (auto simp: image_iff)

lemma AddComponent_registered:
  assumes "registered b cs"
  shows "registered (snd (AddComponent c b))
    (if comp_type c \<in> comp_type ` set cs then cs else cs @ [c])"
proof -
  define m where "m = (case b_Components b of None \<Rightarrow> NewComponentList | Some m \<Rightarrow> m)"
  have m: "registry_inv m" "comp_values m = numbered cs"
    using assms registry_inv_New
    by (auto simp: registered_def m_def NewComponentList_def split: option.splits)
  have absent: "Load (comp_keys m) (comp_type c) = None \<longleftrightarrow> comp_type c \<notin> comp_type ` set cs"
    unfolding registry_absent [OF m(1)] m(2) comp_types_numbered [of cs, symmetric] image_image by (auto; metis imageI)
  have "registry_inv (snd (Put (ComponentCount b) c m))" by (rule registry_inv_Put [OF m(1)])
  then show ?thesis
    using assms absent m
    by (auto simp: AddComponent_def AddComponentWithPriority_def m_def [symmetric] Put_def PutInfo_def Let_def
        registered_def numbered_snoc)
qed

lemma add_all_registered:
  assumes "registered b []"
  shows "registered (add_all cs b) (first_of_each_type cs)"
proof (induction cs rule: rev_induct)
  case Nil
  then show ?case using assms by (simp add: add_all_def)
next
  case (snoc c cs)
  then show ?case
    using AddComponent_registered [of "add_all cs b" "first_of_each_type cs" c]
    by (auto simp: add_all_def first_of_each_type_snoc)
qed

lemma registered_NewBuilder: "registered (NewBuilder sp hp pair) []"
  by (simp add: registered_def NewBuilder_def RegisterTransportLayer_def Let_def)

section \<open>Outcome of Build\<close>

lemma Build_eq:
  assumes "consistent lookup cache"
  shows "fst (Build lookup hash FileExisted tables cache b) =
    (case b_keys b of
       None \<Rightarrow> Inl ErrStrNoKeyPair
     | Some pair \<Rightarrow>
         if b_address b = [] then Inl ErrStrNoAddress
         else rbind (unified lookup (b_address b)) (\<lambda>a. rbind (unified lookup (b_listenAddr b)) (\<lambda>l.
           let components = (case b_Components b of None \<Rightarrow> NewComponentList | Some m \<Rightarrow> SortByPriority m);
               cache1 = snd (ToUnifiedAddress lookup cache (b_address b))
           in Inr (new_network hash FileExisted tables (snd (ToUnifiedAddress lookup cache1 (b_listenAddr b)))
                (b\<lparr>b_Components := Some components\<rparr>) pair components a l))))"
proof -
  obtain c1 where c1: "ToUnifiedAddress lookup cache (b_address b) = (unified lookup (b_address b), c1)" "consistent lookup c1"
    using ToUnifiedAddress_transparent [OF assms] by blast
  obtain c2 where "ToUnifiedAddress lookup c1 (b_listenAddr b) = (unified lookup (b_listenAddr b), c2)"
    using ToUnifiedAddress_transparent [OF c1(2)] by blast
  then show ?thesis
    using c1 by (auto simp: Build_def Let_def split: option.split sum.split)
qed

lemma unified_empty: "unified lookup [] = Inl ErrStrAddressEmpty"
  by (simp add: unified_def TrimSpace_def)

text \<open>
  C39. \<open>Build\<close> succeeds exactly when keys and an address are set and both the address and the
  listening address resolve; it never panics. The builder that \<open>NewBuilder\<close> returns has no listening
  address, so that building it fails whatever components and address it is given, unless
  \<open>SetListenAddr\<close> is called.
\<close>

theorem Build_outcome:
  assumes "consistent lookup cache"
  shows "(is_ok (fst (Build lookup hash FileExisted tables cache b)) \<longleftrightarrow>
      b_keys b \<noteq> None \<and> b_address b \<noteq> [] \<and> is_ok (unified lookup (b_address b)) \<and> is_ok (unified lookup (b_listenAddr b))) \<and>
    \<not> is_ok (fst (Build lookup hash FileExisted tables cache (add_all cs (SetAddress a (NewBuilder sp hp pair)))))"
proof -
  have iff: "is_ok (fst (Build lookup hash FileExisted tables cache b)) \<longleftrightarrow>
      b_keys b \<noteq> None \<and> b_address b \<noteq> [] \<and> is_ok (unified lookup (b_address b)) \<and> is_ok (unified lookup (b_listenAddr b))" for b
    unfolding Build_eq [OF assms] by (auto simp: Let_def rbind_def is_ok_iff split: option.splits sum.splits)
  have "b_listenAddr (add_all cs b) = b_listenAddr b" for b
  proof (induction cs arbitrary: b)
    case (Cons c cs)
    have "b_listenAddr (snd (AddComponent c b)) = b_listenAddr b"
      by (auto simp: AddComponent_def AddComponentWithPriority_def Let_def split: prod.splits option.splits)
    then show ?case using Cons by (simp add: add_all_def)
  qed (simp add: add_all_def)
  moreover have "b_listenAddr (SetAddress a (NewBuilder sp hp pair)) = []"
    by (simp add: SetAddress_def NewBuilder_def RegisterTransportLayer_def Let_def)
  ultimately show ?thesis using iff unified_empty by simp
qed

text \<open>
  A network built from a builder without components after any \<open>AddComponent\<close> calls runs the
  callbacks of its components in the order of registration, the first of each type, has the
  resolved addresses, an identity that commits to the builder's public key and address, no peers and
  no connections; and its client-id table is nil, so that \<open>SetClientID\<close> panics.
\<close>

theorem Build_network:
  assumes "consistent lookup cache" "registered b []"
    "fst (Build lookup hash FileExisted tables cache (add_all cs b)) = Inr n"
  shows "visited (Components n) = first_of_each_type cs \<and>
    unified lookup (b_address (add_all cs b)) = Inr (net_Address n) \<and>
    unified lookup (b_listenAddr (add_all cs b)) = Inr (ListenAddr n) \<and>
    (\<exists>pair. b_keys (add_all cs b) = Some pair \<and> net_ID n = CreateID hash (net_Address n) (Some (PublicKey pair))) \<and>
    PeersNum n = 0 \<and> ConnsNum n = 0 \<and> panics (SetClientID ip cid n)"
proof -
  let ?b = "add_all cs b"
  have r: "registered ?b (first_of_each_type cs)" by (rule add_all_registered [OF assms(2)])
  have "comp_values (case b_Components ?b of None \<Rightarrow> NewComponentList | Some m \<Rightarrow> SortByPriority m) =
      numbered (first_of_each_type cs)"
    using r by (auto simp: registered_def NewComponentList_def SortByPriority_def numbered_sorted
        split: option.splits)
  then have "visited (case b_Components ?b of None \<Rightarrow> NewComponentList | Some m \<Rightarrow> SortByPriority m) = first_of_each_type cs"
    by (simp add: visited_eq numbered_Component)
  then show ?thesis
    using assms(3) unfolding Build_eq [OF assms(1)]
    by (auto simp: Let_def rbind_Inr_iff new_network_def PeersNum_def ConnsNum_def SetClientID_def
        split: option.splits if_splits)
qed

section \<open>Witnesses\<close>

definition sample_component :: "string \<Rightarrow> ComponentInterface" where
  "sample_component t = \<lparr>comp_type = t, comp_ref = 0\<rparr>"

definition sample_builder :: Builder where
  "sample_builder = SetListenAddr ''tcp://127.0.0.1:3000''
     (NewBuilder sample_policy (\<lambda>b. b) \<lparr>PrivateKey = [7], PublicKey = [7]\<rparr>)"

theorem Build_outcome_witness:
  "is_ok (fst (Build sample_lookup (\<lambda>b. b) (\<lambda>_. False) init_tables domainLookupCache sample_builder))"
proof -
  have "unified sample_lookup (b_address sample_builder) = Inr ''tcp://127.0.0.1:8588''"
    "unified sample_lookup (b_listenAddr sample_builder) = Inr ''tcp://127.0.0.1:3000''"
    "b_keys sample_builder \<noteq> None" "b_address sample_builder \<noteq> []"
    by code_simp+
  then show ?thesis using Build_outcome [OF consistent_initial, of sample_lookup] by simp
qed

end
