(* ===== verification/Peer_Client.thy ===== *)
theory Peer_Client
  imports Network_State
begin

text \<open>
  Peer clients (\<^verbatim>\<open>network/client.go\<close>): creation, readiness, shutdown with the removal of the table
  entries, the byte stream that implements \<^verbatim>\<open>net.Conn\<close>, and the bounded stream queue.
\<close>

section \<open>Creation and readiness\<close>

definition new_client :: "Network \<Rightarrow> string \<Rightarrow> int \<Rightarrow> Message RecvWindow \<Rightarrow> PeerClient" where
  "new_client n address now window =
     \<lparr>client_ID = None, client_Address = address, Requests = [], client_RequestNonce = 0,
      client_stream = \<lparr>stream_buffer = [], isClosed = False, readDeadline = None, writeDeadline = None\<rparr>,
      outgoingReady = False, incomingReady = False, jobs = [], client_closed = False, client_Time = now,
      client_RecvWindow = window, enableBackoff = True, EnableAckReply = False, SyncWaitAck = [], AckStatusNotify = [],
      StreamSendQueue = [], StreamQueueSize = unat (streamQueueLen n), RecvChannelClosed = 0, RecvRemotePubKey = False, PubKey = []\<rparr>"

definition createPeerClient :: "Network \<Rightarrow> string \<Rightarrow> int \<Rightarrow> PeerClient result" where
  "createPeerClient n address now =
     rbind (ParseAddress address) (\<lambda>_.
     rbind (NewRecvWindow (recvWindowSize (opts n))) (\<lambda>window.
     Inr (new_client n address now window)))"

definition PeerID :: "PeerClient \<Rightarrow> string" where
  "PeerID c = (case client_ID c of Some i \<Rightarrow> hex_EncodeToString (slice (NetKey i)) | None \<Rightarrow> [])"

definition ClientID :: "PeerClient \<Rightarrow> string" where
  "ClientID c = PubKey c"

definition setIncomingReady :: "PeerClient \<Rightarrow> PeerClient result" where
  "setIncomingReady c =
     (if incomingReady c then Inl (Panic ''close of closed channel'') else Inr (c\<lparr>incomingReady := True\<rparr>))"

definition setOutgoingReady :: "PeerClient \<Rightarrow> PeerClient result" where
  "setOutgoingReady c =
     (if outgoingReady c then Inl (Panic ''close of closed channel'') else Inr (c\<lparr>outgoingReady := True\<rparr>))"

definition IsIncomingReady :: "PeerClient \<Rightarrow> bool" where
  "IsIncomingReady c = incomingReady c"

definition IsOutgoingReady :: "PeerClient \<Rightarrow> bool" where
  "IsOutgoingReady c = outgoingReady c"

text \<open>\<^verbatim>\<open>stopNotify.Close\<close> may be called any number of times.\<close>

definition stopNotify_Close :: "PeerClient \<Rightarrow> PeerClient" where
  "stopNotify_Close c = (if RecvRemotePubKey c then c else c\<lparr>RecvRemotePubKey := True\<rparr>)"

definition DisableBackoff :: "PeerClient \<Rightarrow> PeerClient" where
  "DisableBackoff c = c\<lparr>enableBackoff := False\<rparr>"

definition EnableBackoff :: "PeerClient \<Rightarrow> PeerClient" where
  "EnableBackoff c = c\<lparr>enableBackoff := True\<rparr>"

definition GetBackoffStatus :: "PeerClient \<Rightarrow> bool" where
  "GetBackoffStatus c = enableBackoff c"

definition ResetConnectionID :: "bytes option \<Rightarrow> PeerClient \<Rightarrow> PeerClient result" where
  "ResetConnectionID cid c =
     (case client_ID c of
        None \<Rightarrow> Inl (Panic ''nil pointer dereference'')
      | Some i \<Rightarrow> Inr (c\<lparr>client_ID := Some (i\<lparr>ConnectionId := cid\<rparr>)\<rparr>))"

definition StreamQueueCap :: "PeerClient \<Rightarrow> nat" where
  "StreamQueueCap c = StreamQueueSize c"

definition StreamQueueLen :: "PeerClient \<Rightarrow> nat" where
  "StreamQueueLen c = length (StreamSendQueue c)"

definition StreamCanWrite :: "PeerClient \<Rightarrow> bool" where
  "StreamCanWrite c = (0 < int (StreamQueueCap c) - int (StreamQueueLen c))"

definition waitAckLen :: "PeerClient \<Rightarrow> nat" where
  "waitAckLen c = length (SyncWaitAck c)"

text \<open>\<open>Submit\<close> blocks while 128 jobs are queued and the client is open.\<close>

definition Submit :: "Message \<Rightarrow> PeerClient \<Rightarrow> PeerClient result" where
  "Submit job c =
     (if length (jobs c) < 128 then Inr (c\<lparr>jobs := jobs c @ [job]\<rparr>)
      else if client_closed c then Inr c
      else Inl (Blocks ''jobs''))"

section \<open>Shutdown\<close>

definition shut :: "Conn \<Rightarrow> Network \<Rightarrow> Network" where
  "shut k n =
     (case Load (sockets n) k of
        None \<Rightarrow> n
      | Some s \<Rightarrow> n\<lparr>sockets := Store k (s\<lparr>budget := Some 0\<rparr>) (sockets n)\<rparr>)"

text \<open>
  The connection is closed through a type assertion chosen by the protocol of the node's own
  address; the assertion panics on another type.
\<close>

definition close_conn :: "string \<Rightarrow> Conn option \<Rightarrow> Network \<Rightarrow> Network result" where
  "close_conn protocol cn n =
     (let assert_close = (\<lambda>is_type. case cn of
            Some k \<Rightarrow> if is_type k then Inr (shut k n) else Inl (Panic ''interface conversion'')
          | None \<Rightarrow> Inl (Panic ''interface conversion''))
      in if protocol = ''tcp'' \<or> protocol = ''kcp'' then assert_close is_net_Conn
         else if protocol = ''udp'' then assert_close is_UDPConn
         else if protocol = ''quic'' then assert_close is_QuicStream
         else Inr n)"

definition delete_entries :: "string \<Rightarrow> Network \<Rightarrow> Network" where
  "delete_entries key n = UpdateConnState key PEER_UNREACHABLE
     (n\<lparr>peers := map_Delete key (peers n), connections := map_Delete key (connections n),
        streams := map_Delete key (streams n)\<rparr>)"

definition remove_entry :: "string \<Rightarrow> Network \<Rightarrow> bool result \<times> Network" where
  "remove_entry key n =
     (case ConnectionState n key of
        None \<Rightarrow> (Inr False, n)
      | Some state \<Rightarrow>
          (case ParseAddress (net_Address n) of
             Inl e \<Rightarrow> (Inl e, n)
           | Inr addrInfo \<Rightarrow>
               (case close_conn (Protocol addrInfo) (cs_conn state) n of
                  Inl e \<Rightarrow> (Inl e, n)
                | Inr n1 \<Rightarrow> (Inr True, delete_entries key n1))))"

text \<open>The notification channel of departed nodes holds 128 entries.\<close>

definition notify_quit :: "string \<Rightarrow> Network \<Rightarrow> unit result \<times> Network" where
  "notify_quit cid n =
     (if length (nodeQuit n) < 128 then (Inr (), n\<lparr>nodeQuit := nodeQuit n @ [cid]\<rparr>)
      else (Inl (Blocks ''nodeQuit''), n))"

definition RemoveEntries :: "nat \<Rightarrow> Network \<Rightarrow> unit result \<times> Network" where
  "RemoveEntries c n =
     (let cl = client_of n c;
          clientAddr = (case client_ID cl of Some i \<Rightarrow> Address i | None \<Rightarrow> client_Address cl)
      in if length clientAddr = 0 then (Inr (), n)
         else case remove_entry (PeerID cl) n of
                (Inl e, n1) \<Rightarrow> (Inl e, n1)
              | (Inr removed, n1) \<Rightarrow>
                  (case (if removed then notify_quit (ClientID cl) n1 else (Inr (), n1)) of
                     (Inl e, n2) \<Rightarrow> (Inl e, n2)
                   | (Inr _, n2) \<Rightarrow>
                       (case remove_entry clientAddr n2 of
                          (Inl e, n3) \<Rightarrow> (Inl e, n3)
                        | (Inr _, n3) \<Rightarrow> (Inr (), n3))))"

definition notify_all :: "(ComponentInterface \<Rightarrow> callback) \<Rightarrow> Network \<Rightarrow> Network" where
  "notify_all cb n = Each (Components n) (\<lambda>comp m. m\<lparr>callbacks := callbacks m @ [cb comp]\<rparr>) n"

definition Close :: "nat \<Rightarrow> Network \<Rightarrow> unit result \<times> Network" where
  "Close c n =
     (if client_closed (client_of n c) then (Inr (), n)
      else
        let n1 = update_client c (\<lambda>cl. cl\<lparr>client_closed := True,
                   client_stream := (client_stream cl)\<lparr>isClosed := True\<rparr>\<rparr>) n
        in case RemoveEntries c n1 of
             (Inl e, n2) \<Rightarrow> (Inl e, n2)
           | (Inr _, n2) \<Rightarrow> (Inr (), notify_all (\<lambda>comp. PeerDisconnect comp c) n2))"

section \<open>Byte stream\<close>

definition handleBytes :: "bytes \<Rightarrow> PeerClient \<Rightarrow> PeerClient" where
  "handleBytes pkt c = c\<lparr>client_stream := (client_stream c)\<lparr>stream_buffer := stream_buffer (client_stream c) @ pkt\<rparr>\<rparr>"

text \<open>
  One round of \<open>Read\<close> with room for \<open>size\<close> bytes. With an empty buffer on an open stream it waits and
  tries again.
\<close>

definition Read :: "int \<Rightarrow> nat \<Rightarrow> PeerClient \<Rightarrow> (bytes \<times> go_error option) result \<times> PeerClient" where
  "Read now room c =
     (let s = client_stream c;
          out = take room (stream_buffer s);
          c1 = c\<lparr>client_stream := s\<lparr>stream_buffer := drop (length out) (stream_buffer s)\<rparr>\<rparr>
      in if isClosed s then (Inr (out, Some (Err ''closed'')), c1)
         else if (case readDeadline s of Some d \<Rightarrow> d < now | None \<Rightarrow> False)
         then (Inr (out, Some (Err ''read deadline exceeded'')), c1)
         else if length out \<noteq> 0 then (Inr (out, None), c1)
         else (Inl (Blocks ''buffered''), c1))"

definition SetDeadline :: "int option \<Rightarrow> PeerClient \<Rightarrow> PeerClient" where
  "SetDeadline t c = c\<lparr>client_stream := (client_stream c)\<lparr>readDeadline := t, writeDeadline := t\<rparr>\<rparr>"

definition SetReadDeadline :: "int option \<Rightarrow> PeerClient \<Rightarrow> PeerClient" where
  "SetReadDeadline t c = c\<lparr>client_stream := (client_stream c)\<lparr>readDeadline := t\<rparr>\<rparr>"

definition SetWriteDeadline :: "int option \<Rightarrow> PeerClient \<Rightarrow> PeerClient" where
  "SetWriteDeadline t c = c\<lparr>client_stream := (client_stream c)\<lparr>writeDeadline := t\<rparr>\<rparr>"

definition LocalAddr :: "Network \<Rightarrow> AddressInfo result" where
  "LocalAddr n = (case ParseAddress (net_Address n) of Inl e \<Rightarrow> Inl (Panic ''address'') | Inr a \<Rightarrow> Inr a)"

definition RemoteAddr :: "PeerClient \<Rightarrow> AddressInfo result" where
  "RemoteAddr c = (case ParseAddress (client_Address c) of Inl e \<Rightarrow> Inl (Panic ''address'') | Inr a \<Rightarrow> Inr a)"

end
