(* ===== verification/Message_Send.thy ===== *)
theory Message_Send
  imports Peer_Client
begin

text \<open>
  Sending (\<^verbatim>\<open>network/network.go\<close>, \<^verbatim>\<open>network/client.go\<close>, \<^verbatim>\<open>network/context.go\<close>): wrapping and signing a
  protobuf message, writing it to a peer's connection, broadcasts, and the request, reply and
  acknowledgement bookkeeping of a client. \<^verbatim>\<open>log.Fatal\<close> ends the process.
\<close>

section \<open>Contexts and preparation\<close>

record go_context =
  signMessage :: "bool option"
  ctx_Err :: "go_error option"

definition context_Background :: go_context where
  "context_Background = \<lparr>signMessage = None, ctx_Err = None\<rparr>"

definition WithSignMessage :: "go_context \<Rightarrow> bool \<Rightarrow> go_context" where
  "WithSignMessage ctx sign = ctx\<lparr>signMessage := Some sign\<rparr>"

definition GetSignMessage :: "go_context \<Rightarrow> bool" where
  "GetSignMessage ctx = (case signMessage ctx of None \<Rightarrow> False | Some sign \<Rightarrow> sign)"

definition prepare :: "env \<Rightarrow> go_context \<Rightarrow> proto_message option \<Rightarrow> string \<Rightarrow> bool \<Rightarrow> Network \<Rightarrow> Message result" where
  "prepare E ctx message msgID ack n =
     (case message of
        None \<Rightarrow> Inl (Err ''network: message is null'')
      | Some m \<Rightarrow>
          rbind (GetOpcode (opcodes n) m) (\<lambda>opcode.
          rbind (marshal_proto E m) (\<lambda>raw.
          let msg = \<lparr>Message_body = raw, Sender = Some (net_ID n), Signature = None, RequestNonce = 0, MessageNonce = 0,
                     ReplyFlag = False, Opcode_of = opcode, NetID = netID (config n), MessageID = msgID, NeedAck = ack\<rparr>
          in if GetSignMessage ctx
             then rbind (SerializeMessage (net_ID n) raw) (\<lambda>serialized.
               case net_keys n of
                 None \<Rightarrow> Inl (Panic ''nil pointer dereference'')
               | Some pair \<Rightarrow>
                   rbind (Sign pair (signaturePolicy (opts n)) (hashPolicy (opts n)) serialized) (\<lambda>signature.
                     Inr (msg\<lparr>Signature := Some signature\<rparr>)))
             else Inr msg)))"

definition PrepareMessage :: "env \<Rightarrow> go_context \<Rightarrow> proto_message option \<Rightarrow> Network \<Rightarrow> Message result" where
  "PrepareMessage E ctx message n = prepare E ctx message [] False n"

definition PrepareMessageWithMsgID ::
  "env \<Rightarrow> go_context \<Rightarrow> proto_message option \<Rightarrow> string \<Rightarrow> Network \<Rightarrow> Message result" where
  "PrepareMessageWithMsgID E ctx message msgID n = prepare E ctx message msgID True n"

section \<open>Writing to a connection\<close>

definition load_writer :: "Network \<Rightarrow> ConnState \<Rightarrow> bufio_Writer" where
  "load_writer n state =
     (case wr_conn state of
        None \<Rightarrow> writer state
      | Some k \<Rightarrow> (case Load (sockets n) k of None \<Rightarrow> writer state | Some s \<Rightarrow> (writer state)\<lparr>wr := s\<rparr>))"

definition store_writer :: "string \<Rightarrow> ConnState \<Rightarrow> bufio_Writer \<Rightarrow> Network \<Rightarrow> Network" where
  "store_writer peerID state w n =
     n\<lparr>connections := Store peerID (state\<lparr>writer := w\<rparr>) (connections n),
       sockets := (case wr_conn state of None \<Rightarrow> sockets n | Some k \<Rightarrow> Store k (wr w) (sockets n))\<rparr>"

definition write_stream :: "env \<Rightarrow> string \<Rightarrow> ConnState \<Rightarrow> Message \<Rightarrow> Network \<Rightarrow> unit result \<times> Network" where
  "write_stream E peerID state message n =
     (case build_frame (marshal_Message E) (compressors E) (config n) message of
        Inl e \<Rightarrow> (Inl e, n)
      | Inr buffer \<Rightarrow>
          if wr_nil state then (Inl (Panic ''nil pointer dereference''), n)
          else case sendMessage (marshal_Message E) (compressors E) (config n) (load_writer n state) message of
                 (err, w) \<Rightarrow> ((case err of None \<Rightarrow> Inr () | Some e \<Rightarrow> Inl e), store_writer peerID state w n))"

text \<open>A datagram is written to the connection itself; the error result of \<open>sendUDPMessage\<close> is nil.\<close>

definition write_datagram :: "env \<Rightarrow> ConnState \<Rightarrow> Message \<Rightarrow> Network \<Rightarrow> Network" where
  "write_datagram E state message n =
     (case sendUDPMessage (marshal_Message E) message of
        None \<Rightarrow> n
      | Some buffer \<Rightarrow>
          (case cs_conn state of
             Some (UDPConn i) \<Rightarrow>
               (case Load (sockets n) (UDPConn i) of
                  None \<Rightarrow> n
                | Some s \<Rightarrow> (case conn_Write s buffer of (_, _, s1) \<Rightarrow> n\<lparr>sockets := Store (UDPConn i) s1 (sockets n)\<rparr>))
           | _ \<Rightarrow> n))"

text \<open>\<open>sendQuicMessage\<close> locks the writer mutex, which \<open>Write\<close> already holds.\<close>

definition write_quic :: "env \<Rightarrow> Message \<Rightarrow> Network \<Rightarrow> unit result" where
  "write_quic E message n =
     (case marshal_Message E message of
        Inl e \<Rightarrow> Inl e
      | Inr b \<Rightarrow>
          if b = [] then Inr ()
          else rbind (build_frame (marshal_Message E) (compressors E) (config n) message) (\<lambda>_.
            Inl (Blocks ''writerMutex'')))"

definition close_on_error :: "string \<Rightarrow> unit result \<times> Network \<Rightarrow> unit result \<times> Network" where
  "close_on_error peerID r =
     (case r of
        (Inl (Err e), n) \<Rightarrow>
          (case GetPeerClient n peerID of
             None \<Rightarrow> (Inl (Err e), n)
           | Some c \<Rightarrow>
               (case Close c n of
                  (Inr _, n1) \<Rightarrow> (Inl (Err e), n1)
                | (Inl (Err _), n1) \<Rightarrow> (Inl (Err e), n1)
                | (Inl p, n1) \<Rightarrow> (Inl p, n1)))
      | _ \<Rightarrow> r)"

definition Write :: "env \<Rightarrow> string \<Rightarrow> Message \<Rightarrow> Network \<Rightarrow> unit result \<times> Network" where
  "Write E peerID message0 n0 =
     (case ConnectionState n0 peerID of
        None \<Rightarrow> (Inl (Err ''Network.write: connection does not exist''), n0)
      | Some state0 \<Rightarrow>
          let state = state0\<lparr>messageNonce := messageNonce state0 + 1\<rparr>;
              n = n0\<lparr>connections := Store peerID state (connections n0)\<rparr>;
              message = message0\<lparr>MessageNonce := messageNonce state\<rparr>
          in (case ParseAddress (net_Address n) of
               Inl e \<Rightarrow> (Inl (Panic ''log.Fatal''), n)
             | Inr addrInfo \<Rightarrow>
                 if Protocol addrInfo = ''tcp'' \<or> Protocol addrInfo = ''kcp''
                 then (case cs_conn state of
                         Some k \<Rightarrow>
                           if is_net_Conn k then close_on_error peerID (write_stream E peerID state message n)
                           else (Inl (Err ''Network.Write connection is nil''), n)
                       | None \<Rightarrow> (Inl (Err ''Network.Write connection is nil''), n))
                 else if Protocol addrInfo = ''udp'' then (Inr (), write_datagram E state message n)
                 else if Protocol addrInfo = ''quic'' then close_on_error peerID (write_quic E message n, n)
                 else (Inr (), n)))"

definition Send :: "env \<Rightarrow> go_context \<Rightarrow> string \<Rightarrow> proto_message option \<Rightarrow> Network \<Rightarrow> unit result \<times> Network" where
  "Send E ctx clientID message n =
     (case PrepareMessage E ctx message n of
        Inl e \<Rightarrow> (Inl e, n)
      | Inr signed_msg \<Rightarrow> Write E clientID signed_msg n)"

definition Tell :: "env \<Rightarrow> nat \<Rightarrow> go_context \<Rightarrow> proto_message option \<Rightarrow> Network \<Rightarrow> unit result \<times> Network" where
  "Tell E c ctx message n =
     (case PrepareMessage E ctx message n of
        Inl e \<Rightarrow> (Inl e, n)
      | Inr signed_msg \<Rightarrow> Write E (PeerID (client_of n c)) signed_msg n)"

definition TellByAddr :: "env \<Rightarrow> nat \<Rightarrow> go_context \<Rightarrow> proto_message option \<Rightarrow> Network \<Rightarrow> unit result \<times> Network" where
  "TellByAddr E c ctx message n =
     (case PrepareMessage E ctx message n of
        Inl e \<Rightarrow> (Inl e, n)
      | Inr signed_msg \<Rightarrow> Write E (client_Address (client_of n c)) signed_msg n)"

definition client_Write :: "env \<Rightarrow> nat \<Rightarrow> bytes \<Rightarrow> Network \<Rightarrow> nat result \<times> Network" where
  "client_Write E c data n =
     (if (case writeDeadline (client_stream (client_of n c)) of Some d \<Rightarrow> d < time_Now E | None \<Rightarrow> False)
      then (Inl (Err ''write deadline exceeded''), n)
      else case Tell E c (WithSignMessage context_Background True) (Some \<lparr>TypeOf = ''*protobuf.Bytes'', Content = data\<rparr>) n of
             (Inl e, n1) \<Rightarrow> (Inl e, n1)
           | (Inr _, n1) \<Rightarrow> (Inr (length data), n1))"

section \<open>Broadcasts\<close>

fun write_each :: "env \<Rightarrow> string list \<Rightarrow> Message \<Rightarrow> Network \<Rightarrow> unit result \<times> Network" where
  "write_each E [] message n = (Inr (), n)"
| "write_each E (target # targets) message n =
     (case Write E target message n of
        (Inr _, n1) \<Rightarrow> write_each E targets message n1
      | (Inl (Err _), n1) \<Rightarrow> write_each E targets message n1
      | (Inl p, n1) \<Rightarrow> (Inl p, n1))"

definition broadcast :: "env \<Rightarrow> go_context \<Rightarrow> proto_message option \<Rightarrow> (Network \<Rightarrow> string list) \<Rightarrow> Network \<Rightarrow> unit result \<times> Network" where
  "broadcast E ctx message targets n =
     (case PrepareMessage E ctx message n of
        Inl (Err _) \<Rightarrow> (Inr (), n)
      | Inl p \<Rightarrow> (Inl p, n)
      | Inr signed_msg \<Rightarrow> write_each E (targets n) signed_msg n)"

definition EachPeer :: "Network \<Rightarrow> PeerClient list" where
  "EachPeer n = map (\<lambda>(_, c). client_of n c) (peers n)"

definition Broadcast :: "env \<Rightarrow> go_context \<Rightarrow> proto_message option \<Rightarrow> Network \<Rightarrow> unit result \<times> Network" where
  "Broadcast E ctx message n = broadcast E ctx message (\<lambda>n. map PeerID (EachPeer n)) n"

definition BroadcastToPeers :: "env \<Rightarrow> go_context \<Rightarrow> proto_message option \<Rightarrow> Network \<Rightarrow> unit result \<times> Network" where
  "BroadcastToPeers E ctx message n =
     (case PrepareMessage E ctx message n of
        Inl (Err _) \<Rightarrow> (Inr (), n)
      | Inl p \<Rightarrow> (Inl p, n)
      | Inr signed_msg \<Rightarrow>
          if peers n = [] then (Inr (), n)
          else case GetWorkingProxyServer n of
                 Inl e \<Rightarrow> (Inl e, n)
               | Inr (proxyAddr, _) \<Rightarrow>
                   write_each E (map PeerID (filter (\<lambda>c. client_Address c \<noteq> proxyAddr) (EachPeer n))) signed_msg n)"

definition BroadcastByClientIDs ::
  "env \<Rightarrow> go_context \<Rightarrow> proto_message option \<Rightarrow> string list \<Rightarrow> Network \<Rightarrow> unit result \<times> Network" where
  "BroadcastByClientIDs E ctx message clientIDs n = broadcast E ctx message (\<lambda>_. clientIDs) n"

definition BroadcastByAddresses ::
  "env \<Rightarrow> go_context \<Rightarrow> proto_message option \<Rightarrow> string list \<Rightarrow> Network \<Rightarrow> unit result \<times> Network" where
  "BroadcastByAddresses E ctx message addresses n = broadcast E ctx message (\<lambda>_. addresses) n"

definition BroadcastByIDs ::
  "env \<Rightarrow> go_context \<Rightarrow> proto_message option \<Rightarrow> ID list \<Rightarrow> Network \<Rightarrow> unit result \<times> Network" where
  "BroadcastByIDs E ctx message ids n = broadcast E ctx message (\<lambda>_. map Address ids) n"

text \<open>\<^verbatim>\<open>Range\<close> stops when the callback returns false, here after more than \<open>3 * K\<close> identifiers.\<close>

definition sampled :: "int \<Rightarrow> Network \<Rightarrow> string list" where
  "sampled K n = take (nat (K * 3) + 1) (map ClientID (EachPeer n))"

definition BroadcastRandomly ::
  "env \<Rightarrow> go_context \<Rightarrow> proto_message option \<Rightarrow> int \<Rightarrow> (string list \<Rightarrow> string list) \<Rightarrow> Network \<Rightarrow> string list result \<times> Network" where
  "BroadcastRandomly E ctx message K shuffle n =
     (let cids = shuffle (sampled K n);
          k = (if int (length cids) < K then int (length cids) else K)
      in if k < 0 then (Inl (Panic ''slice bounds out of range''), n)
         else case BroadcastByClientIDs E ctx message (take (nat k) cids) n of
                (Inl e, n1) \<Rightarrow> (Inl e, n1)
              | (Inr _, n1) \<Rightarrow> (Inr cids, n1))"

end
