(* ===== verification/Dispatch.thy ===== *)
theory Dispatch
  imports Message_Send
begin

text \<open>
  Requests and the dispatch of received messages (\<^verbatim>\<open>network/client.go\<close>, \<open>dispatchMessage\<close> of
  \<^verbatim>\<open>network/network.go\<close>). A request is split where it waits: \<open>Request\<close> sends and returns the nonce it
  waits on, \<open>Request_wait\<close> is the \<^verbatim>\<open>select\<close> with the case that fires.
\<close>

section \<open>Requests, replies and acknowledgements\<close>

definition REQUEST_REPLY_TIMEOUT :: string where
  "REQUEST_REPLY_TIMEOUT = ''client sync request reply timeout''"

definition DEFAULT_ACK_REPLY_CAPACITY :: nat where
  "DEFAULT_ACK_REPLY_CAPACITY = 4096"

definition stop_tracking :: "nat \<Rightarrow> uint64 \<Rightarrow> Network \<Rightarrow> Network" where
  "stop_tracking c nonce n = update_client c (\<lambda>cl. cl\<lparr>Requests := map_Delete nonce (Requests cl)\<rparr>) n"

definition Request ::
  "env \<Rightarrow> nat \<Rightarrow> go_context option \<Rightarrow> proto_message option \<Rightarrow> Network \<Rightarrow> uint64 result \<times> Network" where
  "Request E c ctx0 req n =
     (case ctx0 of
        None \<Rightarrow> (Inl (Err ''network: invalid context''), n)
      | Some ctx \<Rightarrow>
          (case ctx_Err ctx of
             Some e \<Rightarrow> (Inl e, n)
           | None \<Rightarrow>
               (case PrepareMessage E ctx req n of
                  Inl e \<Rightarrow> (Inl e, n)
                | Inr msg \<Rightarrow>
                    let cl = client_of n c;
                        nonce = client_RequestNonce cl + 1;
                        n1 = update_client c (\<lambda>cl. cl\<lparr>client_RequestNonce := nonce,
                               Requests := Store nonce \<lparr>req_data = [], req_closed = False\<rparr> (Requests cl)\<rparr>) n
                    in (case Write E (PeerID cl) (msg\<lparr>RequestNonce := nonce\<rparr>) n1 of
                          (Inl e, n2) \<Rightarrow> (Inl e, stop_tracking c nonce n2)
                        | (Inr _, n2) \<Rightarrow> (Inr nonce, n2)))))"

datatype wait_case = Timeout | Replied | CtxDone go_error

definition Request_wait :: "nat \<Rightarrow> uint64 \<Rightarrow> wait_case \<Rightarrow> Network \<Rightarrow> proto_message result \<times> Network" where
  "Request_wait c nonce w n =
     (case w of
        Timeout \<Rightarrow> (Inl (Err REQUEST_REPLY_TIMEOUT), stop_tracking c nonce n)
      | CtxDone e \<Rightarrow> (Inl e, stop_tracking c nonce n)
      | Replied \<Rightarrow>
          (case Load (Requests (client_of n c)) nonce of
             Some r \<Rightarrow>
               (case req_data r of
                  res # _ \<Rightarrow> (Inr res, stop_tracking c nonce n)
                | [] \<Rightarrow> (Inl (Blocks ''request''), n))
           | None \<Rightarrow> (Inl (Blocks ''request''), n)))"

definition Reply :: "env \<Rightarrow> nat \<Rightarrow> go_context \<Rightarrow> uint64 \<Rightarrow> proto_message option \<Rightarrow> Network \<Rightarrow> unit result \<times> Network" where
  "Reply E c ctx nonce message n =
     (case PrepareMessage E ctx message n of
        Inl e \<Rightarrow> (Inl e, n)
      | Inr msg \<Rightarrow> Write E (PeerID (client_of n c)) (msg\<lparr>RequestNonce := nonce, ReplyFlag := True\<rparr>) n)"

text \<open>\<^verbatim>\<open>time.Now().Second()\<close> is the second within the minute.\<close>

definition AsyncSendAndWaitAck ::
  "env \<Rightarrow> nat \<Rightarrow> go_context option \<Rightarrow> proto_message option \<Rightarrow> string \<Rightarrow> Network \<Rightarrow> unit result \<times> Network" where
  "AsyncSendAndWaitAck E c ctx0 req msgID n =
     (case ctx0 of
        None \<Rightarrow> (Inl (Err ''network: invalid context''), n)
      | Some ctx \<Rightarrow>
          (case ctx_Err ctx of
             Some e \<Rightarrow> (Inl e, n)
           | None \<Rightarrow>
               let cl = client_of n c
               in if DEFAULT_ACK_REPLY_CAPACITY \<le> waitAckLen cl then (Inl (Err ''async send map filled fully''), n)
                  else if Load (SyncWaitAck cl) msgID \<noteq> None then (Inl (Err ''has been in sending queue''), n)
                  else (case PrepareMessageWithMsgID E ctx req msgID n of
                          Inl e \<Rightarrow> (Inl e, n)
                        | Inr msg \<Rightarrow>
                            (case Write E (PeerID cl) msg n of
                               (Inl e, n1) \<Rightarrow> (Inl e, n1)
                             | (Inr _, n1) \<Rightarrow>
                                 (Inr (), update_client c (\<lambda>cl. cl\<lparr>SyncWaitAck := Store msgID
                                    \<lparr>ack_MessageID = msgID, ack_Message = the req, WhenSend = time_Now E mod 60,
                                     Frequency = 1, LatestSendSuccessAt = 0\<rparr> (SyncWaitAck cl)\<rparr>) n1)))))"

section \<open>Dispatch\<close>

text \<open>The message types that \<open>dispatchMessage\<close> knows without the registry.\<close>

definition builtin_type :: "Opcode \<Rightarrow> string option" where
  "builtin_type code =
     (if code = BytesCode then Some ''*protobuf.Bytes''
      else if code = PingCode then Some ''*protobuf.Ping''
      else if code = PongCode then Some ''*protobuf.Pong''
      else if code = LookupNodeRequestCode then Some ''*protobuf.LookupNodeRequest''
      else if code = LookupNodeResponseCode then Some ''*protobuf.LookupNodeResponse''
      else if code = DisconnectCode then Some ''*protobuf.Disconnect''
      else if code = ProxyRequestCode then Some ''*protobuf.ProxyRequest''
      else if code = ProxyResponseCode then Some ''*protobuf.ProxyResponse''
      else if code = KeepaliveCode then Some ''*protobuf.Keepalive''
      else if code = KeepaliveResponseCode then Some ''*protobuf.KeepaliveResponse''
      else None)"

definition empty_message :: "opcode_tables \<Rightarrow> Opcode \<Rightarrow> proto_message option" where
  "empty_message tables code =
     (case builtin_type code of
        Some t \<Rightarrow> Some (zero_message t)
      | None \<Rightarrow>
          if code = UnregisteredCode then None
          else (case GetMessageType tables code of Inr m \<Rightarrow> Some m | Inl _ \<Rightarrow> None))"

definition decode_body :: "env \<Rightarrow> opcode_tables \<Rightarrow> Message \<Rightarrow> proto_message option" where
  "decode_body E tables msg =
     (case empty_message tables (Opcode_of msg) of
        None \<Rightarrow> None
      | Some ptr \<Rightarrow>
          if 0 < length (Message_body msg)
          then (case unmarshal_proto E ptr (Message_body msg) of Inr m \<Rightarrow> Some m | Inl _ \<Rightarrow> None)
          else Some ptr)"

text \<open>
  Delivery of a decoded message: to the request it answers (whose channel holds one message), to the
  byte stream, or to every component. \<open>logs_sender\<close> is where a log statement dereferences
  \<^verbatim>\<open>msg.Sender\<close>.
\<close>

definition logs_sender :: "Network \<Rightarrow> Message \<Rightarrow> proto_message \<Rightarrow> bool" where
  "logs_sender n msg ptr =
     (1000 \<le> Opcode_of msg \<and> Message_body msg = [] \<or>
      0 < RequestNonce msg \<and> ReplyFlag msg \<or>
      1000 \<le> Opcode_of msg \<and> TypeOf ptr \<noteq> ''*protobuf.Bytes'' \<and> comp_values (Components n) \<noteq> [])"

definition deliver :: "nat \<Rightarrow> Message \<Rightarrow> proto_message \<Rightarrow> Network \<Rightarrow> unit result \<times> Network" where
  "deliver c msg ptr n =
     (case (if 0 < RequestNonce msg \<and> ReplyFlag msg then Load (Requests (client_of n c)) (RequestNonce msg) else None) of
        Some r \<Rightarrow>
          if req_data r = []
          then (Inr (), update_client c (\<lambda>cl. cl\<lparr>Requests := Store (RequestNonce msg) (r\<lparr>req_data := [ptr]\<rparr>) (Requests cl)\<rparr>) n)
          else (Inl (Blocks ''reply''), n)
      | None \<Rightarrow>
          if TypeOf ptr = ''*protobuf.Bytes'' then (Inr (), update_client c (handleBytes (Content ptr)) n)
          else (Inr (), notify_all (\<lambda>comp. Receive comp c ptr (RequestNonce msg)) n))"

definition dispatchMessage :: "env \<Rightarrow> nat \<Rightarrow> Message \<Rightarrow> Network \<Rightarrow> unit result \<times> Network" where
  "dispatchMessage E c msg n =
     (if \<not> IsIncomingReady (client_of n c) then (Inr (), n)
      else case decode_body E (opcodes n) msg of
             None \<Rightarrow> (Inr (), n)
           | Some ptr \<Rightarrow>
               if logs_sender n msg ptr \<and> Sender msg = None then (Inl (Panic ''nil pointer dereference''), n)
               else deliver c msg ptr (update_client c (\<lambda>cl. cl\<lparr>client_Time := time_Now E\<rparr>) n))"

end
