(* ===== verification/Conn_Manager.thy ===== *)
theory Conn_Manager
  imports Dispatch
begin

text \<open>
  Connections (\<^verbatim>\<open>network/network.go\<close>, \<^verbatim>\<open>network/transport/*.go\<close>): dialling through a transport layer,
  the tables of peers, connections, streams and states, and the handling of received messages on
  TCP, KCP, QUIC and UDP.
\<close>

section \<open>Transport layers\<close>

definition resolveTcpAddr :: "string \<Rightarrow> string" where
  "resolveTcpAddr address = (if prefix ''tcp://'' address then drop (length ''tcp://'') address else address)"

text \<open>
  \<open>None\<close> is the nil connection with a nil error that the QUIC layer returns, and every layer but TCP
  when TLS is enabled.
\<close>

type_synonym dialled = "(Conn \<times> net_conn) option result"

definition TCP_Dial :: "env \<Rightarrow> string \<Rightarrow> int \<Rightarrow> dialled" where
  "TCP_Dial E address timeout =
     rbind (net_Dial E ''tcp'' (resolveTcpAddr address) timeout) (\<lambda>(i, s). Inr (Some (TCPConn i, s)))"

definition KCP_Dial :: "env \<Rightarrow> string \<Rightarrow> int \<Rightarrow> dialled" where
  "KCP_Dial E address timeout = rbind (net_Dial E ''kcp'' address timeout) (\<lambda>(i, s). Inr (Some (KCPSession i, s)))"

definition UDP_Dial :: "env \<Rightarrow> string \<Rightarrow> int \<Rightarrow> dialled" where
  "UDP_Dial E address timeout = rbind (net_Dial E ''udp'' address timeout) (\<lambda>(i, s). Inr (Some (UDPConn i, s)))"

definition Quic_Dial :: "env \<Rightarrow> string \<Rightarrow> int \<Rightarrow> dialled" where
  "Quic_Dial E address timeout = Inr None"

definition TCP_TLSDial :: "env \<Rightarrow> string \<Rightarrow> int \<Rightarrow> string \<Rightarrow> string \<Rightarrow> string \<Rightarrow> dialled" where
  "TCP_TLSDial E address timeout ca_path cert_path key_path =
     rbind (ReadFile E ca_path) (\<lambda>cacert.
     rbind (LoadX509KeyPair E cert_path key_path) (\<lambda>cert.
     if \<not> AppendCertsFromPEM E cacert then Inl (Err ''[p2p]failed to parse root certificate'')
     else rbind (tls_Dial E address timeout cacert cert) (\<lambda>(i, s). Inr (Some (TCPConn i, s)))))"

definition Layer_Dial :: "env \<Rightarrow> Layer \<Rightarrow> string \<Rightarrow> int \<Rightarrow> dialled" where
  "Layer_Dial E layer =
     (case layer of TCP \<Rightarrow> TCP_Dial E | KCP \<Rightarrow> KCP_Dial E | UDP \<Rightarrow> UDP_Dial E | Quic \<Rightarrow> Quic_Dial E)"

definition Layer_TLSDial :: "env \<Rightarrow> Layer \<Rightarrow> string \<Rightarrow> int \<Rightarrow> string \<Rightarrow> string \<Rightarrow> string \<Rightarrow> dialled" where
  "Layer_TLSDial E layer address timeout ca_path cert_path key_path =
     (case layer of TCP \<Rightarrow> TCP_TLSDial E address timeout ca_path cert_path key_path | _ \<Rightarrow> Inr None)"

section \<open>Dialling\<close>

definition open_socket :: "(Conn \<times> net_conn) option \<Rightarrow> Network \<Rightarrow> Network" where
  "open_socket d n = (case d of None \<Rightarrow> n | Some (k, s) \<Rightarrow> n\<lparr>sockets := Store k s (sockets n)\<rparr>)"

definition start_accept :: "string \<Rightarrow> Conn option \<Rightarrow> nat \<Rightarrow> Network \<Rightarrow> Conn option result \<times> Network" where
  "start_accept protocol cn c n =
     (if protocol = ''tcp'' \<or> protocol = ''kcp''
      then (case cn of
              Some k \<Rightarrow>
                if is_net_Conn k then (Inr cn, n\<lparr>goroutines := goroutines n @ [AcceptLoop k (Some c)]\<rparr>)
                else (Inl (Panic ''interface conversion''), n)
            | None \<Rightarrow> (Inl (Panic ''interface conversion''), n))
      else if protocol = ''quic''
      then (case cn of
              Some k \<Rightarrow>
                if is_QuicStream k then (Inr cn, n\<lparr>goroutines := goroutines n @ [AcceptQuicLoop k (Some c)]\<rparr>)
                else (Inl (Panic ''interface conversion''), n)
            | None \<Rightarrow> (Inl (Panic ''interface conversion''), n))
      else (Inr cn, n))"

definition Dial :: "env \<Rightarrow> string \<Rightarrow> nat \<Rightarrow> Network \<Rightarrow> Conn option result \<times> Network" where
  "Dial E address c n =
     (case ParseAddress address of
        Inl e \<Rightarrow> (Inl e, n)
      | Inr addrInfo \<Rightarrow>
          (case (if Host addrInfo \<noteq> ''127.0.0.1'' then ParseAddress (net_Address n) else Inr addrInfo) of
             Inl e \<Rightarrow> (Inl e, n)
           | Inr _ \<Rightarrow>
               (case Load (transports n) (Protocol addrInfo) of
                  None \<Rightarrow> (Inl (Panic ''log.Fatal''), n)
                | Some t \<Rightarrow>
                    if IsCAEnable n \<and> (case GetCAFileConfig n of (ca, cert, key) \<Rightarrow> ca = [] \<or> cert = [] \<or> key = [])
                    then (Inl (Panic ''log.Fatal''), n)
                    else (case (if IsCAEnable n
                                then (case GetCAFileConfig n of (ca, cert, key) \<Rightarrow>
                                  Layer_TLSDial E t (HostPort addrInfo) (dialTimeout n) ca cert key)
                                else Layer_Dial E t (HostPort addrInfo) (dialTimeout n)) of
                            Inl e \<Rightarrow> (Inl e, n)
                          | Inr d \<Rightarrow> start_accept (Protocol addrInfo) (map_option fst d) c (open_socket d n)))))"

section \<open>Connection tables\<close>

text \<open>\<^verbatim>\<open>bufio.NewWriterSize\<close>: a size that is not positive means 4096 bytes.\<close>

definition NewWriterSize :: "int \<Rightarrow> net_conn \<Rightarrow> bufio_Writer" where
  "NewWriterSize b s = \<lparr>buffered = [], bsize = (if b \<le> 0 then 4096 else nat b), berr = None, wr = s\<rparr>"

definition dead_socket :: net_conn where
  "dead_socket = \<lparr>sent = [], budget = Some 0\<rparr>"

definition conn_state :: "(Conn \<Rightarrow> bool) \<Rightarrow> bool \<Rightarrow> Conn option \<Rightarrow> Network \<Rightarrow> ConnState" where
  "conn_state is_type nil_iface cn n =
     (let target = (case cn of Some k \<Rightarrow> if is_type k then Some k else None | None \<Rightarrow> None);
          s = (case target of None \<Rightarrow> dead_socket | Some k \<Rightarrow> (case Load (sockets n) k of None \<Rightarrow> dead_socket | Some s \<Rightarrow> s))
      in \<lparr>cs_conn = cn, wr_nil = (nil_iface \<and> target = None), wr_conn = target,
          writer = NewWriterSize (writeBufferSize (opts n)) s, messageNonce = 0\<rparr>)"

definition initConnection :: "string \<Rightarrow> string \<Rightarrow> Conn option \<Rightarrow> Network \<Rightarrow> Network result" where
  "initConnection address peerID cn n =
     (case ParseAddress address of
        Inl e \<Rightarrow> Inl (Panic ''nil pointer dereference'')
      | Inr addrInfo \<Rightarrow>
          let store = (\<lambda>st. n\<lparr>connections := Store peerID st (connections n)\<rparr>)
          in if Protocol addrInfo = ''tcp'' \<or> Protocol addrInfo = ''kcp'' then Inr (store (conn_state is_net_Conn True cn n))
             else if Protocol addrInfo = ''udp'' then Inr (store (conn_state is_UDPConn False cn n))
             else if Protocol addrInfo = ''quic'' then Inr (store (conn_state is_QuicStream True cn n))
             else Inr n)"

definition move :: "string \<Rightarrow> string \<Rightarrow> 'v \<Rightarrow> (string, 'v) sync_map \<Rightarrow> (string, 'v) sync_map" where
  "move address peerID v m = map_Delete address (Store peerID v m)"

definition resetConnMgrItemByPeerID :: "string \<Rightarrow> string \<Rightarrow> Network \<Rightarrow> Network" where
  "resetConnMgrItemByPeerID address peerID n =
     (case Load (peers n) address of
        None \<Rightarrow> n
      | Some c \<Rightarrow>
          let n1 = n\<lparr>peers := move address peerID c (peers n)\<rparr>
          in (case Load (connections n1) address of
                None \<Rightarrow> n1
              | Some cn \<Rightarrow>
                  let n2 = n1\<lparr>connections := move address peerID cn (connections n1)\<rparr>
                  in (case Load (connStates n2) address of
                        None \<Rightarrow> n2
                      | Some st \<Rightarrow>
                          let n3 = n2\<lparr>connStates := move address peerID st (connStates n2)\<rparr>
                          in (case Load (streams n3) address of
                                None \<Rightarrow> n3
                              | Some s \<Rightarrow> n3\<lparr>streams := move address peerID s (streams n3)\<rparr>))))"

definition NewMultiStream :: MultiStream where
  "NewMultiStream = \<lparr>idIncCounter = 0, stream_map = []\<rparr>"

text \<open>\<open>Init\<close> runs the connect callbacks and starts the two goroutines of a client.\<close>

definition Init :: "nat \<Rightarrow> Network \<Rightarrow> Network" where
  "Init c n = (let n1 = notify_all (\<lambda>comp. PeerConnect comp c) n
     in n1\<lparr>goroutines := goroutines n1 @ [ExecuteJobs c, LoopStreamSend c]\<rparr>)"

text \<open>
  The new client object is allocated at the end of \<open>clients\<close>. Its channels are fresh, so that the two
  \<^verbatim>\<open>close\<close> calls (\<open>setOutgoingReady\<close>, deferred, and \<open>setIncomingReady\<close>) cannot panic.
\<close>

definition register_client :: "env \<Rightarrow> string \<Rightarrow> string \<Rightarrow> Conn option \<Rightarrow> nat \<Rightarrow> Network \<Rightarrow> nat result \<times> Network" where
  "register_client E address peerID cn c n =
     (case initConnection address peerID cn n of
        Inl e \<Rightarrow> (Inl e, n)
      | Inr n1 \<Rightarrow>
          let n2 = n1\<lparr>peers := Store peerID c (peers n1), streams := Store peerID NewMultiStream (streams n1)\<rparr>;
              n3 = UpdateConnState peerID PEER_REACHABLE (Init c n2)
          in (Inr c, update_client c (\<lambda>cl. cl\<lparr>incomingReady := True, outgoingReady := True\<rparr>) n3))"

definition connect_new ::
  "env \<Rightarrow> string \<Rightarrow> string \<Rightarrow> Conn option \<Rightarrow> PeerClient \<Rightarrow> Network \<Rightarrow> nat result \<times> Network" where
  "connect_new E address peerID conn0 clientNew n =
     (let c = length (clients n);
          n2 = n\<lparr>clients := clients n @ [clientNew\<lparr>PubKey := peerID\<rparr>]\<rparr>;
          cn = (case conn0 of Some k \<Rightarrow> if is_UDPConn k then None else Some k | None \<Rightarrow> None)
      in (case cn of
            Some k \<Rightarrow> register_client E address peerID (Some k) c n2
          | None \<Rightarrow>
              (case Dial E address c n2 of
                 (Inl e, n3) \<Rightarrow>
                   (Inl e, update_client c (\<lambda>cl. cl\<lparr>outgoingReady := True\<rparr>)
                      (n3\<lparr>peers := map_Delete peerID (peers n3)\<rparr>))
               | (Inr d, n3) \<Rightarrow> register_client E address peerID d c n3)))"

definition getOrSetPeerClient ::
  "env \<Rightarrow> string \<Rightarrow> string \<Rightarrow> Conn option \<Rightarrow> Network \<Rightarrow> nat result \<times> Network" where
  "getOrSetPeerClient E address0 peerID0 conn0 n0 =
     (let peerID = (if peerID0 = [] then address0 else peerID0)
      in (case ToUnifiedAddress (resolve E) (lookups n0) address0 of
            (Inl e, cache) \<Rightarrow> (Inl e, n0\<lparr>lookups := cache\<rparr>)
          | (Inr address, cache) \<Rightarrow>
              let n = n0\<lparr>lookups := cache\<rparr>
              in if address = net_Address n then (Inl (Err ''network: peer should not dial itself''), n)
                 else (case createPeerClient n address (time_Now E) of
                         Inl e \<Rightarrow> (Inl e, n)
                       | Inr clientNew \<Rightarrow>
                           let n1 = (if address \<noteq> peerID then resetConnMgrItemByPeerID address peerID n else n)
                           in (case Load (peers n1) peerID of
                                 Some c \<Rightarrow>
                                   if \<not> IsOutgoingReady (client_of n1 c) then (Inl (Err ''network: peer failed to connect''), n1)
                                   else (Inr c, n1)
                               | None \<Rightarrow> connect_new E address peerID conn0 clientNew n1))))"

definition Client :: "env \<Rightarrow> string \<Rightarrow> string \<Rightarrow> Network \<Rightarrow> nat result \<times> Network" where
  "Client E address peerID n = getOrSetPeerClient E address peerID None n"

section \<open>Connecting\<close>

text \<open>
  The handshake wait: the ticker fires first (\<open>timer\<close>) and the client is closed, or the remote public
  key has been received.
\<close>

definition waitBootstrapSuccess :: "bool \<Rightarrow> nat \<Rightarrow> Network \<Rightarrow> bool result \<times> Network" where
  "waitBootstrapSuccess timer c n =
     (if timer
      then (case Close c n of
              (Inl (Err _), n1) \<Rightarrow> (Inr False, n1)
            | (Inl p, n1) \<Rightarrow> (Inl p, n1)
            | (Inr _, n1) \<Rightarrow> (Inr False, n1))
      else if RecvRemotePubKey (client_of n c) then (Inr True, n)
      else (Inl (Blocks ''bootstrap''), n))"

definition ping :: proto_message where
  "ping = zero_message ''*protobuf.Ping''"

text \<open>Between sending the ping and the wait, other goroutines run: \<open>others\<close>.\<close>

definition ConnectPeer ::
  "env \<Rightarrow> (Network \<Rightarrow> Network) \<Rightarrow> bool \<Rightarrow> string \<Rightarrow> Network \<Rightarrow> string result \<times> Network" where
  "ConnectPeer E others timer address n =
     (if ConnectionStateExists n address then (Inr [], n)
      else if ClientExist n address then (Inr [], n)
      else (case Client E address [] n of
              (Inl e, n1) \<Rightarrow> (Inl e, n1)
            | (Inr c, n1) \<Rightarrow>
                (case TellByAddr E c context_Background (Some ping) n1 of
                   (Inl e, n2) \<Rightarrow> (Inl e, n2)
                 | (Inr _, n2) \<Rightarrow>
                     (case waitBootstrapSuccess timer c (others n2) of
                        (Inl e, n3) \<Rightarrow> (Inl e, n3)
                      | (Inr False, n3) \<Rightarrow> (Inl (Err ''wait pubkey err in connect''), n3)
                      | (Inr True, n3) \<Rightarrow> (Inr (ClientID (client_of n3 c)), n3)))))"

definition ReconnectPeer ::
  "env \<Rightarrow> (Network \<Rightarrow> Network) \<Rightarrow> bool \<Rightarrow> string \<Rightarrow> Network \<Rightarrow> string result \<times> Network" where
  "ReconnectPeer E others timer address n =
     (case GetPeerClient n address of
        None \<Rightarrow> ConnectPeer E others timer address n
      | Some c \<Rightarrow>
          (case Close c (update_client c DisableBackoff n) of
             (Inl (Err _), n1) \<Rightarrow> ConnectPeer E others timer address n1
           | (Inl p, n1) \<Rightarrow> (Inl p, n1)
           | (Inr _, n1) \<Rightarrow> ConnectPeer E others timer address n1))"

definition ConnectProxyServer :: "env \<Rightarrow> string \<Rightarrow> Network \<Rightarrow> unit result \<times> Network" where
  "ConnectProxyServer E address n =
     (if ConnectionStateExists n address then (Inr (), n)
      else (case Client E address [] n of
              (Inl e, n1) \<Rightarrow> (Inl e, n1)
            | (Inr c, n1) \<Rightarrow> TellByAddr E c context_Background (Some (zero_message ''*protobuf.ProxyRequest'')) n1))"

definition ReconnectProxyServer :: "env \<Rightarrow> string \<Rightarrow> string \<Rightarrow> Network \<Rightarrow> unit result \<times> Network" where
  "ReconnectProxyServer E address peerID n =
     (case (case GetPeerClient n peerID of
              None \<Rightarrow> (Inr (), n)
            | Some c \<Rightarrow> Close c (update_client c DisableBackoff n)) of
        (Inl (Panic p), n1) \<Rightarrow> (Inl (Panic p), n1)
      | (Inl (Blocks p), n1) \<Rightarrow> (Inl (Blocks p), n1)
      | (_, n1) \<Rightarrow>
          (case ParseAddress address of
             Inl e \<Rightarrow> (Inl (Panic ''nil pointer dereference''), n1)
           | Inr addrInfo \<Rightarrow>
               ConnectProxyServer E address (n1\<lparr>ProxyService := (ProxyService n1)\<lparr>
                 Finish := Store (Protocol addrInfo) False (Finish (ProxyService n1))\<rparr>\<rparr>)))"

text \<open>\<open>timers\<close> says for each resolved address whether the handshake wait times out.\<close>

fun bootstrap_loop ::
  "env \<Rightarrow> (Network \<Rightarrow> Network) \<Rightarrow> (string \<Rightarrow> bool) \<Rightarrow> string list \<Rightarrow> Network \<Rightarrow> string list result \<times> Network" where
  "bootstrap_loop E others timers [] n = (Inr [], n)"
| "bootstrap_loop E others timers (address # rest) n =
     (case Client E address [] n of
        (Inl (Err _), n1) \<Rightarrow> bootstrap_loop E others timers rest n1
      | (Inl p, n1) \<Rightarrow> (Inl p, n1)
      | (Inr c, n1) \<Rightarrow>
          (case TellByAddr E c context_Background (Some ping) n1 of
             (Inl (Err _), n2) \<Rightarrow> bootstrap_loop E others timers rest n2
           | (Inl p, n2) \<Rightarrow> (Inl p, n2)
           | (Inr _, n2) \<Rightarrow>
               (case waitBootstrapSuccess (timers address) c (others n2) of
                  (Inl p, n3) \<Rightarrow> (Inl p, n3)
                | (Inr False, n3) \<Rightarrow> bootstrap_loop E others timers rest n3
                | (Inr True, n3) \<Rightarrow>
                    (case bootstrap_loop E others timers rest n3 of
                       (Inl p, n4) \<Rightarrow> (Inl p, n4)
                     | (Inr ids, n4) \<Rightarrow> (Inr (ClientID (client_of n3 c) # ids), n4)))))"

definition Bootstrap ::
  "env \<Rightarrow> (Network \<Rightarrow> Network) \<Rightarrow> (string \<Rightarrow> bool) \<Rightarrow> string list \<Rightarrow> Network \<Rightarrow> string list result \<times> Network" where
  "Bootstrap E others timers addresses n =
     (case BlockUntilListening n of
        Inl e \<Rightarrow> (Inl e, n)
      | Inr _ \<Rightarrow>
          (case FilterPeers (resolve E) (lookups n) (net_Address n) addresses of
             (filtered, cache) \<Rightarrow> bootstrap_loop E others timers filtered (n\<lparr>lookups := cache\<rparr>)))"

text \<open>Shutting the node down closes every peer; the registry is emptied first.\<close>

fun close_each :: "nat list \<Rightarrow> Network \<Rightarrow> unit result \<times> Network" where
  "close_each [] n = (Inr (), n)"
| "close_each (c # cs) n =
     (case Close c n of
        (Inl (Err _), n1) \<Rightarrow> close_each cs n1
      | (Inl p, n1) \<Rightarrow> (Inl p, n1)
      | (Inr _, n1) \<Rightarrow> close_each cs n1)"

definition Network_Close :: "Network \<Rightarrow> unit result \<times> Network" where
  "Network_Close n =
     (case close_each (map snd (peers n)) (n\<lparr>Components := NewComponentList\<rparr>) of
        (Inl e, n1) \<Rightarrow> (Inl e, n1)
      | (Inr _, n1) \<Rightarrow>
          if Kill n1 then (Inl (Panic ''close of closed channel''), n1) else (Inr (), n1\<lparr>Kill := True\<rparr>))"

section \<open>Receiving\<close>

definition signature_ok :: "Network \<Rightarrow> Message \<Rightarrow> ID \<Rightarrow> bool result" where
  "signature_ok n msg sender =
     (case Signature msg of
        None \<Rightarrow> Inr True
      | Some s \<Rightarrow>
          rbind (SerializeMessage sender (Message_body msg)) (\<lambda>serialized.
            Inr (Verify (signaturePolicy (opts n)) (hashPolicy (opts n)) (slice (NetKey sender)) serialized s)))"

text \<open>The two fields of an acknowledgement: the second of the minute and the message id.\<close>

definition ack_message :: "env \<Rightarrow> string \<Rightarrow> proto_message" where
  "ack_message E msgID =
     \<lparr>TypeOf = ''*protobuf.AsyncAckResponse'', Content = of_int (time_Now E mod 60) # str_bytes msgID\<rparr>"

definition reply_ack :: "env \<Rightarrow> nat \<Rightarrow> Message \<Rightarrow> Network \<Rightarrow> unit result \<times> Network" where
  "reply_ack E c msg n =
     (if EnableAckReply (client_of n c) \<and> MessageID msg \<noteq> []
      then (case Tell E c context_Background (Some (ack_message E (MessageID msg))) n of
              (Inl (Err _), n1) \<Rightarrow> (Inr (), n1)
            | r \<Rightarrow> r)
      else (Inr (), n))"

text \<open>The checks between the reception of a message and its dispatch, in the order of the stream loops.\<close>

definition identify :: "env \<Rightarrow> Conn \<Rightarrow> ID \<Rightarrow> Network \<Rightarrow> nat result \<times> Network" where
  "identify E incoming sender n =
     (case getOrSetPeerClient E (Address sender) (hex_EncodeToString (slice (NetKey sender)))
             (if ProxyModeEnable n then None else Some incoming) n of
        (Inl e, n1) \<Rightarrow> (Inl e, n1)
      | (Inr c, n1) \<Rightarrow>
          let n2 = update_client c (\<lambda>cl. cl\<lparr>client_ID := Some sender\<rparr>) n1
          in if ConnectionStateExists n2 (PeerID (client_of n2 c)) then (Inr c, n2)
             else (Inl (Err ''network: failed to load session''), n2))"

definition check_identity :: "nat \<Rightarrow> ID \<Rightarrow> Network \<Rightarrow> unit result" where
  "check_identity c sender n =
     (case client_ID (client_of n c) of
        None \<Rightarrow> Inl (Panic ''nil pointer dereference'')
      | Some i \<Rightarrow> if Equals i sender then Inr () else Inl (Err ''message signed by peer but client is another''))"

definition accept_message :: "env \<Rightarrow> bool \<Rightarrow> Conn \<Rightarrow> Message \<Rightarrow> Network \<Rightarrow> nat result \<times> Network" where
  "accept_message E acks incoming msg n =
     (case Sender msg of
        None \<Rightarrow> (Inl (Panic ''nil pointer dereference''), n)
      | Some sender \<Rightarrow>
          (case identify E incoming sender n of
             (Inl e, n1) \<Rightarrow> (Inl e, n1)
           | (Inr c, n1) \<Rightarrow>
               (case signature_ok n1 msg sender of
                  Inl e \<Rightarrow> (Inl e, n1)
                | Inr False \<Rightarrow> (Inl (Err ''received message had an malformed signature''), n1)
                | Inr True \<Rightarrow>
                    (case check_identity c sender n1 of
                       Inl e \<Rightarrow> (Inl e, n1)
                     | Inr _ \<Rightarrow>
                         (case (if acks then reply_ack E c msg n1 else (Inr (), n1)) of
                            (Inl e, n2) \<Rightarrow> (Inl e, n2)
                          | (Inr _, n2) \<Rightarrow>
                              (case dispatchMessage E c msg n2 of
                                 (Inl e, n3) \<Rightarrow> (Inl e, n3)
                               | (Inr _, n3) \<Rightarrow> (Inr c, n3)))))))"

text \<open>
  The receive loops, with the received byte segments. \<open>fuel\<close> bounds the number of messages; each
  message consumes at least one byte, so the number of bytes is enough.
\<close>

fun accept_loop ::
  "(Network \<Rightarrow> bytes list \<Rightarrow> (Message \<times> bytes list) result) \<Rightarrow> env \<Rightarrow> bool \<Rightarrow> Conn \<Rightarrow> nat \<Rightarrow> bytes list \<Rightarrow> Network \<Rightarrow>
    go_error \<times> Network" where
  "accept_loop receive E acks incoming 0 segs n = (Blocks ''fuel'', n)"
| "accept_loop receive E acks incoming (Suc fuel) segs n =
     (case receive n segs of
        Inl e \<Rightarrow> (e, n)
      | Inr (msg, rest) \<Rightarrow>
          (case accept_message E acks incoming msg n of
             (Inl e, n1) \<Rightarrow> (e, n1)
           | (Inr _, n1) \<Rightarrow> accept_loop receive E acks incoming fuel rest n1))"

definition finish_accept :: "nat option \<Rightarrow> Conn \<Rightarrow> go_error \<times> Network \<Rightarrow> unit result \<times> Network" where
  "finish_accept cli incoming r =
     (case r of
        (Err e, n) \<Rightarrow>
          (case (case cli of Some c \<Rightarrow> Close c n | None \<Rightarrow> (Inr (), n)) of
             (Inl (Panic p), n1) \<Rightarrow> (Inl (Panic p), n1)
           | (Inl (Blocks p), n1) \<Rightarrow> (Inl (Blocks p), n1)
           | (_, n1) \<Rightarrow> (Inr (), shut incoming n1))
      | (e, n) \<Rightarrow> (Inl e, n))"

definition Accept :: "env \<Rightarrow> Conn \<Rightarrow> nat option \<Rightarrow> nat \<Rightarrow> bytes list \<Rightarrow> Network \<Rightarrow> unit result \<times> Network" where
  "Accept E incoming cli fuel segs n =
     finish_accept cli incoming
       (accept_loop (\<lambda>n. receiveMessage (unmarshal_Message E) (compressors E) (config n)) E True incoming fuel segs n)"

definition AcceptQuic :: "env \<Rightarrow> Conn \<Rightarrow> nat option \<Rightarrow> nat \<Rightarrow> bytes list \<Rightarrow> Network \<Rightarrow> unit result \<times> Network" where
  "AcceptQuic E incoming cli fuel segs n =
     finish_accept cli incoming
       (accept_loop (\<lambda>n. receiveQuicMessage (unmarshal_Message E) (compressors E) (config n)) E False incoming fuel segs n)"

text \<open>
  One datagram of the UDP loop: the signature is checked first, an error only drops the message, and
  the dispatch is queued on the client. The result is false when the loop ends.
\<close>

definition accept_datagram :: "env \<Rightarrow> Conn \<Rightarrow> bytes option \<Rightarrow> Network \<Rightarrow> bool result \<times> Network" where
  "accept_datagram E incoming datagram n =
     (case receiveUDPMessage (unmarshal_Message E) (config n) datagram of
        Inl (Err _) \<Rightarrow> (Inr False, n)
      | Inl p \<Rightarrow> (Inl p, n)
      | Inr None \<Rightarrow> (Inr False, n)
      | Inr (Some msg) \<Rightarrow>
          (case Sender msg of
             None \<Rightarrow> (Inl (Panic ''nil pointer dereference''), n)
           | Some sender \<Rightarrow>
               (case signature_ok n msg sender of
                  Inl e \<Rightarrow> (Inl e, n)
                | Inr False \<Rightarrow> (Inr True, n)
                | Inr True \<Rightarrow>
                    (case identify E incoming sender n of
                       (Inl (Err _), n1) \<Rightarrow> (Inr True, n1)
                     | (Inl p, n1) \<Rightarrow> (Inl p, n1)
                     | (Inr c, n1) \<Rightarrow>
                         (case check_identity c sender n1 of
                            Inl (Err _) \<Rightarrow> (Inr True, n1)
                          | Inl p \<Rightarrow> (Inl p, n1)
                          | Inr _ \<Rightarrow>
                              (case Submit msg (client_of n1 c) of
                                 Inl e \<Rightarrow> (Inl e, n1)
                               | Inr cl \<Rightarrow> (Inr True, update_client c (\<lambda>_. cl) n1)))))))"

text \<open>
  The variable \<^verbatim>\<open>client\<close> of the UDP loop is the result of the last lookup, nil when that failed. When the
  loop ends, that client and the socket are closed. \<open>datagrams\<close> is what the socket delivers; a failed
  read follows the last one.
\<close>

definition datagram_client :: "env \<Rightarrow> Conn \<Rightarrow> bytes option \<Rightarrow> Network \<Rightarrow> nat option \<Rightarrow> nat option" where
  "datagram_client E incoming datagram n cli =
     (case receiveUDPMessage (unmarshal_Message E) (config n) datagram of
        Inr (Some msg) \<Rightarrow>
          (case Sender msg of
             Some sender \<Rightarrow>
               if signature_ok n msg sender = Inr True
               then (case getOrSetPeerClient E (Address sender) (hex_EncodeToString (slice (NetKey sender)))
                            (if ProxyModeEnable n then None else Some incoming) n of
                       (Inr c, _) \<Rightarrow> Some c
                     | (Inl _, _) \<Rightarrow> None)
               else cli
           | None \<Rightarrow> cli)
      | _ \<Rightarrow> cli)"

fun udp_loop :: "env \<Rightarrow> Conn \<Rightarrow> nat option \<Rightarrow> bytes option list \<Rightarrow> Network \<Rightarrow> nat option result \<times> Network" where
  "udp_loop E incoming cli [] n = (Inr cli, n)"
| "udp_loop E incoming cli (datagram # datagrams) n =
     (case accept_datagram E incoming datagram n of
        (Inl e, n1) \<Rightarrow> (Inl e, n1)
      | (Inr False, n1) \<Rightarrow> (Inr cli, n1)
      | (Inr True, n1) \<Rightarrow> udp_loop E incoming (datagram_client E incoming datagram n cli) datagrams n1)"

definition AcceptUdp :: "env \<Rightarrow> Conn \<Rightarrow> bytes option list \<Rightarrow> Network \<Rightarrow> unit result \<times> Network" where
  "AcceptUdp E incoming datagrams n =
     (case udp_loop E incoming None datagrams n of
        (Inl e, n1) \<Rightarrow> (Inl e, n1)
      | (Inr cli, n1) \<Rightarrow> finish_accept cli incoming (Err ''udp read'', n1))"

text \<open>The job goroutine of a client takes the next queued message.\<close>

definition executeJob :: "env \<Rightarrow> nat \<Rightarrow> Network \<Rightarrow> unit result \<times> Network" where
  "executeJob E c n =
     (case jobs (client_of n c) of
        [] \<Rightarrow> (Inl (Blocks ''jobs''), n)
      | job # rest \<Rightarrow> dispatchMessage E c job (update_client c (\<lambda>cl. cl\<lparr>jobs := rest\<rparr>) n))"

end
