(* ===== verification/Stream_Mux.thy ===== *)
theory Stream_Mux
  imports Conn_Manager
begin

text \<open>
  Streams multiplexed over one connection (\<^verbatim>\<open>network/multiplex.go\<close>, \<open>StreamWrite\<close>, \<open>streamSendMessage\<close>
  and the stream operations of \<^verbatim>\<open>network/client.go\<close>). A stream is a counter with an identifier;
  messages of all streams of a peer go through the client's queue, and every queued message is sent by
  a goroutine of its own.
\<close>

section \<open>Streams\<close>

definition GetSendDataCnt :: "Stream \<Rightarrow> uint64" where
  "GetSendDataCnt s = SendCnt s"

definition find_stream :: "Network \<Rightarrow> string \<Rightarrow> string \<Rightarrow> Stream option" where
  "find_stream n peerID streamID =
     (case Load (streams n) peerID of
        None \<Rightarrow> None
      | Some ms \<Rightarrow> Load (stream_map ms) streamID)"

definition OpenStream :: "nat \<Rightarrow> Network \<Rightarrow> Stream result \<times> Network" where
  "OpenStream c n =
     (let cl = client_of n c
      in (case Load (streams n) (PeerID cl) of
            None \<Rightarrow> (Inl (Panic ''nil pointer dereference''), n)
          | Some ms \<Rightarrow>
              let counter = idIncCounter ms + 1;
                  s = \<lparr>stream_ID = client_Address cl @ '':'' @ Itoa (unat counter), SendCnt = 0\<rparr>
              in (Inr s, n\<lparr>streams := Store (PeerID cl)
                    (ms\<lparr>idIncCounter := counter, stream_map := Store (stream_ID s) s (stream_map ms)\<rparr>) (streams n)\<rparr>)))"

definition CloseStream :: "nat \<Rightarrow> string \<Rightarrow> Network \<Rightarrow> Network" where
  "CloseStream c streamID n =
     (let peerID = PeerID (client_of n c)
      in (case Load (streams n) peerID of
            None \<Rightarrow> n
          | Some ms \<Rightarrow>
              if Load (stream_map ms) streamID = None then n
              else n\<lparr>streams := Store peerID (ms\<lparr>stream_map := map_Delete streamID (stream_map ms)\<rparr>) (streams n)\<rparr>))"

definition StreamExist :: "nat \<Rightarrow> string \<Rightarrow> Network \<Rightarrow> bool" where
  "StreamExist c streamID n = (find_stream n (PeerID (client_of n c)) streamID \<noteq> None)"

definition Stream_of :: "nat \<Rightarrow> string \<Rightarrow> Network \<Rightarrow> Stream option" where
  "Stream_of c streamID n = find_stream n (PeerID (client_of n c)) streamID"

definition StreamSendDataCnt :: "nat \<Rightarrow> string \<Rightarrow> Network \<Rightarrow> uint64" where
  "StreamSendDataCnt c streamID n =
     (case find_stream n (PeerID (client_of n c)) streamID of Some s \<Rightarrow> SendCnt s | None \<Rightarrow> 0)"

section \<open>Queueing\<close>

text \<open>A send on the full queue of the client blocks.\<close>

definition enqueue :: "nat \<Rightarrow> StreamSendItem \<Rightarrow> Network \<Rightarrow> unit result \<times> Network" where
  "enqueue c item n =
     (if StreamCanWrite (client_of n c)
      then (Inr (), update_client c (\<lambda>cl. cl\<lparr>StreamSendQueue := StreamSendQueue cl @ [item]\<rparr>) n)
      else (Inl (Blocks ''StreamSendQueue''), n))"

text \<open>The second result of the code, a byte count, is always 0 here.\<close>

definition StreamWrite :: "string \<Rightarrow> string \<Rightarrow> Message \<Rightarrow> Network \<Rightarrow> unit result \<times> Network" where
  "StreamWrite streamID peerID message0 n0 =
     (case ConnectionState n0 peerID of
        None \<Rightarrow> (Inl (Err ''Network.StreamWrite: connection does not exist''), n0)
      | Some state0 \<Rightarrow>
          let state = state0\<lparr>messageNonce := messageNonce state0 + 1\<rparr>;
              n = n0\<lparr>connections := Store peerID state (connections n0)\<rparr>;
              message = message0\<lparr>MessageNonce := messageNonce state\<rparr>
          in (case ParseAddress (net_Address n) of
                Inl e \<Rightarrow> (Inl (Panic ''log.Fatal''), n)
              | Inr addrInfo \<Rightarrow>
                  if Protocol addrInfo = ''tcp'' \<or> Protocol addrInfo = ''kcp''
                  then (case cs_conn state of
                          None \<Rightarrow> (Inl (Err ''Network.StreamWrite connection is nil''), n)
                        | Some k \<Rightarrow>
                            if \<not> is_net_Conn k then (Inl (Err ''Network.StreamWrite connection is nil''), n)
                            else (case GetPeerClient n peerID of
                                    None \<Rightarrow> (Inr (), n)
                                  | Some c \<Rightarrow>
                                      enqueue c \<lparr>item_conn = k, item_Message = message, item_PeerID = peerID,
                                        item_Address = GetAddrByPeerID n peerID, item_StreamID = streamID\<rparr> n))
                  else (Inr (), n)))"

definition StreamSend_op ::
  "env \<Rightarrow> nat \<Rightarrow> string \<Rightarrow> go_context \<Rightarrow> proto_message option \<Rightarrow> Network \<Rightarrow> unit result \<times> Network" where
  "StreamSend_op E c streamID ctx message n =
     (case PrepareMessage E ctx message n of
        Inl e \<Rightarrow> (Inl e, n)
      | Inr msg \<Rightarrow> StreamWrite streamID (PeerID (client_of n c)) msg n)"

definition StreamReply ::
  "env \<Rightarrow> nat \<Rightarrow> string \<Rightarrow> go_context \<Rightarrow> uint64 \<Rightarrow> proto_message option \<Rightarrow> Network \<Rightarrow> unit result \<times> Network" where
  "StreamReply E c streamID ctx nonce message n =
     (case PrepareMessage E ctx message n of
        Inl e \<Rightarrow> (Inl e, n)
      | Inr msg \<Rightarrow> StreamWrite streamID (PeerID (client_of n c)) (msg\<lparr>RequestNonce := nonce, ReplyFlag := True\<rparr>) n)"

text \<open>
  The \<^verbatim>\<open>select\<close> of \<open>StreamRequest\<close> has a default case, so that it does not wait: unless the ticker, the
  reply or the context is ready at once (\<open>w\<close>), it returns no message and no error.
\<close>

definition StreamRequest ::
  "env \<Rightarrow> nat \<Rightarrow> string \<Rightarrow> go_context option \<Rightarrow> proto_message option \<Rightarrow> wait_case option \<Rightarrow> Network \<Rightarrow>
    proto_message option result \<times> Network" where
  "StreamRequest E c streamID ctx0 req w n =
     (case ctx0 of
        None \<Rightarrow> (Inl (Err ''network: invalid context in stream request''), n)
      | Some ctx \<Rightarrow>
          (case ctx_Err ctx of
             Some e \<Rightarrow> (Inl e, n)
           | None \<Rightarrow>
               (case PrepareMessage E ctx req n of
                  Inl e \<Rightarrow> (Inl e, n)
                | Inr msg \<Rightarrow>
                    let cl = client_of n c;
                        nonce = client_RequestNonce cl + 1;
                        n1 = update_client c (\<lambda>cl. cl\<lparr>client_RequestNonce := nonce,
                               Requests := Store nonce \<lparr>req_data = [], req_closed = False\<rparr> (Requests cl)\<rparr>) n
                    in (case StreamWrite streamID (PeerID cl) (msg\<lparr>RequestNonce := nonce\<rparr>) n1 of
                          (Inl e, n2) \<Rightarrow> (Inl e, stop_tracking c nonce n2)
                        | (Inr _, n2) \<Rightarrow>
                            (case w of
                               None \<Rightarrow> (Inr None, stop_tracking c nonce n2)
                             | Some v \<Rightarrow>
                                 (case Request_wait c nonce v n2 of
                                    (Inl e, n3) \<Rightarrow> (Inl e, n3)
                                  | (Inr res, n3) \<Rightarrow> (Inr (Some res), n3)))))))"

definition StreamAsyncSendAndWaitAck ::
  "env \<Rightarrow> nat \<Rightarrow> string \<Rightarrow> go_context option \<Rightarrow> proto_message option \<Rightarrow> string \<Rightarrow> Network \<Rightarrow> unit result \<times> Network" where
  "StreamAsyncSendAndWaitAck E c streamID ctx0 req msgID n =
     (case ctx0 of
        None \<Rightarrow> (Inl (Err ''network: invalid context in stream async send and wait ack''), n)
      | Some ctx \<Rightarrow>
          (case ctx_Err ctx of
             Some e \<Rightarrow> (Inl e, n)
           | None \<Rightarrow>
               let cl = client_of n c
               in if DEFAULT_ACK_REPLY_CAPACITY \<le> waitAckLen cl then (Inl (Err ''async send map filled fully''), n)
                  else if Load (SyncWaitAck cl) msgID \<noteq> None then (Inl (Err ''has been in stream sending queue''), n)
                  else (case PrepareMessageWithMsgID E ctx req msgID n of
                          Inl e \<Rightarrow> (Inl e, n)
                        | Inr msg \<Rightarrow>
                            (case StreamWrite streamID (PeerID cl) msg n of
                               (Inl e, n1) \<Rightarrow> (Inl e, n1)
                             | (Inr _, n1) \<Rightarrow>
                                 (Inr (), update_client c (\<lambda>cl. cl\<lparr>SyncWaitAck := Store msgID
                                    \<lparr>ack_MessageID = msgID, ack_Message = the req, WhenSend = time_Now E mod 60,
                                     Frequency = 1, LatestSendSuccessAt = time_Now E mod 60\<rparr> (SyncWaitAck cl)\<rparr>) n1)))))"

section \<open>Sending\<close>

text \<open>One round of the queue goroutine: a message of a closed stream is dropped.\<close>

definition loopStreamSend :: "nat \<Rightarrow> Network \<Rightarrow> unit result \<times> Network" where
  "loopStreamSend c n =
     (case StreamSendQueue (client_of n c) of
        [] \<Rightarrow> (Inl (Blocks ''StreamSendQueue''), n)
      | item # rest \<Rightarrow>
          let n1 = update_client c (\<lambda>cl. cl\<lparr>StreamSendQueue := rest\<rparr>) n
          in if StreamExist c (item_StreamID item) n1
             then (Inr (), n1\<lparr>goroutines := goroutines n1 @ [StreamSend c item]\<rparr>)
             else (Inr (), n1))"

text \<open>
  The writer that the item holds: the writer of the peer's connection, or, when that connection has
  been replaced, one on the socket that the item was queued for.
\<close>

definition item_state :: "Network \<Rightarrow> StreamSendItem \<Rightarrow> ConnState" where
  "item_state n item =
     (case ConnectionState n (item_PeerID item) of
        Some st \<Rightarrow> if cs_conn st = Some (item_conn item) then st else conn_state is_net_Conn True (Some (item_conn item)) n
      | None \<Rightarrow> conn_state is_net_Conn True (Some (item_conn item)) n)"

definition store_item_writer :: "StreamSendItem \<Rightarrow> ConnState \<Rightarrow> bufio_Writer \<Rightarrow> Network \<Rightarrow> Network" where
  "store_item_writer item st w n =
     (if ConnectionState n (item_PeerID item) = Some st then store_writer (item_PeerID item) st w n
      else n\<lparr>sockets := (case wr_conn st of None \<Rightarrow> sockets n | Some k \<Rightarrow> Store k (wr w) (sockets n))\<rparr>)"

definition count_sent :: "string \<Rightarrow> string \<Rightarrow> nat \<Rightarrow> Network \<Rightarrow> Network" where
  "count_sent peerID streamID k n =
     (case Load (streams n) peerID of
        None \<Rightarrow> n
      | Some ms \<Rightarrow>
          (case Load (stream_map ms) streamID of
             None \<Rightarrow> n
           | Some s \<Rightarrow> n\<lparr>streams := Store peerID
               (ms\<lparr>stream_map := Store streamID (s\<lparr>SendCnt := SendCnt s + of_nat k\<rparr>) (stream_map ms)\<rparr>) (streams n)\<rparr>))"

definition forget_ack :: "string \<Rightarrow> Message \<Rightarrow> Network \<Rightarrow> Network" where
  "forget_ack peerID message n =
     (case GetPeerClient n peerID of
        Some c \<Rightarrow>
          if NeedAck message
          then update_client c (\<lambda>cl. cl\<lparr>SyncWaitAck := map_Delete (MessageID message) (SyncWaitAck cl)\<rparr>) n
          else n
      | None \<Rightarrow> n)"

text \<open>
  The write loop checks the stream before every write. When the stream has been closed meanwhile the
  message is still written, and the counter of the missing stream is a nil dereference.
\<close>

definition streamSendMessage :: "env \<Rightarrow> StreamSendItem \<Rightarrow> Network \<Rightarrow> nat result \<times> Network" where
  "streamSendMessage E item n =
     (let peerID = item_PeerID item; streamID = item_StreamID item; message = item_Message item; st = item_state n item
      in (case build_frame (marshal_Message E) (compressors E) (config n) message of
            Inl e \<Rightarrow> (Inl e, n)
          | Inr buffer \<Rightarrow>
              if Load (streams n) peerID = None
              then (Inl (Err ''in streamSendMessage, connection maybe has been closed''), n)
              else if wr_nil st then (Inl (Panic ''nil pointer dereference''), n)
              else if find_stream n peerID streamID = None
              then (case bufio_Write (load_writer n st) buffer 0 of
                      (_, Some e, w) \<Rightarrow> (Inl e, store_item_writer item st w (forget_ack peerID message n))
                    | (_, None, w) \<Rightarrow>
                        (Inl (Panic ''interface conversion''), store_item_writer item st w (forget_ack peerID message n)))
              else (case write_frame (load_writer n st) buffer of
                      (written, err, w) \<Rightarrow>
                        ((case err of None \<Rightarrow> Inr written | Some e \<Rightarrow> Inl e),
                         count_sent peerID streamID written (store_item_writer item st w n)))))"

text \<open>The goroutine that sends one item gives up when the stream has been closed.\<close>

definition send_item :: "env \<Rightarrow> nat \<Rightarrow> StreamSendItem \<Rightarrow> Network \<Rightarrow> unit result \<times> Network" where
  "send_item E c item n =
     (if Stream_of c (item_StreamID item) n = None then (Inr (), n)
      else (case streamSendMessage E item n of
              (Inl (Err _), n1) \<Rightarrow> (Inr (), n1)
            | (Inl p, n1) \<Rightarrow> (Inl p, n1)
            | (Inr _, n1) \<Rightarrow> (Inr (), n1)))"

end
