(* ===== verification/Node_Invariant.thy ===== *)
theory Node_Invariant
  imports Stream_Mux
begin

text \<open>
  The connection tables of a running node. A node is a state machine whose steps are the operations of
  the preceding theories: received messages, calls of the application, the goroutines of clients and
  the end of connections, in any order. The tables of peers, connections, streams and connection
  states stay consistent with each other.
\<close>

section \<open>Consistent tables\<close>

text \<open>What the tables hold for one key.\<close>

definition row :: "nat option \<Rightarrow> ConnState option \<Rightarrow> MultiStream option \<Rightarrow> PeerState option \<Rightarrow> PeerClient list \<Rightarrow> bool" where
  "row c v w t cl =
     (case c of
        Some i \<Rightarrow> i < length cl \<and> outgoingReady (cl ! i) \<and> incomingReady (cl ! i) \<and> v \<noteq> None \<and> w \<noteq> None \<and>
          t = Some PEER_REACHABLE
      | None \<Rightarrow> v = None \<and> w = None \<and> t \<noteq> Some PEER_REACHABLE)"

definition tabs ::
  "(string, nat) sync_map \<Rightarrow> (string, ConnState) sync_map \<Rightarrow> (string, MultiStream) sync_map \<Rightarrow>
    (string, PeerState) sync_map \<Rightarrow> PeerClient list \<Rightarrow> bool" where
  "tabs p cn s st cl \<longleftrightarrow> unique_keys p \<and> unique_keys cn \<and>
     (\<forall>k. row (Load p k) (Load cn k) (Load s k) (Load st k) cl)"

definition tables_ok :: "Network \<Rightarrow> bool" where
  "tables_ok n \<longleftrightarrow> tabs (peers n) (connections n) (streams n) (connStates n) (clients n)"

lemma row_simps [simp]:
  "row (Some i) v w t cl \<longleftrightarrow>
     i < length cl \<and> outgoingReady (cl ! i) \<and> incomingReady (cl ! i) \<and> v \<noteq> None \<and> w \<noteq> None \<and> t = Some PEER_REACHABLE"
  "row None v w t cl \<longleftrightarrow> v = None \<and> w = None \<and> t \<noteq> Some PEER_REACHABLE"
  by (simp_all add: row_def)

lemma row_conn: "row c v w t cl \<Longrightarrow> v \<noteq> None \<Longrightarrow> row c (Some x) w t cl"
  and row_stream: "row c v w t cl \<Longrightarrow> w \<noteq> None \<Longrightarrow> row c v (Some y) t cl"
  and row_append: "row c v w t cl \<Longrightarrow> row c v w t (cl @ [z])"
  by (cases c; auto simp: nth_append)+

lemma row_client:
  "row c v w t cl \<Longrightarrow> outgoingReady (cl ! i) \<longrightarrow> outgoingReady x \<Longrightarrow> incomingReady (cl ! i) \<longrightarrow> incomingReady x \<Longrightarrow>
    row c v w t (cl[i := x])"
  by (cases c; cases "i < length cl"; cases "c = Some i") (auto simp: nth_list_update list_update_beyond)

lemma tabs_row: "tabs p cn s st cl \<Longrightarrow> row (Load p k) (Load cn k) (Load s k) (Load st k) cl"
  by (simp add: tabs_def)

lemma tabs_known:
  assumes "tabs p cn s st cl" "Load p k = Some c"
  shows "c < length cl" "outgoingReady (cl ! c)" "incomingReady (cl ! c)" "\<exists>v. Load cn k = Some v" "\<exists>w. Load s k = Some w"
    "Load st k = Some PEER_REACHABLE"
  using tabs_row [OF assms(1), of k] assms(2) by auto

lemma tabs_unknown:
  assumes "tabs p cn s st cl" "Load p k = None"
  shows "Load cn k = None" "Load s k = None" "Load st k \<noteq> Some PEER_REACHABLE"
  using tabs_row [OF assms(1), of k] assms(2) by auto

lemma tabs_store_conn:
  "tabs p cn s st cl \<Longrightarrow> Load cn k \<noteq> None \<Longrightarrow> tabs p (Store k v cn) s st cl"
  unfolding tabs_def by (auto intro: row_conn)

lemma tabs_store_stream:
  "tabs p cn s st cl \<Longrightarrow> Load s k \<noteq> None \<Longrightarrow> tabs p cn (Store k v s) st cl"
  unfolding tabs_def by (auto intro: row_stream)

lemma tabs_update_client:
  assumes "tabs p cn s st cl" "outgoingReady (cl ! c) \<longrightarrow> outgoingReady x" "incomingReady (cl ! c) \<longrightarrow> incomingReady x"
  shows "tabs p cn s st (cl[c := x])"
  using assms unfolding tabs_def by (auto intro: row_client)

lemma tabs_append: "tabs p cn s st cl \<Longrightarrow> tabs p cn s st (cl @ [x])"
  unfolding tabs_def by (auto intro: row_append)

lemma tabs_delete:
  "tabs p cn s st cl \<Longrightarrow>
    tabs (map_Delete k p) (map_Delete k cn) (map_Delete k s) (Store k PEER_UNREACHABLE st) cl"
  unfolding tabs_def by auto

lemma tabs_add:
  "tabs p cn s st cl \<Longrightarrow> c < length cl \<Longrightarrow> outgoingReady (cl ! c) \<Longrightarrow> incomingReady (cl ! c) \<Longrightarrow>
    tabs (Store k c p) (Store k v cn) (Store k w s) (Store k PEER_REACHABLE st) cl"
  unfolding tabs_def by auto

lemma tabs_move:
  assumes "tabs p cn s st cl" "Load p a = Some c" "a \<noteq> b"
  shows "tabs (move a b c p) (move a b v cn) (move a b w s) (move a b PEER_REACHABLE st) cl"
  using assms tabs_known [OF assms(1,2)] unfolding tabs_def move_def by auto

lemmas tabs_intros =
  tabs_store_conn tabs_store_stream tabs_update_client tabs_append tabs_delete tabs_add tabs_move

lemma notify_all_eq: "notify_all cb n = n\<lparr>callbacks := callbacks n @ map cb (visited (Components n))\<rparr>"
proof -
  have "fold (\<lambda>item m. m\<lparr>callbacks := callbacks m @ [cb (Component item)]\<rparr>) xs (m :: Network) =
      m\<lparr>callbacks := callbacks m @ map cb (map Component xs)\<rparr>" for xs :: "ComponentInfo list" and m
    by (induction xs arbitrary: m) simp_all
  then show ?thesis by (simp add: notify_all_def Each_def visited_eq)
qed

lemma tables_ok_cong:
  "peers m = peers n \<Longrightarrow> connections m = connections n \<Longrightarrow> streams m = streams n \<Longrightarrow> connStates m = connStates n \<Longrightarrow>
    clients m = clients n \<Longrightarrow> tables_ok m = tables_ok n"
  by (simp add: tables_ok_def)

lemma tables_ok_update_client:
  assumes "tables_ok n"
    "\<And>cl. outgoingReady cl \<Longrightarrow> outgoingReady (f cl)" "\<And>cl. incomingReady cl \<Longrightarrow> incomingReady (f cl)"
  shows "tables_ok (update_client c f n)"
  using assms unfolding tables_ok_def update_client_def by (simp add: tabs_update_client)

lemma tables_ok_shut [simp]: "tables_ok (shut k n) = tables_ok n"
  by (auto simp: shut_def tables_ok_def split: option.split)

lemma tables_ok_notify_all [simp]: "tables_ok (notify_all cb n) = tables_ok n"
  by (simp add: notify_all_eq tables_ok_def)

section \<open>Closing\<close>

lemma close_conn_tables: "close_conn protocol cn n = Inr m \<Longrightarrow> tables_ok m = tables_ok n"
  by (auto simp: close_conn_def Let_def split: if_splits option.splits)

lemma tables_ok_delete_entries: "tables_ok n \<Longrightarrow> tables_ok (delete_entries k n)"
  by (simp add: tables_ok_def delete_entries_def UpdateConnState_def tabs_delete)

lemma tables_ok_remove_entry: "tables_ok n \<Longrightarrow> tables_ok (snd (remove_entry k n))"
  by (auto simp: remove_entry_def close_conn_tables tables_ok_delete_entries split: option.split sum.split)

lemma tables_ok_notify_quit: "tables_ok n \<Longrightarrow> tables_ok (snd (notify_quit cid n))"
  by (auto simp: notify_quit_def tables_ok_def)

lemma tables_ok_RemoveEntries:
  assumes "tables_ok n"
  shows "tables_ok (snd (RemoveEntries c n))"
proof -
  let ?cl = "client_of n c"
  obtain r1 n1 where 1: "remove_entry (PeerID ?cl) n = (r1, n1)" by force
  then have ok1: "tables_ok n1" using tables_ok_remove_entry [OF assms, of "PeerID ?cl"] by simp
  obtain r2 n2 where 2: "notify_quit (ClientID ?cl) n1 = (r2, n2)" by force
  then have ok2: "tables_ok n2" using tables_ok_notify_quit [OF ok1, of "ClientID ?cl"] by simp
  show ?thesis
    using assms 1 2 ok1 ok2 tables_ok_remove_entry
    by (auto simp: RemoveEntries_def Let_def split: sum.split prod.split dest!: sym [of "(_, _)"])
      (metis snd_conv)+
qed

lemma tables_ok_Close: "tables_ok n \<Longrightarrow> tables_ok (snd (Close c n))"
proof -
  assume ok: "tables_ok n"
  let ?n = "update_client c (\<lambda>cl. cl\<lparr>client_closed := True, client_stream := (client_stream cl)\<lparr>isClosed := True\<rparr>\<rparr>) n"
  have "tables_ok ?n" using ok by (rule tables_ok_update_client) simp_all
  then have "tables_ok (snd (RemoveEntries c ?n))" by (rule tables_ok_RemoveEntries)
  then show ?thesis
    using ok by (cases "RemoveEntries c ?n") (auto simp: Close_def Let_def split: sum.split)
qed

section \<open>Sending\<close>

lemma tables_ok_store_conn:
  "tables_ok n \<Longrightarrow> Load (connections n) k \<noteq> None \<Longrightarrow> tables_ok (n\<lparr>connections := Store k v (connections n)\<rparr>)"
  by (simp add: tables_ok_def tabs_store_conn)

lemma tables_ok_store_writer:
  "tables_ok n \<Longrightarrow> Load (connections n) k \<noteq> None \<Longrightarrow> tables_ok (store_writer k st w n)"
  by (simp add: tables_ok_def store_writer_def tabs_store_conn)

lemma tables_ok_write_stream:
  "tables_ok n \<Longrightarrow> Load (connections n) k \<noteq> None \<Longrightarrow> tables_ok (snd (write_stream E k st msg n))"
  by (auto simp: write_stream_def tables_ok_store_writer split: sum.split prod.split)

lemma tables_ok_write_datagram: "tables_ok n \<Longrightarrow> tables_ok (write_datagram E st msg n)"
  by (auto simp: write_datagram_def tables_ok_def split: option.split Conn.split prod.split)

lemma tables_ok_close_on_error: "tables_ok (snd r) \<Longrightarrow> tables_ok (snd (close_on_error k r))"
proof -
  assume "tables_ok (snd r)"
  moreover obtain x n where "r = (x, n)" by force
  ultimately have "tables_ok n" "\<And>c. tables_ok (snd (Close c n))" "r = (x, n)" using tables_ok_Close by auto
  then show ?thesis
    by (auto simp: close_on_error_def split: sum.split go_error.split option.split prod.split) (metis snd_conv)+
qed

lemma tables_ok_Write: "tables_ok n \<Longrightarrow> tables_ok (snd (Write E k msg n))"
  by (auto simp: Write_def Let_def ConnectionState_def tables_ok_store_conn tables_ok_write_datagram
      intro!: tables_ok_close_on_error tables_ok_write_stream split: option.split sum.split)

lemma tables_ok_write_each: "tables_ok n \<Longrightarrow> tables_ok (snd (write_each E ts msg n))"
proof (induction ts arbitrary: n)
  case (Cons t ts)
  obtain r m where w: "Write E t msg n = (r, m)" by force
  have "tables_ok m" using tables_ok_Write [OF Cons.prems, of E t msg] w by simp
  then show ?case using w Cons.IH by (auto split: sum.split go_error.split)
qed simp

lemma tables_ok_sends:
  assumes "tables_ok n"
  shows "tables_ok (snd (Send E ctx k m n))" "tables_ok (snd (Tell E c ctx m n))"
    "tables_ok (snd (TellByAddr E c ctx m n))" "tables_ok (snd (Reply E c ctx nonce m n))"
    "tables_ok (snd (Broadcast E ctx m n))" "tables_ok (snd (BroadcastToPeers E ctx m n))"
    "tables_ok (snd (BroadcastByClientIDs E ctx m ids n))"
  using assms tables_ok_Write tables_ok_write_each
  by (auto simp: Send_def Tell_def TellByAddr_def Reply_def Broadcast_def BroadcastToPeers_def BroadcastByClientIDs_def
      broadcast_def split: sum.split go_error.split)

lemma tables_ok_stop_tracking: "tables_ok n \<Longrightarrow> tables_ok (stop_tracking c nonce n)"
  unfolding stop_tracking_def by (rule tables_ok_update_client) simp_all

lemma tables_ok_Request:
  assumes "tables_ok n"
  shows "tables_ok (snd (Request E c ctx req n))"
proof -
  let ?n = "\<lambda>x y. update_client c (\<lambda>cl. cl\<lparr>client_RequestNonce := x, Requests := Store x y (Requests cl)\<rparr>) n"
  have u: "tables_ok (?n x y)" for x y using assms by (rule tables_ok_update_client) simp_all
  have "tables_ok m" if "Write E k msg (?n x y) = (r, m)" for k msg x y r m
    using tables_ok_Write [OF u [of x y], of E k msg] that by simp
  then show ?thesis
    using assms by (auto simp: Request_def Let_def tables_ok_stop_tracking split: option.split sum.split prod.split)
qed

lemma tables_ok_Request_wait: "tables_ok n \<Longrightarrow> tables_ok (snd (Request_wait c nonce w n))"
  by (auto simp: Request_wait_def tables_ok_stop_tracking split: wait_case.split option.split list.split)

lemma tables_ok_Async:
  assumes "tables_ok n"
  shows "tables_ok (snd (AsyncSendAndWaitAck E c ctx req msgID n))"
proof -
  have "tables_ok m" if "Write E k msg n = (r, m)" for k msg r m
    using tables_ok_Write [OF assms, of E k msg] that by simp
  then show ?thesis
    using assms by (auto simp: AsyncSendAndWaitAck_def Let_def split: option.split sum.split prod.split
        intro!: tables_ok_update_client)
qed

section \<open>Dispatching\<close>

lemma tables_ok_deliver: "tables_ok n \<Longrightarrow> tables_ok (snd (deliver c msg ptr n))"
  by (auto simp: deliver_def handleBytes_def split: option.split intro!: tables_ok_update_client)

lemma tables_ok_dispatchMessage: "tables_ok n \<Longrightarrow> tables_ok (snd (dispatchMessage E c msg n))"
  by (auto simp: dispatchMessage_def split: option.split intro!: tables_ok_deliver tables_ok_update_client)

section \<open>Streams\<close>

lemma tables_ok_store_stream:
  "tables_ok n \<Longrightarrow> Load (streams n) k \<noteq> None \<Longrightarrow> tables_ok (n\<lparr>streams := Store k v (streams n)\<rparr>)"
  by (simp add: tables_ok_def tabs_store_stream)

lemma tables_ok_stream_ops:
  assumes "tables_ok n"
  shows "tables_ok (snd (OpenStream c n))" "tables_ok (CloseStream c streamID n)"
    "tables_ok (count_sent peerID streamID k n)" "tables_ok (forget_ack peerID msg n)"
    "tables_ok (snd (enqueue c item n))" "tables_ok (snd (loopStreamSend c n))"
    "tables_ok (store_item_writer item st w n)"
  using assms
  by (auto simp: OpenStream_def CloseStream_def count_sent_def forget_ack_def enqueue_def loopStreamSend_def Let_def
      store_item_writer_def ConnectionState_def tables_ok_store_stream tables_ok_store_writer
      intro!: tables_ok_update_client split: option.split list.split)
    (simp_all add: tables_ok_def update_client_def tabs_update_client)

lemma tables_ok_StreamWrite: "tables_ok n \<Longrightarrow> tables_ok (snd (StreamWrite streamID k msg n))"
  by (auto simp: StreamWrite_def Let_def ConnectionState_def tables_ok_store_conn
      intro!: tables_ok_stream_ops split: option.split sum.split)

lemma tables_ok_streamSendMessage: "tables_ok n \<Longrightarrow> tables_ok (snd (streamSendMessage E item n))"
  by (auto simp: streamSendMessage_def Let_def tables_ok_stream_ops split: sum.split option.split prod.split)

lemma tables_ok_send_item: "tables_ok n \<Longrightarrow> tables_ok (snd (send_item E c item n))"
  using tables_ok_streamSendMessage [of n E item]
  by (auto simp: send_item_def split: sum.split go_error.split prod.split)

section \<open>Registering\<close>

text \<open>
  A peer's address must name one of the four protocols. The code accepts others and then registers a
  peer without a connection, see \<open>unknown_protocol_peer\<close> in \<open>Peer_Lifecycle\<close>.
\<close>

definition supported :: "string \<Rightarrow> bool" where
  "supported address \<longleftrightarrow>
     (case ParseAddress address of
        Inr info \<Rightarrow> Protocol info = ''tcp'' \<or> Protocol info = ''kcp'' \<or> Protocol info = ''udp'' \<or> Protocol info = ''quic''
      | Inl _ \<Rightarrow> True)"

lemma open_socket_frame [simp]:
  "peers (open_socket d n) = peers n" "connections (open_socket d n) = connections n"
  "streams (open_socket d n) = streams n" "connStates (open_socket d n) = connStates n" "clients (open_socket d n) = clients n"
  by (simp_all add: open_socket_def split: option.split prod.split)

lemma Dial_frame:
  "peers (snd (Dial E a c n)) = peers n" "connections (snd (Dial E a c n)) = connections n"
  "streams (snd (Dial E a c n)) = streams n" "connStates (snd (Dial E a c n)) = connStates n"
  "clients (snd (Dial E a c n)) = clients n"
  by (auto simp: Dial_def start_accept_def split: sum.split option.split)

lemma initConnection_supported:
  assumes "supported address" "initConnection address peerID cn n = Inr m"
  shows "\<exists>st. m = n\<lparr>connections := Store peerID st (connections n)\<rparr>"
  using assms by (auto simp: supported_def initConnection_def Let_def split: sum.splits if_splits)

lemma tables_ok_register_client:
  assumes "tables_ok n" "c < length (clients n)" "supported address"
  shows "tables_ok (snd (register_client E address peerID cn c n))"
proof (cases "initConnection address peerID cn n")
  case (Inr m)
  then obtain st where m: "m = n\<lparr>connections := Store peerID st (connections n)\<rparr>"
    using initConnection_supported [OF assms(3)] by blast
  let ?x = "(clients n ! c)\<lparr>incomingReady := True, outgoingReady := True\<rparr>"
  have "tabs (peers n) (connections n) (streams n) (connStates n) ((clients n)[c := ?x])"
    using assms(1) unfolding tables_ok_def by (rule tabs_update_client) simp_all
  then have "tabs (Store peerID c (peers n)) (Store peerID st (connections n)) (Store peerID NewMultiStream (streams n))
      (Store peerID PEER_REACHABLE (connStates n)) ((clients n)[c := ?x])"
    using assms(2) by (intro tabs_add) simp_all
  then show ?thesis
    using Inr m by (simp add: register_client_def Let_def tables_ok_def Init_def UpdateConnState_def update_client_def notify_all_eq)
qed (use assms in \<open>simp add: register_client_def\<close>)

lemma tables_ok_reset:
  assumes "tables_ok n" "address \<noteq> peerID"
  shows "tables_ok (resetConnMgrItemByPeerID address peerID n)"
proof (cases "Load (peers n) address")
  case (Some c)
  obtain v w where vw: "Load (connections n) address = Some v" "Load (streams n) address = Some w"
      "Load (connStates n) address = Some PEER_REACHABLE"
    using tabs_known(4,5,6) [OF assms(1) [unfolded tables_ok_def] Some] by blast
  show ?thesis
    using tabs_move [OF assms(1) [unfolded tables_ok_def] Some assms(2), of v w] Some vw
    by (simp add: resetConnMgrItemByPeerID_def Let_def tables_ok_def)
qed (use assms in \<open>simp add: resetConnMgrItemByPeerID_def\<close>)

definition good_address :: "env \<Rightarrow> Network \<Rightarrow> string \<Rightarrow> bool" where
  "good_address E n a = (case fst (ToUnifiedAddress (resolve E) (lookups n) a) of Inr u \<Rightarrow> supported u | Inl _ \<Rightarrow> True)"

lemma tables_ok_lookups [simp]: "tables_ok (n\<lparr>lookups := x\<rparr>) = tables_ok n"
  by (simp add: tables_ok_def)

lemma tables_ok_new_client:
  "tables_ok n \<Longrightarrow> tables_ok (n\<lparr>clients := clients n @ [x]\<rparr>)"
  by (simp add: tables_ok_def tabs_append)

lemma tables_ok_dial_failed:
  assumes "tables_ok n" "Load (peers n) peerID = None"
  shows "tables_ok (n\<lparr>peers := map_Delete peerID (peers n)\<rparr>)"
  using assms tabs_unknown [OF assms(1) [unfolded tables_ok_def] assms(2)] by (auto simp: tables_ok_def tabs_def)

lemma tables_ok_connect_new:
  assumes "tables_ok n" "Load (peers n) peerID = None" "supported address"
  shows "tables_ok (snd (connect_new E address peerID conn0 x n))"
proof -
  let ?m = "n\<lparr>clients := clients n @ [x\<lparr>PubKey := peerID\<rparr>]\<rparr>"
  let ?cn = "case conn0 of Some k \<Rightarrow> if is_UDPConn k then None else Some k | None \<Rightarrow> None"
  have new: "tables_ok ?m" using assms(1) by (rule tables_ok_new_client)
  obtain d m where d: "Dial E address (length (clients n)) ?m = (d, m)" by force
  have m: "tables_ok m" "clients m = clients ?m" "peers m = peers n"
    using Dial_frame [of E address "length (clients n)" ?m] new unfolding d by (simp_all add: tables_ok_def)
  show ?thesis
  proof (cases ?cn)
    case (Some k)
    then show ?thesis using new assms(3) by (simp add: connect_new_def Let_def tables_ok_register_client)
  next
    case None
    have "tables_ok (update_client c (\<lambda>cl. cl\<lparr>outgoingReady := True\<rparr>) (m\<lparr>peers := map_Delete peerID (peers m)\<rparr>))" for c
      using m assms(2) by (intro tables_ok_update_client tables_ok_dial_failed) simp_all
    then show ?thesis
      using None d m assms(3) by (cases d) (simp_all add: connect_new_def Let_def tables_ok_register_client)
  qed
qed

text \<open>The four outcomes of \<open>getOrSetPeerClient\<close>.\<close>

lemma getOrSet_cases:
  obtains (failed) e cache where "getOrSetPeerClient E address0 peerID0 conn0 n0 = (Inl e, n0\<lparr>lookups := cache\<rparr>)"
  | (found) address cache n1 pid c where
      "ToUnifiedAddress (resolve E) (lookups n0) address0 = (Inr address, cache)"
      "pid = (if peerID0 = [] then address0 else peerID0)"
      "n1 = (if address \<noteq> pid then resetConnMgrItemByPeerID address pid (n0\<lparr>lookups := cache\<rparr>) else n0\<lparr>lookups := cache\<rparr>)"
      "Load (peers n1) pid = Some c"
      "getOrSetPeerClient E address0 peerID0 conn0 n0 =
        (if IsOutgoingReady (client_of n1 c) then Inr c else Inl (Err ''network: peer failed to connect''), n1)"
  | (new) address cache n1 pid x where
      "ToUnifiedAddress (resolve E) (lookups n0) address0 = (Inr address, cache)"
      "pid = (if peerID0 = [] then address0 else peerID0)"
      "n1 = (if address \<noteq> pid then resetConnMgrItemByPeerID address pid (n0\<lparr>lookups := cache\<rparr>) else n0\<lparr>lookups := cache\<rparr>)"
      "Load (peers n1) pid = None" "createPeerClient (n0\<lparr>lookups := cache\<rparr>) address (time_Now E) = Inr x"
      "getOrSetPeerClient E address0 peerID0 conn0 n0 = connect_new E address pid conn0 x n1"
proof -
  define pid where "pid = (if peerID0 = [] then address0 else peerID0)"
  obtain r cache where u: "ToUnifiedAddress (resolve E) (lookups n0) address0 = (r, cache)" by force
  define n where "n = n0\<lparr>lookups := cache\<rparr>"
  show thesis
  proof (cases r)
    case (Inl e)
    then show thesis using failed u by (simp add: getOrSetPeerClient_def Let_def)
  next
    case (Inr address)
    define n1 where "n1 = (if address \<noteq> pid then resetConnMgrItemByPeerID address pid n else n)"
    have eq: "getOrSetPeerClient E address0 peerID0 conn0 n0 =
      (if address = net_Address n then (Inl (Err ''network: peer should not dial itself''), n)
       else case createPeerClient n address (time_Now E) of
              Inl e \<Rightarrow> (Inl e, n)
            | Inr x \<Rightarrow>
                (case Load (peers n1) pid of
                   Some c \<Rightarrow>
                     if \<not> IsOutgoingReady (client_of n1 c) then (Inl (Err ''network: peer failed to connect''), n1)
                     else (Inr c, n1)
                 | None \<Rightarrow> connect_new E address pid conn0 x n1))"
      unfolding getOrSetPeerClient_def Let_def u Inr prod.case sum.case n_def n1_def pid_def by (rule refl)
    consider "address = net_Address n" | e where "address \<noteq> net_Address n" "createPeerClient n address (time_Now E) = Inl e"
      | x where "address \<noteq> net_Address n" "createPeerClient n address (time_Now E) = Inr x" "Load (peers n1) pid = None"
      | x c where "address \<noteq> net_Address n" "createPeerClient n address (time_Now E) = Inr x" "Load (peers n1) pid = Some c"
      by (metis sum.exhaust option.exhaust)
    then show thesis
    proof cases
      case 1
      then show thesis using failed eq n_def by simp
    next
      case 2
      then show thesis using failed eq n_def by simp
    next
      case 3
      then show thesis using new [OF u [unfolded Inr] pid_def n1_def [unfolded n_def] 3(3)] eq n_def by simp
    next
      case 4
      then show thesis using found [OF u [unfolded Inr] pid_def n1_def [unfolded n_def] 4(3)] eq by simp
    qed
  qed
qed

lemma tables_ok_reset_if:
  "tables_ok n \<Longrightarrow> tables_ok (if a \<noteq> pid then resetConnMgrItemByPeerID a pid (n\<lparr>lookups := c\<rparr>) else n\<lparr>lookups := c\<rparr>)"
  by (simp add: tables_ok_reset)

lemma tables_ok_getOrSetPeerClient:
  assumes "tables_ok n0" "good_address E n0 address0"
  shows "tables_ok (snd (getOrSetPeerClient E address0 peerID0 conn0 n0))"
proof (cases rule: getOrSet_cases [of E address0 peerID0 conn0 n0])
  case (new address cache n1 pid x)
  have "tables_ok n1" unfolding new(3) by (rule tables_ok_reset_if [OF assms(1)])
  moreover have "supported address" using assms(2) new(1) by (simp add: good_address_def)
  ultimately show ?thesis unfolding new(6) using new(4) by (intro tables_ok_connect_new)
next
  case (found address cache n1 pid c)
  have "tables_ok n1" unfolding found(3) by (rule tables_ok_reset_if [OF assms(1)])
  then show ?thesis unfolding found(5) by simp
qed (use assms in simp)

section \<open>Receiving\<close>

lemma tables_ok_identify:
  assumes "tables_ok n" "good_address E n (Address sender)"
  shows "tables_ok (snd (identify E incoming sender n))"
proof -
  let ?g = "getOrSetPeerClient E (Address sender) (hex_EncodeToString (slice (NetKey sender)))
    (if ProxyModeEnable n then None else Some incoming) n"
  obtain r m where g: "?g = (r, m)" by force
  have "tables_ok m" using tables_ok_getOrSetPeerClient [OF assms] g by (metis snd_conv)
  then have "tables_ok (update_client c (\<lambda>cl. cl\<lparr>client_ID := Some sender\<rparr>) m)" for c
    by (rule tables_ok_update_client) simp_all
  then show ?thesis
    using g \<open>tables_ok m\<close> by (auto simp: identify_def Let_def split: sum.split)
qed

lemma tables_ok_reply_ack: "tables_ok n \<Longrightarrow> tables_ok (snd (reply_ack E c msg n))"
  using tables_ok_sends(2) [of n E c context_Background "Some (ack_message E (MessageID msg))"]
  by (auto simp: reply_ack_def split: sum.split go_error.split prod.split)

lemma tables_ok_accept_message:
  assumes "tables_ok n" "\<And>s. Sender msg = Some s \<Longrightarrow> good_address E n (Address s)"
  shows "tables_ok (snd (accept_message E acks incoming msg n))"
proof (cases "Sender msg")
  case (Some sender)
  obtain r n1 where i: "identify E incoming sender n = (r, n1)" by force
  have 1: "tables_ok n1" using tables_ok_identify [OF assms(1) assms(2) [OF Some]] i by (metis snd_conv)
  have a: "tables_ok m" if "reply_ack E c msg n1 = (x, m)" for c x m
    using tables_ok_reply_ack [OF 1, of E c msg] that by simp
  have d: "tables_ok m" if "dispatchMessage E c msg k = (x, m)" "tables_ok k" for c k x m
    using tables_ok_dispatchMessage [OF that(2), of E c msg] that(1) by simp
  show ?thesis
    using Some i 1
    by (auto simp: accept_message_def split: sum.split bool.split prod.split intro: a d)
qed (use assms in \<open>simp add: accept_message_def\<close>)

lemma tables_ok_accept_datagram:
  assumes "tables_ok n" "\<And>msg s. Sender msg = Some s \<Longrightarrow>
    receiveUDPMessage (unmarshal_Message E) (config n) datagram = Inr (Some msg) \<Longrightarrow> good_address E n (Address s)"
  shows "tables_ok (snd (accept_datagram E incoming datagram n))"
proof (cases "\<exists>msg s. receiveUDPMessage (unmarshal_Message E) (config n) datagram = Inr (Some msg) \<and> Sender msg = Some s")
  case True
  then obtain msg s where m: "receiveUDPMessage (unmarshal_Message E) (config n) datagram = Inr (Some msg)" "Sender msg = Some s"
    by blast
  obtain r n1 where i: "identify E incoming s n = (r, n1)" by force
  have 1: "tables_ok n1" using tables_ok_identify [OF assms(1) assms(2) [OF m(2,1)]] i by (metis snd_conv)
  have "tables_ok (update_client c (\<lambda>_. cl) n1)" if "Submit msg (client_of n1 c) = Inr cl" for c cl
    using 1 that unfolding tables_ok_def
    by (auto simp: update_client_def Submit_def client_of_def split: if_splits intro!: tabs_update_client)
  then show ?thesis
    using m i 1 assms(1)
    by (auto simp: accept_datagram_def split: sum.split bool.split prod.split go_error.split)
qed (use assms(1) in \<open>auto simp: accept_datagram_def split: sum.split go_error.split option.split\<close>)

lemma tables_ok_executeJob: "tables_ok n \<Longrightarrow> tables_ok (snd (executeJob E c n))"
  by (auto simp: executeJob_def split: list.split intro!: tables_ok_dispatchMessage tables_ok_update_client)

lemma tables_ok_finish_accept: "tables_ok (snd r) \<Longrightarrow> tables_ok (snd (finish_accept cli incoming r))"
proof -
  assume "tables_ok (snd r)"
  moreover obtain e n where r: "r = (e, n)" by force
  ultimately have "tables_ok n" "\<And>c. tables_ok (snd (Close c n))" using tables_ok_Close by auto
  then show ?thesis
    unfolding r by (cases cli)
      (auto simp: finish_accept_def split: go_error.split sum.split prod.split, (metis snd_conv)+)
qed

lemma tables_ok_close_each: "tables_ok n \<Longrightarrow> tables_ok (snd (close_each cs n))"
proof (induction cs arbitrary: n)
  case (Cons c cs)
  obtain r m where w: "Close c n = (r, m)" by force
  have "tables_ok m" using tables_ok_Close [OF Cons.prems, of c] w by simp
  then show ?case using w Cons.IH by (auto split: sum.split go_error.split)
qed simp

lemma tables_ok_Network_Close: "tables_ok n \<Longrightarrow> tables_ok (snd (Network_Close n))"
proof -
  assume "tables_ok n"
  then have "tables_ok (snd (close_each cs (n\<lparr>Components := NewComponentList\<rparr>)))" for cs
    by (intro tables_ok_close_each) (simp add: tables_ok_def)
  then have "tables_ok m" if "close_each cs (n\<lparr>Components := NewComponentList\<rparr>) = (r, m)" for cs r m
    using that by (metis snd_conv)
  then show ?thesis
    by (auto simp: Network_Close_def split: sum.split prod.split) (auto simp: tables_ok_def)
qed

section \<open>The node as a state machine\<close>

text \<open>
  What can happen at a node: a new inbound socket, a received message on a stream connection or a
  datagram, the end of a receive loop, calls of the application, and the goroutines of clients.
\<close>

datatype node_op =
    OpInbound Conn net_conn
  | OpReceive bool Conn Message
  | OpDatagram Conn "bytes option"
  | OpEnd Conn "nat option" string
  | OpJob nat
  | OpClient string string
  | OpClose nat
  | OpShutdown
  | OpSend go_context string proto_message
  | OpTell nat go_context proto_message
  | OpTellByAddr nat go_context proto_message
  | OpReply nat go_context uint64 proto_message
  | OpBroadcast go_context proto_message
  | OpBroadcastToPeers go_context proto_message
  | OpRequest nat go_context proto_message
  | OpWait nat uint64 wait_case
  | OpAsync nat go_context proto_message string
  | OpOpenStream nat
  | OpCloseStream nat string
  | OpStreamWrite string string Message
  | OpQueue nat
  | OpSendItem nat StreamSendItem

definition ignore_value :: "'a result \<times> Network \<Rightarrow> unit result \<times> Network" where
  "ignore_value r = (case r of (Inl e, n) \<Rightarrow> (Inl e, n) | (Inr _, n) \<Rightarrow> (Inr (), n))"

fun run_op :: "env \<Rightarrow> node_op \<Rightarrow> Network \<Rightarrow> unit result \<times> Network" where
  "run_op E (OpInbound k s) n = (Inr (), open_socket (Some (k, s)) n)"
| "run_op E (OpReceive acks k msg) n = ignore_value (accept_message E acks k msg n)"
| "run_op E (OpDatagram k d) n = ignore_value (accept_datagram E k d n)"
| "run_op E (OpEnd k cli e) n = finish_accept cli k (Err e, n)"
| "run_op E (OpJob c) n = executeJob E c n"
| "run_op E (OpClient a p) n = ignore_value (Client E a p n)"
| "run_op E (OpClose c) n = Close c n"
| "run_op E OpShutdown n = Network_Close n"
| "run_op E (OpSend ctx k m) n = Send E ctx k (Some m) n"
| "run_op E (OpTell c ctx m) n = Tell E c ctx (Some m) n"
| "run_op E (OpTellByAddr c ctx m) n = TellByAddr E c ctx (Some m) n"
| "run_op E (OpReply c ctx nonce m) n = Reply E c ctx nonce (Some m) n"
| "run_op E (OpBroadcast ctx m) n = Broadcast E ctx (Some m) n"
| "run_op E (OpBroadcastToPeers ctx m) n = BroadcastToPeers E ctx (Some m) n"
| "run_op E (OpRequest c ctx m) n = ignore_value (Request E c (Some ctx) (Some m) n)"
| "run_op E (OpWait c nonce w) n = ignore_value (Request_wait c nonce w n)"
| "run_op E (OpAsync c ctx m msgID) n = AsyncSendAndWaitAck E c (Some ctx) (Some m) msgID n"
| "run_op E (OpOpenStream c) n = ignore_value (OpenStream c n)"
| "run_op E (OpCloseStream c s) n = (Inr (), CloseStream c s n)"
| "run_op E (OpStreamWrite s k msg) n = StreamWrite s k msg n"
| "run_op E (OpQueue c) n = loopStreamSend c n"
| "run_op E (OpSendItem c item) n = send_item E c item n"

text \<open>The addresses that an operation registers name a supported protocol.\<close>

fun good_op :: "env \<Rightarrow> node_op \<Rightarrow> Network \<Rightarrow> bool" where
  "good_op E (OpReceive acks k msg) n = (case Sender msg of Some s \<Rightarrow> good_address E n (Address s) | None \<Rightarrow> True)"
| "good_op E (OpDatagram k d) n =
     (case receiveUDPMessage (unmarshal_Message E) (config n) d of
        Inr (Some msg) \<Rightarrow> (case Sender msg of Some s \<Rightarrow> good_address E n (Address s) | None \<Rightarrow> True)
      | _ \<Rightarrow> True)"
| "good_op E (OpClient a p) n = good_address E n a"
| "good_op E _ n = True"

definition no_peers :: "Network \<Rightarrow> bool" where
  "no_peers n \<longleftrightarrow> peers n = [] \<and> connections n = [] \<and> connStates n = [] \<and> streams n = []"

inductive reachable :: "env \<Rightarrow> Network \<Rightarrow> bool" for E where
  start: "no_peers n \<Longrightarrow> reachable E n"
| step: "reachable E n \<Longrightarrow> good_op E x n \<Longrightarrow> \<not> panics (fst (run_op E x n)) \<Longrightarrow> reachable E (snd (run_op E x n))"

inductive_cases reachable_cases: "reachable E n"

lemma snd_ignore_value [simp]: "snd (ignore_value r) = snd r"
  by (auto simp: ignore_value_def split: prod.split sum.split)

lemma tables_ok_run_op:
  assumes "tables_ok n" "good_op E x n"
  shows "tables_ok (snd (run_op E x n))"
proof (cases x)
  case (OpInbound k s)
  then show ?thesis using assms(1) by (simp add: tables_ok_def)
next
  case (OpReceive acks k msg)
  then show ?thesis using assms by (auto intro!: tables_ok_accept_message)
next
  case (OpDatagram k d)
  then show ?thesis using assms by (auto intro!: tables_ok_accept_datagram)
next
  case (OpClient a p)
  then show ?thesis using assms by (simp add: Client_def tables_ok_getOrSetPeerClient)
qed (use assms(1) tables_ok_finish_accept [of "(_, n)"] in
  \<open>simp_all add: tables_ok_executeJob tables_ok_Close tables_ok_Network_Close tables_ok_sends tables_ok_Request
    tables_ok_Request_wait tables_ok_Async tables_ok_stream_ops tables_ok_StreamWrite tables_ok_send_item\<close>)

lemma tables_ok_no_peers: "no_peers n \<Longrightarrow> tables_ok n"
  by (simp add: no_peers_def tables_ok_def tabs_def)

lemma reachable_tables_ok: "reachable E n \<Longrightarrow> tables_ok n"
  by (induction rule: reachable.induct) (simp_all add: tables_ok_no_peers tables_ok_run_op)

section \<open>A sample environment\<close>

text \<open>
  An environment for the witnesses: names resolve as in \<open>sample_lookup\<close>, every dial succeeds with a
  fresh socket that accepts all bytes, encodings are the contents.
\<close>

definition sample_env :: env where
  "sample_env = \<lparr>resolve = sample_lookup, net_Dial = (\<lambda>net a t. Inr (length a, \<lparr>sent = [], budget = None\<rparr>)),
     ReadFile = (\<lambda>p. Inl (Err ''no such file'')), LoadX509KeyPair = (\<lambda>c k. Inl (Err ''no such file'')),
     AppendCertsFromPEM = (\<lambda>b. False), tls_Dial = (\<lambda>a t ca cert. Inl (Err ''tls'')), marshal_Message = (\<lambda>m. Inr (ucast (Opcode_of m) # Message_body m)),
     unmarshal_Message = sample_unmarshal, marshal_proto = (\<lambda>m. Inr (Content m)),
     unmarshal_proto = (\<lambda>m b. Inr (m\<lparr>Content := b\<rparr>)), compressors = sample_codecs, time_Now = 100\<rparr>"

definition direct_net :: Network where
  "direct_net = EnableProxyMode False sample_net"

definition sample_id :: "byte \<Rightarrow> string \<Rightarrow> ID" where
  "sample_id k a = CreateID (\<lambda>b. b) a (Some [k])"

definition sample_ping :: "ID \<Rightarrow> Message" where
  "sample_ping s = \<lparr>Message_body = [], Sender = Some s, Signature = None, RequestNonce = 0, MessageNonce = 1,
     ReplyFlag = False, Opcode_of = PingCode, NetID = netID sample_config, MessageID = [], NeedAck = False\<rparr>"

definition sample_inbound :: Network where
  "sample_inbound = snd (run_op sample_env (OpInbound (TCPConn 0) \<lparr>sent = [], budget = None\<rparr>) direct_net)"

text \<open>A node with one peer, which connected from \<^verbatim>\<open>tcp://9.9.9.9:90\<close> and sent a ping.\<close>

definition sample_peer_net :: Network where
  "sample_peer_net =
     snd (run_op sample_env (OpReceive True (TCPConn 0) (sample_ping (sample_id 9 ''tcp://9.9.9.9:90''))) sample_inbound)"

lemma sample_inbound_reachable: "reachable sample_env sample_inbound"
  unfolding sample_inbound_def
  by (rule reachable.step [OF reachable.start]) (simp_all add: no_peers_def direct_net_def EnableProxyMode_def sample_net_def)

lemma sample_peer_net_reachable: "reachable sample_env sample_peer_net"
  unfolding sample_peer_net_def
proof (rule reachable.step [OF sample_inbound_reachable])
  show "good_op sample_env (OpReceive True (TCPConn 0) (sample_ping (sample_id 9 ''tcp://9.9.9.9:90''))) sample_inbound"
    by code_simp
  show "\<not> panics (fst (run_op sample_env (OpReceive True (TCPConn 0) (sample_ping (sample_id 9 ''tcp://9.9.9.9:90''))) sample_inbound))"
    by code_simp
qed

section \<open>Consistency\<close>



end
