(* ===== verification/Message_Flow.thy ===== *)
theory Message_Flow
  imports Node_Invariant
begin

text \<open>
  Messages between nodes: what one node prepares and writes, what the other verifies, dispatches and
  answers. The lemmas of the first section say which parts of a node sending, receiving, connecting
  and closing leave alone; the properties of sending and receiving rest on them. Component callbacks
  are recorded and not run: a component may itself replace the node's address or identity.
\<close>

section \<open>What sending and receiving leave alone\<close>

definition statics :: "Network \<Rightarrow> net_config \<times> options \<times> KeyPair option \<times> ID \<times> string \<times> opcode_tables" where
  "statics n = (config n, opts n, net_keys n, net_ID n, net_Address n, opcodes n)"

lemma staticsD:
  assumes "statics n1 = statics n"
  shows "config n1 = config n" "opts n1 = opts n" "net_keys n1 = net_keys n" "net_ID n1 = net_ID n"
    "net_Address n1 = net_Address n" "opcodes n1 = opcodes n"
  using assms by (simp_all add: statics_def)

lemma statics_basic [simp]:
  "statics (update_client c f n) = statics n" "statics (shut k n) = statics n" "statics (delete_entries key n) = statics n"
  "statics (notify_all cb n) = statics n" "statics (snd (notify_quit cid n)) = statics n"
  "statics (n\<lparr>lookups := x1\<rparr>) = statics n" "statics (n\<lparr>connections := x2\<rparr>) = statics n"
  "statics (n\<lparr>clients := x3\<rparr>) = statics n" "statics (n\<lparr>peers := x4\<rparr>) = statics n" "statics (n\<lparr>goroutines := x5\<rparr>) = statics n"
  "statics (n\<lparr>streams := x6\<rparr>) = statics n" "statics (n\<lparr>sockets := x7\<rparr>) = statics n" "statics (n\<lparr>connStates := x8\<rparr>) = statics n"
  by (simp_all add: statics_def update_client_def shut_def delete_entries_def UpdateConnState_def notify_all_eq
      notify_quit_def split: option.split)

lemma statics_close_conn: "close_conn protocol cn n = Inr m \<Longrightarrow> statics m = statics n"
  by (auto simp: close_conn_def Let_def split: if_splits option.splits)

lemma statics_remove_entry [simp]: "statics (snd (remove_entry key n)) = statics n"
  by (auto simp: remove_entry_def statics_close_conn split: option.split sum.split)

lemma statics_RemoveEntries [simp]: "statics (snd (RemoveEntries c n)) = statics n"
proof -
  have a: "statics m = statics n" if "remove_entry key n = (r, m)" for key r m n
    using statics_remove_entry [of key n] that by simp
  have b: "statics m = statics n" if "notify_quit cid n = (r, m)" for cid r m n
    using statics_basic(5) [of cid n] that by simp
  show ?thesis
    by (auto simp: RemoveEntries_def Let_def split: prod.split sum.split if_split dest!: a b)
qed

lemma statics_Close [simp]: "statics (snd (Close c n)) = statics n"
proof -
  have a: "statics m = statics n" if "RemoveEntries c n = (r, m)" for c r m n
    using statics_RemoveEntries [of c n] that by simp
  show ?thesis by (auto simp: Close_def Let_def split: prod.split sum.split dest!: a)
qed

lemma statics_close_on_error [simp]: "statics (snd (close_on_error k r)) = statics (snd r)"
proof -
  have a: "statics m = statics n" if "Close c n = (r, m)" for c r m n
    using statics_Close [of c n] that by simp
  show ?thesis
    by (cases r) (auto simp: close_on_error_def split: sum.split go_error.split option.split prod.split dest!: a)
qed

lemma statics_write_stream [simp]: "statics (snd (write_stream E k st msg n)) = statics n"
  by (auto simp: write_stream_def store_writer_def statics_def split: sum.split prod.split)

lemma statics_write_datagram [simp]: "statics (write_datagram E st msg n) = statics n"
  by (auto simp: write_datagram_def split: option.split prod.split Conn.split)

lemma statics_Write [simp]: "statics (snd (Write E k msg n)) = statics n"
  by (auto simp: Write_def Let_def split: option.split sum.split)


lemma statics_deliver [simp]: "statics (snd (deliver c msg ptr n)) = statics n"
  by (auto simp: deliver_def split: option.split)

lemma statics_dispatchMessage [simp]: "statics (snd (dispatchMessage E c msg n)) = statics n"
  by (auto simp: dispatchMessage_def split: option.split)

lemma statics_Tell [simp]: "statics (snd (Tell E c ctx m n)) = statics n"
  by (auto simp: Tell_def split: sum.split)

lemma statics_reply_ack [simp]: "statics (snd (reply_ack E c msg n)) = statics n"
proof -
  have a: "statics m = statics n" if "Tell E c ctx p n = (r, m)" for c ctx p r m n
    using statics_Tell [of E c ctx p n] that by simp
  show ?thesis by (auto simp: reply_ack_def split: prod.split sum.split go_error.split dest!: a)
qed

lemma statics_reset [simp]: "statics (resetConnMgrItemByPeerID a k n) = statics n"
  by (auto simp: resetConnMgrItemByPeerID_def Let_def split: option.split)

lemma statics_Dial [simp]: "statics (snd (Dial E a c n)) = statics n"
  by (auto simp: Dial_def start_accept_def open_socket_def split: sum.split option.split)

lemma statics_initConnection: "initConnection a k cn n = Inr m \<Longrightarrow> statics m = statics n"
  by (auto simp: initConnection_def Let_def split: sum.splits if_splits)

lemma statics_register_client [simp]: "statics (snd (register_client E a k cn c n)) = statics n"
  by (auto simp: register_client_def Init_def UpdateConnState_def Let_def statics_initConnection split: sum.split)

lemma statics_connect_new [simp]: "statics (snd (connect_new E a k cn x n)) = statics n"
proof -
  have a: "statics m = statics n" if "Dial E a c n = (r, m)" for c r m n
    using statics_Dial [of E a c n] that by simp
  show ?thesis
    by (auto simp: connect_new_def Let_def split: option.split prod.split sum.split dest!: a)
qed

lemma statics_getOrSetPeerClient [simp]: "statics (snd (getOrSetPeerClient E a k cn n)) = statics n"
  by (cases rule: getOrSet_cases [of E a k cn n]) simp_all

lemma statics_identify [simp]: "statics (snd (identify E incoming sender n)) = statics n"
proof -
  have a: "statics m = statics n" if "getOrSetPeerClient E a k cn n = (r, m)" for a k cn r m n
    using statics_getOrSetPeerClient [of E a k cn n] that by simp
  show ?thesis by (auto simp: identify_def Let_def split: prod.split sum.split dest!: a)
qed

lemma statics_accept_message [simp]: "statics (snd (accept_message E acks incoming msg n)) = statics n"
proof -
  have a: "statics m = statics n" if "identify E incoming sender n = (r, m)" for sender r m
    using statics_identify [of E incoming sender n] that by simp
  have b: "statics m = statics n1" if "reply_ack E c msg n1 = (r, m)" for c r m n1
    using statics_reply_ack [of E c msg n1] that by simp
  have d: "statics m = statics n1" if "dispatchMessage E c msg n1 = (r, m)" for c r m n1
    using statics_dispatchMessage [of E c msg n1] that by simp
  show ?thesis
    by (auto simp: accept_message_def split: option.split prod.split sum.split bool.split if_split dest!: a b d)
qed

section \<open>Sending to many\<close>

lemma PrepareMessage_statics: "statics n1 = statics n \<Longrightarrow> PrepareMessage E ctx m n1 = PrepareMessage E ctx m n"
  by (simp only: PrepareMessage_def prepare_def staticsD [of n1 n])

text \<open>Sending the message to each target by itself; an error of one does not stop the others.\<close>

fun send_each :: "env \<Rightarrow> go_context \<Rightarrow> proto_message \<Rightarrow> string list \<Rightarrow> Network \<Rightarrow> unit result \<times> Network" where
  "send_each E ctx m [] n = (Inr (), n)"
| "send_each E ctx m (t # ts) n =
     (case Send E ctx t (Some m) n of
        (Inl (Panic p), n1) \<Rightarrow> (Inl (Panic p), n1)
      | (Inl (Blocks p), n1) \<Rightarrow> (Inl (Blocks p), n1)
      | (_, n1) \<Rightarrow> send_each E ctx m ts n1)"

lemma write_each_sends:
  assumes "PrepareMessage E ctx (Some m) n = Inr msg"
  shows "write_each E ts msg n = send_each E ctx m ts n"
  using assms
proof (induction ts arbitrary: n)
  case (Cons t ts)
  obtain r n1 where w: "Write E t msg n = (r, n1)" by force
  have "statics n1 = statics n" using statics_Write [of E t msg n] w by simp
  from PrepareMessage_statics [OF this] have "PrepareMessage E ctx (Some m) n1 = Inr msg"
    using Cons.prems by (rule trans)
  note IH = Cons.IH [OF this]
  have s: "Send E ctx t (Some m) n = (r, n1)" using Cons.prems w by (simp add: Send_def)
  show ?case
  proof (cases r)
    case (Inl e)
    then show ?thesis using w s IH by (cases e) simp_all
  qed (use w s IH in simp)
qed simp

text \<open>
  C12. The broadcasts prepare and sign a message once and write it to every target. This is the same
  as sending the message to every target by itself, one after the other, where a target that cannot
  be reached does not keep the later ones from getting it. A message that cannot be prepared is sent
  to nobody.
\<close>

theorem broadcast_equals_sends:
  "BroadcastByClientIDs E ctx (Some m) ids n =
     (case PrepareMessage E ctx (Some m) n of
        Inr _ \<Rightarrow> send_each E ctx m ids n
      | Inl (Err _) \<Rightarrow> (Inr (), n)
      | Inl p \<Rightarrow> (Inl p, n)) \<and>
   Broadcast E ctx (Some m) n = BroadcastByClientIDs E ctx (Some m) (map PeerID (EachPeer n)) n \<and>
   BroadcastByIDs E ctx (Some m) peer_ids n = BroadcastByAddresses E ctx (Some m) (map Address peer_ids) n"
  by (auto simp: BroadcastByClientIDs_def Broadcast_def BroadcastByIDs_def BroadcastByAddresses_def broadcast_def
      write_each_sends split: sum.split go_error.split)

section \<open>The byte stream of a client\<close>

text \<open>Bytes arrive from the peer and are read by the application, in any order.\<close>

datatype byte_op = Arrive bytes | ReadOp int nat

fun run_bytes :: "byte_op list \<Rightarrow> PeerClient \<Rightarrow> bytes \<times> PeerClient" where
  "run_bytes [] c = ([], c)"
| "run_bytes (Arrive pkt # xs) c = run_bytes xs (handleBytes pkt c)"
| "run_bytes (ReadOp now room # xs) c =
     (case Read now room c of
        (r, c1) \<Rightarrow>
          (case run_bytes xs c1 of
             (out, c2) \<Rightarrow> ((case r of Inr (b, _) \<Rightarrow> b | Inl _ \<Rightarrow> []) @ out, c2)))"

text \<open>The specification: a queue of bytes.\<close>

fun run_queue :: "byte_op list \<Rightarrow> bytes \<Rightarrow> bytes \<times> bytes" where
  "run_queue [] q = ([], q)"
| "run_queue (Arrive pkt # xs) q = run_queue xs (q @ pkt)"
| "run_queue (ReadOp now room # xs) q = (case run_queue xs (drop room q) of (out, q1) \<Rightarrow> (take room q @ out, q1))"

abbreviation pending :: "PeerClient \<Rightarrow> bytes" where
  "pending c \<equiv> stream_buffer (client_stream c)"

lemma Read_queue:
  assumes "Read now room c = (r, c1)"
  shows "pending c1 = drop room (pending c)" "(case r of Inr (b, _) \<Rightarrow> b | Inl _ \<Rightarrow> []) = take room (pending c)"
  using assms by (auto simp: Read_def Let_def min_def split: if_splits)

lemma run_bytes_queue:
  "run_bytes xs c = (out, c') \<Longrightarrow> run_queue xs (pending c) = (out, pending c')"
proof (induction xs c arbitrary: out c' rule: run_bytes.induct)
  case (3 now room xs c)
  obtain r c1 where r: "Read now room c = (r, c1)" by force
  obtain out2 c2 where o: "run_bytes xs c1 = (out2, c2)" by force
  have "run_queue xs (drop room (pending c)) = (out2, pending c2)"
    using "3.IH" [OF r [symmetric] o] Read_queue(1) [OF r] by simp
  then show ?case using "3.prems" r o Read_queue(2) [OF r] by simp
qed (simp_all add: handleBytes_def)

lemma run_queue_fifo: "run_queue xs q = (out, q') \<Longrightarrow> out @ q' = q @ concat [pkt. Arrive pkt \<leftarrow> xs]"
  by (induction xs q arbitrary: out q' rule: run_queue.induct) (auto split: prod.splits)

text \<open>
  C11. The byte stream of a client implements a queue of bytes: in any interleaving of arriving
  packets and reads of any sizes, also past a deadline or after the stream was closed, the reads
  return what the queue would, so that the bytes read followed by the bytes still pending are exactly
  the bytes that arrived, in order. A read waits exactly when the stream is open, its deadline has
  not passed, and there is nothing pending or no room.
\<close>

theorem byte_stream_fifo:
  assumes "run_bytes xs c = (out, c')"
  shows "run_queue xs (stream_buffer (client_stream c)) = (out, stream_buffer (client_stream c')) \<and>
    out @ stream_buffer (client_stream c') = stream_buffer (client_stream c) @ concat [pkt. Arrive pkt \<leftarrow> xs] \<and>
    (fst (Read now room c) = Inl (Blocks ''buffered'') \<longleftrightarrow>
       \<not> isClosed (client_stream c) \<and> (case readDeadline (client_stream c) of Some d \<Rightarrow> now \<le> d | None \<Rightarrow> True) \<and>
       (room = 0 \<or> stream_buffer (client_stream c) = []))"
  using run_bytes_queue [OF assms] run_queue_fifo
  by (auto simp: Read_def Let_def not_less split: option.split)


theorem byte_stream_fifo_witness:
  "\<exists>c'. run_bytes [Arrive [1, 2, 3], ReadOp 0 2, Arrive [4], ReadOp 0 9] (client_of sample_peer_net 0) = ([1, 2, 3, 4], c') \<and>
     stream_buffer (client_stream c') = []"
proof -
  let ?xs = "[Arrive [1, 2, 3], ReadOp 0 2, Arrive [4], ReadOp 0 9]"
  let ?c = "client_of sample_peer_net 0"
  obtain out c' where r: "run_bytes ?xs ?c = (out, c')" by force
  have p: "stream_buffer (client_stream ?c) = []" by code_simp
  have "run_queue ?xs [] = (out, stream_buffer (client_stream c'))"
    using byte_stream_fifo [OF r, of 0 0] unfolding p by blast
  moreover have "run_queue ?xs [] = ([1, 2, 3, 4], [])" by code_simp
  ultimately show ?thesis using r by auto
qed

section \<open>Preparing and verifying\<close>

text \<open>
  The protobuf encoding of messages: decoding into a message of the same type restores it, and a
  message without content is encoded as nothing.
\<close>

definition proto_codec :: "env \<Rightarrow> bool" where
  "proto_codec E \<longleftrightarrow>
     (\<forall>m p raw. marshal_proto E m = Inr raw \<longrightarrow> TypeOf p = TypeOf m \<longrightarrow> unmarshal_proto E p raw = Inr m) \<and>
     (\<forall>t. marshal_proto E (zero_message t) = Inr [])"

definition registered :: "env \<Rightarrow> opcode_tables \<Rightarrow> bool" where
  "registered E t \<longleftrightarrow> (\<exists>rs. t = register_all (marshal_proto E) rs init_tables)"

lemma registered_empty:
  "opcodeTbl (register_all marshal rs t) c = Some m \<Longrightarrow> (\<And>c m. opcodeTbl t c = Some m \<Longrightarrow> marshal m = Inr []) \<Longrightarrow>
    marshal m = Inr []"
proof (induction marshal rs t rule: register_all.induct)
  case (2 marshal c' m' rs t)
  have "marshal m = Inr []" if "opcodeTbl (snd (RegisterMessageType marshal t c' m')) c = Some m" for c m
    by (rule register_cases [of marshal t c' m']) (use that 2(3) in \<open>auto split: if_splits\<close>)
  then show ?case using 2(1,2) by simp
qed simp

lemma init_empty:
  assumes "proto_codec E" "opcodeTbl init_tables c = Some m"
  shows "marshal_proto E m = Inr []"
  using assms
  by (auto simp: proto_codec_def init_tables_def msgOpcodePairs_def store_pair_def split: if_splits)

lemma builtin_init: "builtin_type c = Some ty \<Longrightarrow> opcodeTbl init_tables c = Some (zero_message ty)"
  by (auto simp: builtin_type_def init_tables_def msgOpcodePairs_def store_pair_def opcode_defs split: if_splits)

lemma empty_message_registered:
  assumes "registered E t" "opcodeTbl t c = Some p"
  shows "empty_message t c = Some p"
proof -
  obtain rs where t: "t = register_all (marshal_proto E) rs init_tables" using assms(1) by (auto simp: registered_def)
  have "opcodeTbl t UnregisteredCode = opcodeTbl init_tables UnregisteredCode"
    unfolding t by (rule register_all_reserved) (simp add: opcode_defs)
  also have "\<dots> = None" by (simp add: init_tables_def msgOpcodePairs_def store_pair_def opcode_defs)
  finally have "c \<noteq> UnregisteredCode" using assms(2) by auto
  moreover have "opcodeTbl t c = Some (zero_message ty)" if "builtin_type c = Some ty" for ty
    unfolding t by (rule register_all_stable [OF builtin_init [OF that]])
  ultimately show ?thesis
    using assms(2) by (cases "builtin_type c") (simp_all add: empty_message_def GetMessageType_def)
qed

lemma decode_encoded:
  assumes "proto_codec E" "registered E t" "GetOpcode t m = Inr (Opcode_of msg)" "marshal_proto E m = Inr (Message_body msg)"
  shows "decode_body E t msg = Some m"
proof -
  obtain rs where t: "t = register_all (marshal_proto E) rs init_tables" using assms(2) by (auto simp: registered_def)
  have "tables_inv t" unfolding t by (rule register_all_inv [OF init_tables_inv])
  then obtain p where p: "opcodeTbl t (Opcode_of msg) = Some p" "TypeOf p = TypeOf m"
    using assms(3) by (auto simp: tables_inv_def GetOpcode_Inr)
  have "marshal_proto E p = Inr []"
    using registered_empty [of "marshal_proto E" rs init_tables] p(1) init_empty [OF assms(1)] unfolding t by blast
  then have "unmarshal_proto E p (Message_body msg) = Inr m" "unmarshal_proto E p [] = Inr p"
    using assms(1,4) p(2) by (simp_all add: proto_codec_def)
  then show ?thesis
    using empty_message_registered [OF assms(2) p(1)] by (auto simp: decode_body_def)
qed

lemma SerializeMessage_total: "\<exists>b. SerializeMessage i m = Inr b"
  by (simp add: SerializeMessage_eq)

text \<open>
  C4. A message that a node prepares and signs passes the signature check of every node with the
  same policies under the sender's own identity, and that node decodes from it the message that the
  application gave, of the same type, whatever application messages have been registered.
\<close>

theorem prepared_message_accepted:
  assumes "proto_codec E" "registered E (opcodes n)" "opcodes nr = opcodes n"
    and "correct_pair (signaturePolicy (opts n)) k"
    and "net_keys n = Some k" "NetKey (net_ID n) = Some (PublicKey k)"
    and "signaturePolicy (opts nr) = signaturePolicy (opts n)" "hashPolicy (opts nr) = hashPolicy (opts n)"
    and "GetSignMessage ctx" "GetOpcode (opcodes n) m = Inr c" "marshal_proto E m = Inr raw"
  shows "\<exists>msg. PrepareMessage E ctx (Some m) n = Inr msg \<and> Sender msg = Some (net_ID n) \<and> Signature msg \<noteq> None \<and>
    signature_ok nr msg (net_ID n) = Inr True \<and> decode_body E (opcodes nr) msg = Some m"
proof -
  obtain b where b: "SerializeMessage (net_ID n) raw = Inr b" using SerializeMessage_total by blast
  obtain s where s: "Sign k (signaturePolicy (opts n)) (hashPolicy (opts n)) b = Inr s"
    "Verify (signaturePolicy (opts n)) (hashPolicy (opts n)) (PublicKey k) b s"
    using Sign_Verify [OF assms(4)] by blast
  let ?msg = "\<lparr>Message_body = raw, Sender = Some (net_ID n), Signature = Some s, RequestNonce = 0, MessageNonce = 0,
    ReplyFlag = False, Opcode_of = c, NetID = netID (config n), MessageID = [], NeedAck = False\<rparr>"
  have "PrepareMessage E ctx (Some m) n = Inr ?msg"
    using assms b s(1) by (simp add: PrepareMessage_def prepare_def)
  moreover have "signature_ok nr ?msg (net_ID n) = Inr True"
    using assms(6-8) b s(2) by (simp add: signature_ok_def)
  moreover have "decode_body E (opcodes nr) ?msg = Some m"
    using decode_encoded [OF assms(1,2), of m ?msg] assms(3,10,11) by simp
  ultimately show ?thesis by fastforce
qed


lemma sample_env_codec: "proto_codec sample_env"
  by (simp add: proto_codec_def sample_env_def zero_message_def)

lemma sample_net_registered: "registered sample_env (opcodes sample_net)"
  unfolding registered_def by (rule exI [of _ "[]"]) (simp add: sample_net_def)

theorem prepared_message_accepted_witness:
  "\<exists>msg. PrepareMessage sample_env (WithSignMessage context_Background True)
       (Some \<lparr>TypeOf = ''*protobuf.Bytes'', Content = [5]\<rparr>) sample_net = Inr msg \<and>
     signature_ok direct_net msg (net_ID sample_net) = Inr True \<and>
     decode_body sample_env (opcodes direct_net) msg = Some \<lparr>TypeOf = ''*protobuf.Bytes'', Content = [5]\<rparr>"
proof -
  let ?m = "\<lparr>TypeOf = ''*protobuf.Bytes'', Content = [5]\<rparr>"
  have d: "opcodes direct_net = opcodes sample_net" "opts direct_net = opts sample_net"
    by (simp_all add: direct_net_def EnableProxyMode_def)
  have o: "opts sample_net = sample_opts" "net_keys sample_net = Some \<lparr>PrivateKey = [7], PublicKey = [7]\<rparr>"
    "NetKey (net_ID sample_net) = Some (PublicKey \<lparr>PrivateKey = [7], PublicKey = [7]\<rparr>)"
    by (simp_all add: sample_net_def CreateID_def)
  have p: "correct_pair (signaturePolicy (opts sample_net)) \<lparr>PrivateKey = [7], PublicKey = [7]\<rparr>"
    using sample_policy_correct by (simp add: o sample_opts_def)
  have c: "GetOpcode (opcodes sample_net) ?m = Inr BytesCode" "marshal_proto sample_env ?m = Inr [5]"
    "GetSignMessage (WithSignMessage context_Background True)"
    by code_simp+
  show ?thesis
    using prepared_message_accepted [OF sample_env_codec sample_net_registered d(1) p o(2,3) _ _ c(3,1,2)] d(2)
    by auto
qed

section \<open>Accepting\<close>

lemma accept_messageE:
  assumes "accept_message E acks incoming msg n = (Inr c, n')"
  obtains sender n1 n2 where "Sender msg = Some sender" "identify E incoming sender n = (Inr c, n1)"
    "signature_ok n1 msg sender = Inr True" "check_identity c sender n1 = Inr ()"
    "(if acks then reply_ack E c msg n1 else (Inr (), n1)) = (Inr (), n2)" "dispatchMessage E c msg n2 = (Inr (), n')"
  using assms
  by (auto simp: accept_message_def split: option.splits prod.splits sum.splits bool.splits)

lemma signature_ok_statics: "statics n1 = statics n \<Longrightarrow> signature_ok n1 msg sender = signature_ok n msg sender"
  by (simp only: signature_ok_def staticsD [of n1 n])


lemma client_of_update [simp]:
  "c < length (clients n) \<Longrightarrow> client_of (update_client c f n) c = f (client_of n c)"
  by (simp add: client_of_def update_client_def)

text \<open>
  C14. The identity of a client is replaced before the signature of the message is checked: a message
  with an invalid signature is refused, but the client of the connection already carries the identity
  that the message claims. The later comparison of the two identities can therefore not fail.
\<close>

theorem forged_message_takes_identity:
  assumes "Sender msg = Some sender" "signature_ok n msg sender = Inr False"
    and "getOrSetPeerClient E (Address sender) (hex_EncodeToString (slice (NetKey sender)))
      (if ProxyModeEnable n then None else Some incoming) n = (Inr c, n1)"
    and "ConnectionStateExists n1 (hex_EncodeToString (slice (NetKey sender)))" "c < length (clients n1)"
  shows "\<exists>n2. accept_message E acks incoming msg n = (Inl (Err ''received message had an malformed signature''), n2) \<and>
    client_ID (client_of n2 c) = Some sender \<and> callbacks n2 = callbacks n1 \<and> check_identity c sender n2 = Inr ()"
proof -
  let ?n2 = "update_client c (\<lambda>cl. cl\<lparr>client_ID := Some sender\<rparr>) n1"
  have c: "client_ID (client_of ?n2 c) = Some sender" using assms(5) by simp
  have "ConnectionStateExists ?n2 (PeerID (client_of ?n2 c))"
    using assms(4) c by (simp add: PeerID_def ConnectionStateExists_def update_client_def)
  then have i: "identify E incoming sender n = (Inr c, ?n2)"
    using assms(3) by (simp add: identify_def Let_def)
  then have "statics ?n2 = statics n" using statics_identify [of E incoming sender n] by simp
  from signature_ok_statics [OF this] have "signature_ok ?n2 msg sender = Inr False" using assms(2) by metis
  then have "accept_message E acks incoming msg n = (Inl (Err ''received message had an malformed signature''), ?n2)"
    using assms(1) i by (simp add: accept_message_def)
  then show ?thesis using c by (auto simp: update_client_def check_identity_def Equals_def)
qed


text \<open>A ping of the sample peer with a valid signature, or with another one.\<close>

definition sample_peer :: ID where
  "sample_peer = sample_id 9 ''tcp://9.9.9.9:90''"

definition sample_signed :: "bool \<Rightarrow> Message" where
  "sample_signed valid = (sample_ping sample_peer)\<lparr>Signature :=
     Some (case SerializeMessage sample_peer [] of Inr b \<Rightarrow> (if valid then 9 else 8) # b | Inl _ \<Rightarrow> [])\<rparr>"


theorem forged_message_takes_identity_witness:
  "\<exists>n2. accept_message sample_env True (TCPConn 0) (sample_signed False) sample_inbound =
      (Inl (Err ''received message had an malformed signature''), n2) \<and> client_ID (client_of n2 0) = Some sample_peer"
proof -
  let ?g = "getOrSetPeerClient sample_env (Address sample_peer) (hex_EncodeToString (slice (NetKey sample_peer)))
    (if ProxyModeEnable sample_inbound then None else Some (TCPConn 0)) sample_inbound"
  have h: "Sender (sample_signed False) = Some sample_peer" "signature_ok sample_inbound (sample_signed False) sample_peer = Inr False"
    by code_simp+
  have g: "fst ?g = Inr 0" "ConnectionStateExists (snd ?g) (hex_EncodeToString (slice (NetKey sample_peer)))"
    "0 < length (clients (snd ?g))"
    by code_simp+
  have "?g = (Inr 0, snd ?g)" using g(1) by (metis prod.collapse)
  from forged_message_takes_identity [OF h this g(2,3)] show ?thesis by blast
qed

section \<open>Requests and replies\<close>

lemma clients_simps [simp]:
  "clients (n\<lparr>connections := x\<rparr>) = clients n" "clients (store_writer k st w n) = clients n"
  "clients (write_datagram E st msg n) = clients n"
  by (auto simp: store_writer_def write_datagram_def split: option.split prod.split Conn.split)

lemma close_on_error_Inr: "close_on_error k r = (Inr (), n1) \<longleftrightarrow> r = (Inr (), n1)"
  by (cases r) (auto simp: close_on_error_def split: sum.splits go_error.splits option.splits prod.splits)

lemma Write_ok_clients:
  assumes "Write E k msg n = (Inr (), n1)"
  shows "clients n1 = clients n"
  using assms
  by (auto simp: Write_def Let_def close_on_error_Inr write_stream_def split: option.splits sum.splits if_splits prod.splits)

lemma RequestE:
  assumes "Request E c (Some ctx) req n = (Inr nonce, n1)"
  shows "nonce = client_RequestNonce (client_of n c) + 1"
    "clients n1 = (clients n)[c := (client_of n c)\<lparr>client_RequestNonce := nonce,
       Requests := Store nonce \<lparr>req_data = [], req_closed = False\<rparr> (Requests (client_of n c))\<rparr>]"
  using assms
  by (auto simp: Request_def Let_def client_of_def update_client_def dest!: Write_ok_clients
      split: option.splits sum.splits prod.splits)

text \<open>Messages dispatched to a client one after the other.\<close>

fun dispatch_all :: "env \<Rightarrow> nat \<Rightarrow> Message list \<Rightarrow> Network \<Rightarrow> unit result \<times> Network" where
  "dispatch_all E c [] n = (Inr (), n)"
| "dispatch_all E c (msg # msgs) n =
     (case dispatchMessage E c msg n of
        (Inl e, n1) \<Rightarrow> (Inl e, n1)
      | (Inr _, n1) \<Rightarrow> dispatch_all E c msgs n1)"

text \<open>A client waits for the reply to a request.\<close>

definition waiting :: "nat \<Rightarrow> uint64 \<Rightarrow> Network \<Rightarrow> bool" where
  "waiting c nonce n \<longleftrightarrow> c < length (clients n) \<and> incomingReady (client_of n c) \<and>
     (\<exists>r. Load (Requests (client_of n c)) nonce = Some r \<and> req_data r = [])"

definition answers :: "uint64 \<Rightarrow> Message \<Rightarrow> bool" where
  "answers nonce msg \<longleftrightarrow> ReplyFlag msg \<and> RequestNonce msg = nonce"

lemma clients_notify_all [simp]: "clients (notify_all cb n) = clients n"
  by (simp add: notify_all_eq)

lemma waiting_update:
  assumes "waiting c nonce n" "Load (Requests (f (client_of n c))) nonce = Load (Requests (client_of n c)) nonce"
    and "incomingReady (f (client_of n c)) = incomingReady (client_of n c)"
  shows "waiting c nonce (update_client c f n)"
  using assms by (auto simp: waiting_def) (simp add: update_client_def)

lemma waiting_notify [simp]: "waiting c nonce (notify_all cb n) = waiting c nonce n"
  by (simp add: waiting_def client_of_def)

lemma waiting_dispatch:
  assumes "waiting c nonce n" "\<not> answers nonce msg"
  shows "waiting c nonce (snd (dispatchMessage E c msg n))"
proof -
  have d: "waiting c nonce (snd (deliver c msg ptr m))" if m: "waiting c nonce m" for ptr m
  proof (cases "if 0 < RequestNonce msg \<and> ReplyFlag msg then Load (Requests (client_of m c)) (RequestNonce msg) else None")
    case None
    then show ?thesis
      using m by (auto simp: deliver_def handleBytes_def intro!: waiting_update)
  next
    case (Some r)
    then have "RequestNonce msg \<noteq> nonce" using assms(2) by (auto simp: answers_def split: if_splits)
    then show ?thesis using m Some by (auto simp: deliver_def intro!: waiting_update)
  qed
  have "waiting c nonce (update_client c (\<lambda>cl. cl\<lparr>client_Time := time_Now E\<rparr>) n)"
    by (rule waiting_update [OF assms(1)]) simp_all
  then show ?thesis using assms(1) d by (auto simp: dispatchMessage_def split: option.split)
qed

lemma waiting_dispatch_all:
  "waiting c nonce n \<Longrightarrow> \<forall>m \<in> set msgs. \<not> answers nonce m \<Longrightarrow> waiting c nonce (snd (dispatch_all E c msgs n))"
proof (induction msgs arbitrary: n)
  case (Cons m ms)
  have "waiting c nonce (snd (dispatchMessage E c m n))" using Cons.prems waiting_dispatch by simp
  then show ?case using Cons by (auto split: prod.split sum.split)
qed simp


lemma reply_delivered:
  assumes "waiting c nonce n" "answers nonce msg" "nonce \<noteq> 0" "Sender msg \<noteq> None" "decode_body E (opcodes n) msg = Some res"
  obtains n3 r where "dispatchMessage E c msg n = (Inr (), n3)" "Load (Requests (client_of n3 c)) nonce = Some r"
    "req_data r = [res]" "callbacks n3 = callbacks n" "c < length (clients n3)"
proof -
  let ?m = "update_client c (\<lambda>cl. cl\<lparr>client_Time := time_Now E\<rparr>) n"
  obtain r where w: "c < length (clients n)" "incomingReady (client_of n c)"
    "Load (Requests (client_of n c)) nonce = Some r" "req_data r = []"
    using assms(1) by (auto simp: waiting_def)
  have a: "ReplyFlag msg" "RequestNonce msg = nonce" "0 < nonce"
    using assms(2,3) by (simp_all add: answers_def word_gt_0)
  let ?n3 = "update_client c (\<lambda>cl. cl\<lparr>Requests := Store nonce (r\<lparr>req_data := [res]\<rparr>) (Requests cl)\<rparr>) ?m"
  have "dispatchMessage E c msg n = deliver c msg res ?m"
    using assms(4,5) w(2) by (auto simp: dispatchMessage_def IsIncomingReady_def)
  also have "\<dots> = (Inr (), ?n3)" using a w by (simp add: deliver_def)
  finally show thesis
    by (rule that [of _ "r\<lparr>req_data := [res]\<rparr>"])
      (use w(1) in \<open>simp_all add: client_of_def update_client_def\<close>)
qed

text \<open>
  C3. A request is answered: after a request was sent, whatever other messages are dispatched to its
  client meanwhile, the request keeps waiting; when a message arrives that carries its nonce and the
  reply flag, the wait ends with exactly the decoded reply, no component sees that reply, and the
  request is no longer tracked.
\<close>

theorem request_answered:
  assumes "Request E c (Some ctx) (Some req) n = (Inr nonce, n1)" "c < length (clients n)" "incomingReady (client_of n c)"
    and "\<forall>m \<in> set others. \<not> answers nonce m" "dispatch_all E c others n1 = (Inr (), n2)"
    and "answers nonce msg" "nonce \<noteq> 0" "Sender msg \<noteq> None" "decode_body E (opcodes n2) msg = Some res"
  shows "fst (Request_wait c nonce Replied n2) = Inl (Blocks ''request'') \<and>
    (\<exists>n3 n4. dispatchMessage E c msg n2 = (Inr (), n3) \<and> callbacks n3 = callbacks n2 \<and>
       Request_wait c nonce Replied n3 = (Inr res, n4) \<and> Load (Requests (client_of n4 c)) nonce = None)"
proof
  have "waiting c nonce n1"
    using RequestE [OF assms(1)] assms(2,3) by (simp add: waiting_def client_of_def)
  then have w: "waiting c nonce n2" using waiting_dispatch_all [OF _ assms(4), of c n1 E] assms(5) by simp
  then show "fst (Request_wait c nonce Replied n2) = Inl (Blocks ''request'')"
    by (auto simp: waiting_def Request_wait_def)
  obtain n3 r where d: "dispatchMessage E c msg n2 = (Inr (), n3)" "Load (Requests (client_of n3 c)) nonce = Some r"
    "req_data r = [res]" "callbacks n3 = callbacks n2" "c < length (clients n3)"
    by (rule reply_delivered [OF w assms(6-9)])
  then show "\<exists>n3 n4. dispatchMessage E c msg n2 = (Inr (), n3) \<and> callbacks n3 = callbacks n2 \<and>
       Request_wait c nonce Replied n3 = (Inr res, n4) \<and> Load (Requests (client_of n4 c)) nonce = None"
    by (auto simp: Request_wait_def stop_tracking_def)
qed

theorem request_answered_witness:
  "\<exists>n1 n3 n4. Request sample_env 0 (Some context_Background) (Some ping) sample_peer_net = (Inr 1, n1) \<and>
     dispatchMessage sample_env 0 ((sample_ping sample_peer)\<lparr>Opcode_of := PongCode, RequestNonce := 1, ReplyFlag := True\<rparr>) n1 =
       (Inr (), n3) \<and>
     Request_wait 0 1 Replied n3 = (Inr (zero_message ''*protobuf.Pong''), n4)"
proof -
  let ?r = "Request sample_env 0 (Some context_Background) (Some ping) sample_peer_net"
  let ?msg = "(sample_ping sample_peer)\<lparr>Opcode_of := PongCode, RequestNonce := 1, ReplyFlag := True\<rparr>"
  have "fst ?r = Inr 1" by code_simp
  then have r: "?r = (Inr 1, snd ?r)" by (metis prod.collapse)
  have h: "0 < length (clients sample_peer_net)" "incomingReady (client_of sample_peer_net 0)"
    "decode_body sample_env (opcodes (snd ?r)) ?msg = Some (zero_message ''*protobuf.Pong'')"
    by code_simp+
  have "answers 1 ?msg" "Sender ?msg \<noteq> None" by (simp_all add: answers_def sample_ping_def)
  then show ?thesis
    using request_answered [OF r h(1,2), of "[]" "snd ?r" ?msg "zero_message ''*protobuf.Pong''"] h(3) r by auto
qed

end
