(* ===== verification/Message_Delivery.thy ===== *)
theory Message_Delivery
  imports Message_Flow
begin

text \<open>
  From one node's \<open>Write\<close> to the other node's receive loop: the loop ends for every input, and a
  sequence of writes to a peer is received as the same sequence of messages, numbered in the order of
  the calls, however the network cuts the bytes.
\<close>

section \<open>The receive loop ends\<close>

lemma read_loop_Inr:
  assumes "read_loop k [] cs = Inr (b, cs')"
  shows "length (concat cs') + k = length (concat cs)"
  using read_loop_ok [of "[]" k cs] assms by (auto split: if_splits)

lemma io_ReadFull_Inr:
  assumes "io_ReadFull k cs = Inr (b, cs')"
  shows "length (concat cs') + k = length (concat cs)"
  using assms by (auto simp: io_ReadFull_def split: sum.splits intro: read_loop_Inr)

lemma receive_frame_shorter:
  assumes "receive_frame rd unmarshal z n segs = Inr (m, rest)"
    and rd: "\<And>k cs b cs'. rd k cs = Inr (b, cs') \<Longrightarrow> length (concat cs') + k = length (concat cs)"
  shows "length (concat rest) < length (concat segs)"
proof -
  have r: "length (concat (snd p)) + k = length (concat cs)" if "rd k cs = Inr p" for k cs p
    using rd [of k cs "fst p" "snd p"] that by simp
  show ?thesis
    using assms(1)
    by (auto simp: receive_frame_def rbind_Inr_iff case_prod_beta split: if_splits option.splits dest!: r)
qed

lemma accept_loop_fuel:
  assumes shorter: "\<And>n segs m rest. receive n segs = Inr (m, rest) \<Longrightarrow> length (concat rest) < length (concat segs)"
    and "length (concat segs) < fuel" "length (concat segs) < fuel'"
  shows "accept_loop receive E acks incoming fuel segs n = accept_loop receive E acks incoming fuel' segs n"
  using assms(2,3)
proof (induction fuel arbitrary: fuel' segs n)
  case (Suc fuel)
  then obtain f where f: "fuel' = Suc f" by (cases fuel') auto
  have "accept_loop receive E acks incoming fuel rest n1 = accept_loop receive E acks incoming f rest n1"
    if "receive n segs = Inr (m, rest)" for m rest n1
    using Suc.IH [of rest f n1] Suc.prems shorter [OF that] unfolding f by simp
  then show ?case unfolding f by (auto split: sum.split prod.split)
qed simp




section \<open>Writing to a peer\<close>

text \<open>
  A peer's stream connection \<open>k\<close> as \<open>initConnection\<close> sets it up and every successful \<open>Write\<close> leaves it:
  nothing is held back in the buffer, \<open>v\<close> messages have been numbered, \<open>out\<close> has been sent.
\<close>

definition link :: "Network \<Rightarrow> string \<Rightarrow> Conn \<Rightarrow> uint64 \<Rightarrow> bytes \<Rightarrow> bool" where
  "link n peerID k v out \<longleftrightarrow>
     (case ConnectionState n peerID of
        Some st \<Rightarrow> cs_conn st = Some k \<and> wr_conn st = Some k \<and> \<not> wr_nil st \<and> buffered (writer st) = [] \<and> messageNonce st = v
      | None \<Rightarrow> False) \<and> is_net_Conn k \<and>
     (case ParseAddress (net_Address n) of Inr info \<Rightarrow> Protocol info = ''tcp'' \<or> Protocol info = ''kcp'' | Inl _ \<Rightarrow> False) \<and>
     (case Load (sockets n) k of Some s \<Rightarrow> sent s = out | None \<Rightarrow> False)"

fun write_all :: "env \<Rightarrow> string \<Rightarrow> Message list \<Rightarrow> Network \<Rightarrow> unit result \<times> Network" where
  "write_all E peerID [] n = (Inr (), n)"
| "write_all E peerID (m # ms) n =
     (case Write E peerID m n of
        (Inl e, n1) \<Rightarrow> (Inl e, n1)
      | (Inr _, n1) \<Rightarrow> write_all E peerID ms n1)"

text \<open>The messages with the numbers that \<open>Write\<close> gives them.\<close>

fun numbered :: "uint64 \<Rightarrow> Message list \<Rightarrow> Message list" where
  "numbered v [] = []"
| "numbered v (m # ms) = m\<lparr>MessageNonce := v + 1\<rparr> # numbered (v + 1) ms"

abbreviation frame_of :: "env \<Rightarrow> net_config \<Rightarrow> Message \<Rightarrow> bytes result" where
  "frame_of E \<equiv> build_frame (marshal_Message E) (compressors E)"

lemma Write_link:
  assumes "link n p k v out" "Write E p m n = (Inr (), n1)"
  obtains f where "frame_of E (config n) (m\<lparr>MessageNonce := v + 1\<rparr>) = Inr f" "link n1 p k (v + 1) (out @ f)"
proof -
  let ?m = "m\<lparr>MessageNonce := v + 1\<rparr>"
  obtain st s info where l: "ConnectionState n p = Some st" "cs_conn st = Some k" "wr_conn st = Some k" "\<not> wr_nil st"
    "buffered (writer st) = []" "messageNonce st = v" "is_net_Conn k" "ParseAddress (net_Address n) = Inr info"
    "Protocol info = ''tcp'' \<or> Protocol info = ''kcp''" "Load (sockets n) k = Some s" "sent s = out"
    using assms(1) by (auto simp: link_def split: option.splits sum.splits)
  let ?st = "st\<lparr>messageNonce := v + 1\<rparr>"
  let ?n = "n\<lparr>connections := Store p ?st (connections n)\<rparr>"
  have "close_on_error p (write_stream E p ?st ?m ?n) = (Inr (), n1)"
    using assms(2) l by (simp add: Write_def Let_def split: if_splits)
  then have ws: "write_stream E p ?st ?m ?n = (Inr (), n1)" by (simp add: close_on_error_Inr)
  have lw: "load_writer ?n ?st = (writer st)\<lparr>wr := s\<rparr>" using l by (simp add: load_writer_def)
  obtain err w where sm: "sendMessage (marshal_Message E) (compressors E) (config n) ((writer st)\<lparr>wr := s\<rparr>) ?m = (err, w)"
    by force
  have e: "err = None" "n1 = store_writer p ?st w ?n"
    using ws sm lw l(4) by (auto simp: write_stream_def split: sum.splits option.splits)
  obtain f where f: "frame_of E (config n) ?m = Inr f" "sent (wr w) = accepted ((writer st)\<lparr>wr := s\<rparr>) @ f" "buffered w = []"
    by (rule sendMessage_ok [OF sm [unfolded e(1)]])
  have "link n1 p k (v + 1) (out @ f)"
    using l f(2,3) unfolding e(2) by (simp add: link_def store_writer_def ConnectionState_def accepted_def)
  with f(1) show thesis by (rule that)
qed

lemma write_all_link:
  assumes "link n p k v out" "write_all E p ms n = (Inr (), n')"
  obtains fs v' where "list_all2 (\<lambda>m f. frame_of E (config n) m = Inr f) (numbered v ms) fs" "link n' p k v' (out @ concat fs)"
  using assms
proof (induction ms arbitrary: n v out thesis)
  case (Cons m ms)
  obtain n1 where w: "Write E p m n = (Inr (), n1)" "write_all E p ms n1 = (Inr (), n')"
    using Cons.prems(3) by (auto split: prod.splits sum.splits)
  have c: "config n1 = config n" using statics_Write [of E p m n] w(1) by (simp add: statics_def)
  obtain f where f: "frame_of E (config n) (m\<lparr>MessageNonce := v + 1\<rparr>) = Inr f" "link n1 p k (v + 1) (out @ f)"
    by (rule Write_link [OF Cons.prems(2) w(1)])
  obtain fs v' where "list_all2 (\<lambda>m f. frame_of E (config n1) m = Inr f) (numbered (v + 1) ms) fs"
    "link n' p k v' ((out @ f) @ concat fs)"
    by (rule Cons.IH [OF _ f(2) w(2)])
  then show ?case using Cons.prems(1) [of "f # fs" v'] f(1) unfolding c by simp
next
  case Nil
  then show ?case using Nil.prems(1) [of "[]" v] by simp
qed

section \<open>Receiving what was written\<close>

text \<open>The receiver handles the messages one after the other, until one ends the connection.\<close>

fun accept_all :: "env \<Rightarrow> Conn \<Rightarrow> Message list \<Rightarrow> Network \<Rightarrow> unit result \<times> Network" where
  "accept_all E incoming [] n = (Inr (), n)"
| "accept_all E incoming (m # ms) n =
     (case accept_message E True incoming m n of
        (Inl e, n1) \<Rightarrow> (Inl e, n1)
      | (Inr _, n1) \<Rightarrow> accept_all E incoming ms n1)"

definition until_EOF :: "unit result \<times> Network \<Rightarrow> go_error \<times> Network" where
  "until_EOF r = (case r of (Inl e, n) \<Rightarrow> (e, n) | (Inr _, n) \<Rightarrow> (EOF_error, n))"

lemma accept_loop_frames:
  assumes "lossless z" "netID (config n) = netID ns" "list_all2 (\<lambda>m f. build_frame marshal z ns m = Inr f) ms fs"
    and "\<forall>m \<in> set ms. deliverable marshal unmarshal z ns m" "concat segs = concat fs" "length ms < fuel"
  shows "accept_loop (\<lambda>n. receiveMessage unmarshal z (config n)) E True incoming fuel segs n =
    until_EOF (accept_all E incoming ms n)"
  using assms(3,2,4-6)
proof (induction ms fs arbitrary: segs fuel n rule: list_all2_induct)
  case Nil
  obtain g where "fuel = Suc g" using Nil by (cases fuel) auto
  then show ?case
    using read_short [of segs 4] Nil by (simp add: receiveMessage_def receive_frame_def until_EOF_def)
next
  case (Cons m ms f fs)
  obtain g where g: "fuel = Suc g" "length ms < g" using Cons.prems(4) by (cases fuel) auto
  obtain b where b: "marshal m = Inr b" "unmarshal b = Inr m" "header_ok ns m" "length f < 2 ^ 32 + 10"
    using Cons.hyps(1) Cons.prems(2) by (auto simp: deliverable_def split: sum.splits)
  have h: "header_ok (config n) m" using b(3) header_ok_netID [OF Cons.prems(1)] by simp
  have "concat segs = f @ concat fs" using Cons.prems(3) by simp
  then obtain rest where r: "receiveMessage unmarshal z (config n) segs = Inr (m, rest)" "concat rest = concat fs"
    unfolding receiveMessage_def
    by (rule tcp.receive_built [where marshal = marshal and unmarshal = unmarshal and m = m and b = b,
          OF assms(1) Cons.prems(1) Cons.hyps(1) b(1,2) h b(4)])
  obtain a n1 where a: "accept_message E True incoming m n = (a, n1)" by force
  have "config n1 = config n" using statics_accept_message [of E True incoming m n] a by (simp add: statics_def)
  then have "netID (config n1) = netID ns" using Cons.prems(1) by simp
  from Cons.IH [OF this _ r(2) g(2)] Cons.prems(2) a r(1) g(1) show ?case
    by (cases a) (simp_all add: until_EOF_def)
qed

text \<open>
  C1. Delivery from node to node: if all messages of a sequence were written to a peer without an
  error, and the other end of the connection, a node of the same network, receives the sent bytes in
  any segmentation and then the end of the stream, its receive loop handles exactly these messages,
  each once, in the order of the calls, with consecutive message numbers, unless one of them ends the
  connection; then it closes. Component callbacks are recorded, not run.
\<close>

theorem messages_delivered_in_order:
  assumes "lossless (compressors E)" "compressors Er = compressors E" "netID (config nr) = netID (config n)"
    and "link n peerID k v out" "write_all E peerID ms n = (Inr (), n')"
    and "link n' peerID k v' (out @ concat segs)"
    and "\<forall>m \<in> set (numbered v ms). deliverable (marshal_Message E) (unmarshal_Message Er) (compressors E) (config n) m"
    and "length ms < fuel"
  shows "Accept Er incoming cli fuel segs nr = finish_accept cli incoming (until_EOF (accept_all Er incoming (numbered v ms) nr))"
proof -
  obtain fs v'' where fs: "list_all2 (\<lambda>m f. frame_of E (config n) m = Inr f) (numbered v ms) fs"
    "link n' peerID k v'' (out @ concat fs)"
    by (rule write_all_link [OF assms(4,5)])
  have segs: "concat segs = concat fs" using fs(2) assms(6) by (auto simp: link_def split: option.splits)
  have "length (numbered v ms) = length ms" by (induction ms arbitrary: v) simp_all
  then have "length (numbered v ms) < fuel" using assms(8) by simp
  from accept_loop_frames [OF assms(1,3) fs(1) assms(7) segs this] show ?thesis
    unfolding Accept_def assms(2) by simp
qed


text \<open>
  For the witness: a protobuf codec of pings that differ in their number and body, and the node with
  one peer, which writes two of them to that peer.
\<close>

definition numbered_ping :: "bytes \<Rightarrow> uint64 \<Rightarrow> Message" where
  "numbered_ping body v = (sample_ping sample_peer)\<lparr>Message_body := body, MessageNonce := v\<rparr>"

definition delivery_env :: env where
  "delivery_env = sample_env\<lparr>marshal_Message := (\<lambda>m. Inr (ucast (MessageNonce m) # Message_body m)),
     unmarshal_Message := (\<lambda>b. case b of [] \<Rightarrow> Inl (Err ''proto'') | x # xs \<Rightarrow> Inr (numbered_ping xs (ucast x)))\<rparr>"

theorem messages_delivered_in_order_witness:
  "\<exists>segs. concat segs = sent (the (Load (sockets (snd (write_all delivery_env ''09'' [numbered_ping [] 0, numbered_ping [4] 0] sample_peer_net))) (TCPConn 0))) \<and>
     Accept delivery_env (TCPConn 0) None 3 segs sample_inbound =
       finish_accept None (TCPConn 0)
         (until_EOF (accept_all delivery_env (TCPConn 0) [numbered_ping [] 1, numbered_ping [4] 2] sample_inbound))"
proof -
  let ?ms = "[numbered_ping [] 0, numbered_ping [4] 0]"
  let ?w = "write_all delivery_env ''09'' ?ms sample_peer_net"
  let ?segs = "[sent (the (Load (sockets (snd ?w)) (TCPConn 0)))]"
  have c: "compressors delivery_env = sample_codecs" by (simp add: delivery_env_def sample_env_def)
  have z: "lossless (compressors delivery_env)" unfolding c by (rule sample_codecs_lossless)
  have l: "link sample_peer_net ''09'' (TCPConn 0) 0 []" "link (snd ?w) ''09'' (TCPConn 0) 2 ([] @ concat ?segs)" by code_simp+
  have "fst ?w = Inr ()" by code_simp
  then have w: "?w = (Inr (), snd ?w)" by (metis prod.collapse)
  have i: "netID (config sample_inbound) = netID (config sample_peer_net)" by code_simp
  have n: "numbered 0 ?ms = [numbered_ping [] 1, numbered_ping [4] 2]" by (simp add: numbered_ping_def)
  have d: "\<forall>m \<in> set (numbered 0 ?ms). deliverable (marshal_Message delivery_env) (unmarshal_Message delivery_env)
      (compressors delivery_env) (config sample_peer_net) m"
    unfolding n by code_simp
  show ?thesis
    using messages_delivered_in_order [OF z refl i l(1) w l(2) d, of 3] unfolding n by (intro exI [of _ ?segs]) simp
qed

end
