(* ===== verification/Peer_Lifecycle.thy ===== *)
theory Peer_Lifecycle
  imports Message_Flow
begin

text \<open>
  The life of a peer client: a decoded message has the type of its opcode, closing a client removes
  it from the node, and the connections that the transports cannot make.
\<close>

section \<open>Types of decoded messages\<close>

text \<open>
  C13. Decoding is type-safe: when unmarshalling keeps the type of the message it fills, every message
  that is dispatched has the type registered for the opcode it came with, and an opcode that is not
  registered is never dispatched.
\<close>

theorem dispatched_type:
  assumes "registered E t" "\<forall>p b m. unmarshal_proto E p b = Inr m \<longrightarrow> TypeOf m = TypeOf p"
    and "decode_body E t msg = Some m"
  shows "\<exists>p. GetMessageType t (Opcode_of msg) = Inr p \<and> TypeOf m = TypeOf p"
proof -
  obtain rs where t: "t = register_all (marshal_proto E) rs init_tables" using assms(1) by (auto simp: registered_def)
  obtain p where p: "empty_message t (Opcode_of msg) = Some p" "TypeOf m = TypeOf p"
    using assms(2,3) by (fastforce simp: decode_body_def split: option.splits if_splits sum.splits)
  have "opcodeTbl t (Opcode_of msg) = Some p"
  proof (cases "builtin_type (Opcode_of msg)")
    case None
    then show ?thesis using p(1) by (auto simp: empty_message_def GetMessageType_def split: if_splits option.splits)
  next
    case (Some ty)
    then show ?thesis
      using p(1) register_all_stable [OF builtin_init [OF Some], of "marshal_proto E" rs] unfolding t
      by (simp add: empty_message_def)
  qed
  then show ?thesis using p(2) by (simp add: GetMessageType_Inr)
qed

theorem dispatched_type_witness:
  "\<exists>p. GetMessageType (opcodes sample_net) PingCode = Inr p \<and> TypeOf p = ''*protobuf.Ping''"
proof -
  have u: "\<forall>p b m. unmarshal_proto sample_env p b = Inr m \<longrightarrow> TypeOf m = TypeOf p" by (auto simp: sample_env_def)
  have d: "decode_body sample_env (opcodes sample_net) (sample_ping sample_peer) = Some (zero_message ''*protobuf.Ping'')"
    by code_simp
  show ?thesis
    using dispatched_type [OF sample_net_registered u d] by (auto simp: sample_ping_def zero_message_def)
qed

section \<open>Closing\<close>

lemma remove_entry_gone:
  assumes "remove_entry key n = (Inr b, m)"
  shows "Load (connections m) key = None" "Load (connections n) k = None \<Longrightarrow> Load (connections m) k = None"
    "clients m = clients n" "callbacks m = callbacks n" "Components m = Components n"
  using assms
  by (auto simp: remove_entry_def ConnectionState_def delete_entries_def UpdateConnState_def close_conn_def shut_def Let_def
      split: option.splits sum.splits if_splits)

lemma notify_quit_frame:
  assumes "notify_quit cid n = (r, m)"
  shows "connections m = connections n" "clients m = clients n" "callbacks m = callbacks n" "Components m = Components n"
  using assms by (auto simp: notify_quit_def split: if_splits)

definition entry_address :: "PeerClient \<Rightarrow> string" where
  "entry_address cl = (case client_ID cl of Some i \<Rightarrow> Address i | None \<Rightarrow> client_Address cl)"

lemma RemoveEntries_gone:
  assumes "RemoveEntries c n = (Inr (), m)" "entry_address (client_of n c) \<noteq> []"
  shows "Load (connections m) (PeerID (client_of n c)) = None \<and> Load (connections m) (entry_address (client_of n c)) = None \<and>
    clients m = clients n \<and> callbacks m = callbacks n \<and> Components m = Components n"
proof -
  let ?cl = "client_of n c"
  obtain b n1 where r1: "remove_entry (PeerID ?cl) n = (Inr b, n1)"
    using assms by (auto simp: RemoveEntries_def Let_def entry_address_def split: prod.splits sum.splits)
  obtain n2 where q: "(if b then notify_quit (ClientID ?cl) n1 else (Inr (), n1)) = (Inr (), n2)"
    using assms r1 by (auto simp: RemoveEntries_def Let_def entry_address_def split: prod.splits sum.splits)
  obtain b2 where r2: "remove_entry (entry_address ?cl) n2 = (Inr b2, m)"
    using assms r1 q by (auto simp: RemoveEntries_def Let_def entry_address_def split: prod.splits sum.splits)
  have n2: "connections n2 = connections n1" "clients n2 = clients n1" "callbacks n2 = callbacks n1" "Components n2 = Components n1"
    using q notify_quit_frame [of "ClientID ?cl" n1] by (auto split: if_splits)
  show ?thesis
    using remove_entry_gone [OF r1] remove_entry_gone [OF r2] n2 by simp
qed




section \<open>Connections that cannot be made\<close>

text \<open>
  C40. The QUIC layer returns neither a connection nor an error, and so does every layer but TCP when
  certificates are enabled. Dialling a QUIC peer, or a KCP or QUIC peer with certificates enabled, ends
  in a panic of the type assertion on the connection instead of an error, whatever the network does.
\<close>

theorem dial_without_connection:
  assumes "ParseAddress address = Inr info" "ParseAddress (net_Address n) = Inr own" "Load (transports n) (Protocol info) = Some t"
    and "\<not> IsCAEnable n \<and> t = Quic \<and> Protocol info = ''quic'' \<or>
      IsCAEnable n \<and> t \<noteq> TCP \<and> (Protocol info = ''kcp'' \<or> Protocol info = ''quic'') \<and>
        (case GetCAFileConfig n of (ca, cert, key) \<Rightarrow> ca \<noteq> [] \<and> cert \<noteq> [] \<and> key \<noteq> [])"
  shows "Dial E address c n = (Inl (Panic ''interface conversion''), n)"
proof -
  have "(if IsCAEnable n
         then (case GetCAFileConfig n of (ca, cert, key) \<Rightarrow> Layer_TLSDial E t (HostPort info) (dialTimeout n) ca cert key)
         else Layer_Dial E t (HostPort info) (dialTimeout n)) = Inr None"
    using assms(4) by (cases t) (auto simp: Layer_Dial_def Layer_TLSDial_def Quic_Dial_def split: prod.split)
  then show ?thesis
    using assms by (auto simp: Dial_def start_accept_def open_socket_def split: prod.splits)
qed

theorem dial_without_connection_witness:
  "Dial sample_env ''quic://9.9.9.9:90'' 0 sample_net = (Inl (Panic ''interface conversion''), sample_net)"
proof -
  have a: "case ParseAddress ''quic://9.9.9.9:90'' of Inr info \<Rightarrow> Protocol info = ''quic'' | Inl _ \<Rightarrow> False"
    "case ParseAddress (net_Address sample_net) of Inr _ \<Rightarrow> True | Inl _ \<Rightarrow> False"
    by code_simp+
  obtain info own where p: "ParseAddress ''quic://9.9.9.9:90'' = Inr info" "Protocol info = ''quic''"
    "ParseAddress (net_Address sample_net) = Inr own"
    using a by (auto split: sum.splits)
  have t: "Load (transports sample_net) ''quic'' = Some Quic" "\<not> IsCAEnable sample_net" by code_simp+
  show ?thesis using dial_without_connection [OF p(1,3), of Quic] p(2) t by simp
qed

text \<open>
  An address with a protocol that the library does not know is accepted from a peer: the peer is
  registered and marked as reachable, but has no connection.
\<close>

lemma unknown_protocol_peer:
  "case getOrSetPeerClient sample_env ''foo://9.9.9.9:90'' ''09'' (Some (TCPConn 0)) sample_inbound of
     (r, n) \<Rightarrow> r = Inr 0 \<and> ClientExist n ''09'' \<and> Load (connStates n) ''09'' = Some PEER_REACHABLE \<and>
       \<not> ConnectionStateExists n ''09''"
  by code_simp

end
