(* ===== verification/Limb_Machine.thy ===== *)
theory Limb_Machine
  imports Carrier_Prelude
begin

text \<open>
  Straight-line limb arithmetic. The routines of \<^verbatim>\<open>crypto/ed25519/internal/edwards25519\<close> keep a
  large integer in signed machine words, one word per digit, and are long sequences of two kinds
  of statements: a carry from one digit into another, and the folding of a high digit into low
  ones. The theory gives these statements their meaning on machine words (\<open>exec\<close>) and on
  unbounded integers (\<open>execZ\<close>), an interval analysis (\<open>ivl_exec\<close>) that computes bounds and refuses a
  program whose shifts could read an overflowed word, and the two facts every routine needs: a
  program the analysis accepts computes on words what it computes on integers, and a program of
  legal statements keeps the represented number modulo the modulus.
\<close>

section \<open>Statements and their meaning\<close>

text \<open>
  \<open>Carry r i j w c\<close> is the group \<^verbatim>\<open>carry = (s_i + 1 << (w-1)) >> w; s_j += carry * c; s_i -= carry << w\<close>,
  without the rounding summand if \<open>r\<close> is false. \<open>Fold i cs\<close> is the group
  \<^verbatim>\<open>s_j += s_i * c; ...; s_i = 0\<close> for the pairs \<open>(j, c)\<close> of \<open>cs\<close> in order; \<^verbatim>\<open>s_j -= s_i * c\<close> is
  the pair \<open>(j, - c)\<close>.
\<close>

datatype limb_op = Carry bool nat nat nat int | Fold nat "(nat \<times> int) list"

fun exec :: "limb_op \<Rightarrow> 'a::len word list \<Rightarrow> 'a word list" where
  "exec (Carry r i j w c) s =
     (let carry = signed_drop_bit w (if r then s ! i + push_bit (w - 1) 1 else s ! i);
          t = s[j := s ! j + carry * of_int c]
      in t[i := t ! i - push_bit w carry])"
| "exec (Fold i cs) s = (fold (\<lambda>(j, c) t. t[j := t ! j + t ! i * of_int c]) cs s)[i := 0]"

definition run :: "limb_op list \<Rightarrow> 'a::len word list \<Rightarrow> 'a word list" where
  "run ops s = fold exec ops s"

fun execZ :: "limb_op \<Rightarrow> int list \<Rightarrow> int list" where
  "execZ (Carry r i j w c) s =
     (let carry = (if r then s ! i + 2 ^ (w - 1) else s ! i) div 2 ^ w;
          t = s[j := s ! j + carry * c]
      in t[i := t ! i - carry * 2 ^ w])"
| "execZ (Fold i cs) s = (fold (\<lambda>(j, c) t. t[j := t ! j + t ! i * c]) cs s)[i := 0]"

definition runZ :: "limb_op list \<Rightarrow> int list \<Rightarrow> int list" where
  "runZ ops s = fold execZ ops s"

section \<open>Intervals\<close>

type_synonym ivl = "int \<times> int"

definition within :: "int \<Rightarrow> ivl \<Rightarrow> bool" where
  "within x b \<longleftrightarrow> fst b \<le> x \<and> x \<le> snd b"

definition ivl_add :: "ivl \<Rightarrow> ivl \<Rightarrow> ivl" where
  "ivl_add a b = (fst a + fst b, snd a + snd b)"

definition ivl_scale :: "int \<Rightarrow> ivl \<Rightarrow> ivl" where
  "ivl_scale c a = (if 0 \<le> c then (c * fst a, c * snd a) else (c * snd a, c * fst a))"

definition ivl_mult :: "ivl \<Rightarrow> ivl \<Rightarrow> ivl" where
  "ivl_mult a b =
     (let ps = [fst a * fst b, fst a * snd b, snd a * fst b, snd a * snd b]
      in (fold min ps (hd ps), fold max ps (hd ps)))"

definition in_word :: "nat \<Rightarrow> ivl \<Rightarrow> bool" where
  "in_word n a \<longleftrightarrow> - (2 ^ (n - 1)) \<le> fst a \<and> snd a < 2 ^ (n - 1)"

fun ivl_exec :: "nat \<Rightarrow> limb_op \<Rightarrow> ivl list \<Rightarrow> ivl list option" where
  "ivl_exec n (Carry r i j w c) b =
     (let a = (if r then ivl_add (b ! i) (2 ^ (w - 1), 2 ^ (w - 1)) else b ! i)
      in if in_word n a \<and> 0 < w \<and> w < n \<and> i \<noteq> j \<and> i < length b \<and> j < length b
         then Some (b[j := ivl_add (b ! j) (ivl_scale c (fst a div 2 ^ w, snd a div 2 ^ w)),
                      i := if r then (- (2 ^ (w - 1)), 2 ^ (w - 1) - 1) else (0, 2 ^ w - 1)])
         else None)"
| "ivl_exec n (Fold i cs) b =
     (if i < length b \<and> list_all (\<lambda>(j, _). j \<noteq> i \<and> j < length b) cs
      then Some ((fold (\<lambda>(j, c) t. t[j := ivl_add (t ! j) (ivl_scale c (t ! i))]) cs b)[i := (0, 0)])
      else None)"

fun ivl_run :: "nat \<Rightarrow> limb_op list \<Rightarrow> ivl list \<Rightarrow> ivl list option" where
  "ivl_run n [] b = Some b"
| "ivl_run n (op # ops) b = (case ivl_exec n op b of None \<Rightarrow> None | Some b' \<Rightarrow> ivl_run n ops b')"

lemma within_add: "within x a \<Longrightarrow> within y b \<Longrightarrow> within (x + y) (ivl_add a b)"
  by (auto simp: within_def ivl_add_def)

lemma within_scale: "within x a \<Longrightarrow> within (x * c) (ivl_scale c a)"
  by (auto simp: within_def ivl_scale_def mult.commute mult_left_mono mult_left_mono_neg)

lemma within_div: "within x a \<Longrightarrow> within (x div 2 ^ w) (fst a div 2 ^ w, snd a div 2 ^ w)"
  by (auto simp: within_def intro: zdiv_mono1)

lemma within_singleton [simp]: "within x (x, x)"
  by (simp add: within_def)

lemma mult_between:
  fixes x :: int
  assumes "l \<le> x" "x \<le> h"
  shows "min (l * y) (h * y) \<le> x * y" "x * y \<le> max (l * y) (h * y)"
  using assms by (cases "0 \<le> y"; simp add: mult_right_mono mult_right_mono_neg min_le_iff_disj le_max_iff_disj)+

lemma within_mult:
  assumes "within x a" "within y b"
  shows "within (x * y) (ivl_mult a b)"
proof -
  have xa: "fst a \<le> x" "x \<le> snd a" and yb: "fst b \<le> y" "y \<le> snd b"
    using assms by (simp_all add: within_def)
  note y = mult_between [OF yb, of "fst a"] mult_between [OF yb, of "snd a"]
  show ?thesis
    using mult_between [OF xa, of y] y
    by (auto simp: within_def ivl_mult_def Let_def mult.commute min_def max_def split: if_splits)
qed

section \<open>The analysis is sound\<close>

lemma signed_drop_bit_of_int:
  assumes "in_word LENGTH('a) (x, x)"
  shows "signed_drop_bit w (of_int x :: 'a::len word) = of_int (x div 2 ^ w)"
proof -
  have "signed_take_bit (LENGTH('a) - Suc 0) x = x"
    using assms by (intro signed_take_bit_int_eq_self) (simp_all add: in_word_def)
  then have "sint (signed_drop_bit w (of_int x :: 'a word)) = x div 2 ^ w"
    by (simp add: sint_signed_drop_bit_eq signed_of_int drop_bit_eq_div)
  moreover have "signed_drop_bit w (of_int x :: 'a word) = of_int (sint (signed_drop_bit w (of_int x :: 'a word)))"
    by simp
  ultimately show ?thesis
    by simp
qed

lemma in_word_within: "in_word n a \<Longrightarrow> within x a \<Longrightarrow> in_word n (x, x)"
  by (auto simp: in_word_def within_def)

abbreviation bounded :: "int list \<Rightarrow> ivl list \<Rightarrow> bool" where
  "bounded \<equiv> list_all2 within"

lemma rounding_remainder:
  "0 < w \<Longrightarrow> within (x - (x + 2 ^ (w - 1)) div 2 ^ w * 2 ^ w) (- (2 ^ (w - 1)), 2 ^ (w - 1) - 1)"
proof -
  assume "0 < w"
  then have w: "(2 :: int) ^ w = 2 * 2 ^ (w - 1)"
    by (cases w) simp_all
  have "x - (x + 2 ^ (w - 1)) div 2 ^ w * 2 ^ w = (x + 2 ^ (w - 1)) mod 2 ^ w - 2 ^ (w - 1)"
    by (simp add: minus_div_mult_eq_mod [symmetric])
  moreover have "0 \<le> (x + 2 ^ (w - 1)) mod 2 ^ w" "(x + 2 ^ (w - 1)) mod 2 ^ w < 2 * 2 ^ (w - 1)"
    using pos_mod_bound [of "2 ^ w" "x + 2 ^ (w - 1)"] w by simp_all
  ultimately show ?thesis
    by (simp add: within_def)
qed

lemma floor_remainder: "within (x - x div 2 ^ w * 2 ^ w) (0, 2 ^ w - 1)"
  by (simp add: within_def minus_div_mult_eq_mod)

lemma carry_sound:
  assumes "ivl_exec LENGTH('a::len) (Carry r i j w c) b = Some b'" "bounded s b"
  shows "exec (Carry r i j w c) (map of_int s :: 'a word list) = map of_int (execZ (Carry r i j w c) s)"
    and "bounded (execZ (Carry r i j w c) s) b'"
proof -
  define a where "a = (if r then ivl_add (b ! i) (2 ^ (w - 1), 2 ^ (w - 1)) else b ! i)"
  define x where "x = (if r then s ! i + 2 ^ (w - 1) else s ! i)"
  have a: "in_word LENGTH('a) a" "0 < w" "w < LENGTH('a)" "i \<noteq> j" "i < length b" "j < length b"
    and b': "b' = b[j := ivl_add (b ! j) (ivl_scale c (fst a div 2 ^ w, snd a div 2 ^ w)),
                    i := if r then (- (2 ^ (w - 1)), 2 ^ (w - 1) - 1) else (0, 2 ^ w - 1)]"
    using assms(1) by (auto simp: a_def Let_def split: if_splits)
  have len: "length s = length b" and bi: "within (s ! i) (b ! i)" and bj: "within (s ! j) (b ! j)"
    using assms(2) a by (auto dest: list_all2_lengthD list_all2_nthD2)
  have x: "within x a"
    using bi by (simp add: x_def a_def within_add)
  have "signed_drop_bit w (of_int x :: 'a word) = of_int (x div 2 ^ w)"
    using in_word_within [OF a(1) x] by (rule signed_drop_bit_of_int)
  moreover have "(if r then map of_int s ! i + push_bit (w - 1) 1 else map of_int s ! i) = (of_int x :: 'a word)"
    using a len by (simp add: x_def push_bit_eq_mult)
  ultimately show "exec (Carry r i j w c) (map of_int s :: 'a word list) = map of_int (execZ (Carry r i j w c) s)"
    using a len by (simp add: Let_def x_def [symmetric] map_update push_bit_eq_mult)
  have "within (s ! i - x div 2 ^ w * 2 ^ w) (if r then (- (2 ^ (w - 1)), 2 ^ (w - 1) - 1) else (0, 2 ^ w - 1))"
    using rounding_remainder [OF a(2)] floor_remainder by (simp add: x_def)
  then show "bounded (execZ (Carry r i j w c) s) b'"
    using a len assms(2) within_add [OF bj within_scale [OF within_div [OF x]]]
    by (simp add: b' Let_def x_def [symmetric] list_all2_update_cong)
qed

lemma fold_updates_sound:
  assumes "list_all (\<lambda>(j, _). j \<noteq> i \<and> j < length b) cs" "i < length b" "bounded s b"
  shows "fold (\<lambda>(j, c) t. t[j := t ! j + t ! i * of_int c]) cs (map of_int s :: 'a::len word list)
           = map of_int (fold (\<lambda>(j, c) t. t[j := t ! j + t ! i * c]) cs s) \<and>
         bounded (fold (\<lambda>(j, c) t. t[j := t ! j + t ! i * c]) cs s)
           (fold (\<lambda>(j, c) t. t[j := ivl_add (t ! j) (ivl_scale c (t ! i))]) cs b)"
  using assms
proof (induction cs arbitrary: s b)
  case (Cons p cs)
  obtain j c where p: "p = (j, c)" by fastforce
  let ?s = "s[j := s ! j + s ! i * c]"
  let ?b = "b[j := ivl_add (b ! j) (ivl_scale c (b ! i))]"
  have j: "j \<noteq> i" "j < length b" and len: "length s = length b"
    using Cons.prems by (auto simp: p dest: list_all2_lengthD)
  have s: "bounded ?s ?b"
    using Cons.prems j by (simp add: list_all2_update_cong list_all2_nthD2 within_add within_scale)
  have upd: "(map of_int s)[j := map of_int s ! j + map of_int s ! i * of_int c] = map (of_int :: _ \<Rightarrow> 'a word) ?s"
    using j len Cons.prems(2) by (simp add: map_update)
  have "list_all (\<lambda>(j, _). j \<noteq> i \<and> j < length ?b) cs" "i < length ?b"
    using Cons.prems by (simp_all add: p)
  from Cons.IH [OF this s] show ?case
    by (simp add: p del: map_update) (simp add: upd [simplified])
qed simp

lemma exec_sound:
  assumes "ivl_exec LENGTH('a::len) op b = Some b'" "bounded s b"
  shows "exec op (map of_int s :: 'a word list) = map of_int (execZ op s) \<and> bounded (execZ op s) b'"
proof (cases op)
  case (Carry r i j w c)
  then show ?thesis using carry_sound [where 'a = 'a, of r i j w c b b' s] assms by blast
next
  case (Fold i cs)
  then have cs: "list_all (\<lambda>(j, _). j \<noteq> i \<and> j < length b) cs" "i < length b"
    and b': "b' = (fold (\<lambda>(j, c) t. t[j := ivl_add (t ! j) (ivl_scale c (t ! i))]) cs b)[i := (0, 0)]"
    using assms(1) by (auto split: if_splits)
  show ?thesis
    using fold_updates_sound [OF cs assms(2), where 'a = 'a]
    by (simp add: Fold b' map_update list_all2_update_cong)
qed

lemma run_sound:
  assumes "ivl_run LENGTH('a::len) ops b = Some b'" "bounded s b"
  shows "run ops (map of_int s :: 'a word list) = map of_int (runZ ops s)" "bounded (runZ ops s) b'"
proof -
  have "run ops (map of_int s :: 'a word list) = map of_int (runZ ops s) \<and> bounded (runZ ops s) b'"
    using assms
  proof (induction ops arbitrary: s b)
    case (Cons op ops)
    then obtain b1 where "ivl_exec LENGTH('a) op b = Some b1" "ivl_run LENGTH('a) ops b1 = Some b'"
      by (auto split: option.splits)
    then show ?case
      using exec_sound [of op b b1 s, where 'a = 'a] Cons by (simp add: run_def runZ_def)
  qed (simp add: run_def runZ_def)
  then show "run ops (map of_int s :: 'a word list) = map of_int (runZ ops s)" "bounded (runZ ops s) b'"
    by simp_all
qed

section \<open>The represented number\<close>

text \<open>Digit \<open>k\<close> of a limb list stands for \<open>weight k\<close>; \<open>represents\<close> is the number the list denotes.\<close>

fun represents_from :: "(nat \<Rightarrow> int) \<Rightarrow> nat \<Rightarrow> int list \<Rightarrow> int" where
  "represents_from weight k [] = 0"
| "represents_from weight k (x # xs) = x * weight k + represents_from weight (Suc k) xs"

definition represents :: "(nat \<Rightarrow> int) \<Rightarrow> int list \<Rightarrow> int" where
  "represents weight s = represents_from weight 0 s"

text \<open>
  A statement is legal for a weight and a modulus if what it takes out of one digit it puts back
  into others, up to a multiple of the modulus.
\<close>

fun legal :: "(nat \<Rightarrow> int) \<Rightarrow> int \<Rightarrow> limb_op \<Rightarrow> bool" where
  "legal weight m (Carry r i j w c) \<longleftrightarrow> i \<noteq> j \<and> (c * weight j - 2 ^ w * weight i) mod m = 0"
| "legal weight m (Fold i cs) \<longleftrightarrow>
     list_all (\<lambda>(j, _). j \<noteq> i) cs \<and> ((\<Sum>(j, c)\<leftarrow>cs. c * weight j) - weight i) mod m = 0"

lemma represents_from_update:
  "i < length s \<Longrightarrow>
   represents_from weight k (s[i := x]) = represents_from weight k s + (x - s ! i) * weight (k + i)"
proof (induction s arbitrary: i k)
  case (Cons y s)
  show ?case
  proof (cases i)
    case (Suc i')
    then show ?thesis using Cons.prems Cons.IH [of i' "Suc k"] by simp
  qed (simp add: algebra_simps)
qed simp

lemma represents_update:
  "i < length s \<Longrightarrow> represents weight (s[i := x]) = represents weight s + (x - s ! i) * weight i"
  by (simp add: represents_def represents_from_update)

lemma represents_carry:
  assumes "i < length s" "j < length s" "i \<noteq> j"
  shows "\<exists>q. represents weight (execZ (Carry r i j w c) s)
             = represents weight s + q * (c * weight j - 2 ^ w * weight i)"
  using assms
  by (intro exI [of _ "(if r then s ! i + 2 ^ (w - 1) else s ! i) div 2 ^ w"])
    (simp add: Let_def represents_update algebra_simps)

lemma represents_fold_updates:
  assumes "list_all (\<lambda>(j, _). j \<noteq> i \<and> j < length s) cs" "i < length s"
  defines "t \<equiv> fold (\<lambda>(j, c) t. t[j := t ! j + t ! i * c]) cs s"
  shows "represents weight t = represents weight s + s ! i * (\<Sum>(j, c)\<leftarrow>cs. c * weight j)
         \<and> t ! i = s ! i \<and> length t = length s"
  using assms(1,2) unfolding t_def
proof (induction cs arbitrary: s)
  case (Cons p cs)
  obtain j c where p: "p = (j, c)" by fastforce
  show ?case
    using Cons.prems Cons.IH [of "s[j := s ! j + s ! i * c]"]
    by (simp add: p represents_update algebra_simps)
qed simp

lemma represents_fold:
  assumes "list_all (\<lambda>(j, _). j \<noteq> i \<and> j < length s) cs" "i < length s"
  shows "represents weight (execZ (Fold i cs) s)
         = represents weight s + s ! i * ((\<Sum>(j, c)\<leftarrow>cs. c * weight j) - weight i)"
  using represents_fold_updates [OF assms, of weight] assms(2) by (simp add: represents_update algebra_simps)

lemma exec_residue:
  assumes "ivl_exec n op b = Some b'" "length s = length b" "legal weight m op"
  shows "represents weight (execZ op s) mod m = represents weight s mod m"
proof (cases op)
  case (Carry r i j w c)
  then have "i < length s" "j < length s" "i \<noteq> j" and d: "m dvd c * weight j - 2 ^ w * weight i"
    using assms by (auto simp: Let_def mod_eq_0_iff_dvd split: if_splits)
  then obtain q where "represents weight (execZ op s)
      = represents weight s + q * (c * weight j - 2 ^ w * weight i)"
    using represents_carry [of i s j weight r w c] unfolding Carry by blast
  with d show ?thesis
    by (simp add: mod_eq_dvd_iff)
next
  case (Fold i cs)
  have cs: "list_all (\<lambda>(j, _). j \<noteq> i \<and> j < length s) cs" "i < length s"
    and d: "m dvd (\<Sum>(j, c)\<leftarrow>cs. c * weight j) - weight i"
    using assms Fold by (auto simp: mod_eq_0_iff_dvd split: if_splits)
  have "represents weight (execZ op s)
      = represents weight s + s ! i * ((\<Sum>(j, c)\<leftarrow>cs. c * weight j) - weight i)"
    unfolding Fold by (rule represents_fold [OF cs])
  with d show ?thesis
    by (simp add: mod_eq_dvd_iff)
qed

lemma execZ_length [simp]: "length (execZ op s) = length s"
proof (cases op)
  case (Fold i cs)
  have "length (fold (\<lambda>(j, c) t. t[j := t ! j + t ! i * c]) cs s) = length s"
    by (induction cs arbitrary: s) (simp_all add: case_prod_beta)
  then show ?thesis by (simp add: Fold)
qed (simp add: Let_def)

lemma ivl_exec_length: "ivl_exec n op b = Some b' \<Longrightarrow> length b' = length b"
proof (cases op)
  case (Fold i cs)
  have "length (fold (\<lambda>(j, c) t. t[j := ivl_add (t ! j) (ivl_scale c (t ! i))]) cs b) = length b"
    by (induction cs arbitrary: b) (simp_all add: case_prod_beta)
  then show "ivl_exec n op b = Some b' \<Longrightarrow> length b' = length b"
    by (auto simp: Fold split: if_splits)
qed (auto simp: Let_def split: if_splits)

lemma run_residue:
  assumes "ivl_run n ops b = Some b'" "length s = length b" "list_all (legal weight m) ops"
  shows "represents weight (runZ ops s) mod m = represents weight s mod m"
  using assms
proof (induction ops arbitrary: s b)
  case (Cons op ops)
  then obtain b1 where b1: "ivl_exec n op b = Some b1" "ivl_run n ops b1 = Some b'"
    by (auto split: option.splits)
  have "represents weight (runZ ops (execZ op s)) mod m = represents weight (execZ op s) mod m"
    using Cons.IH [OF b1(2), of "execZ op s"] Cons.prems ivl_exec_length [OF b1(1)] by simp
  also have "\<dots> = represents weight s mod m"
    using exec_residue [OF b1(1)] Cons.prems by simp
  finally show ?case by (simp add: runZ_def)
qed (simp add: runZ_def)

text \<open>
  The contract of a routine: its statements are legal for the weight and the modulus, and the
  analysis at the word size of the code takes the bounds of its input to bounds of its output. A
  client then reasons about integers only.
\<close>

locale limb_routine =
  fixes word_size :: "'a::len itself"
    and weight :: "nat \<Rightarrow> int"
    and modulus :: int
    and code :: "limb_op list"
    and inputs outputs :: "ivl list"
  assumes analysed: "ivl_run LENGTH('a) code inputs = Some outputs"
    and legal_code: "list_all (legal weight modulus) code"
begin

lemma words_are_integers:
  "bounded s inputs \<Longrightarrow> run code (map of_int s :: 'a word list) = map of_int (runZ code s)"
  by (rule run_sound(1) [OF analysed])

lemma outputs_bounded: "bounded s inputs \<Longrightarrow> bounded (runZ code s) outputs"
  by (rule run_sound(2) [OF analysed])

lemma residue_kept:
  "bounded s inputs \<Longrightarrow> represents weight (runZ code s) mod modulus = represents weight s mod modulus"
  by (rule run_residue [OF analysed _ legal_code]) (rule list_all2_lengthD)

end

lemma ivl_run_append:
  "ivl_run n (xs @ ys) b = (case ivl_run n xs b of None \<Rightarrow> None | Some b' \<Rightarrow> ivl_run n ys b')"
  by (induction xs arbitrary: b) (auto split: option.splits)

lemma runZ_append: "runZ (xs @ ys) s = runZ ys (runZ xs s)"
  by (simp add: runZ_def)

lemma run_append: "run (xs @ ys) s = run ys (run xs s)"
  by (simp add: run_def)

section \<open>Little-endian numbers\<close>

primrec le_value :: "bytes \<Rightarrow> int" where
  "le_value [] = 0"
| "le_value (b # bs) = uint b + 2 ^ 8 * le_value bs"

definition le_bytes :: "nat \<Rightarrow> int \<Rightarrow> bytes" where
  "le_bytes n v = map (\<lambda>k. of_int (v div 2 ^ (8 * k))) [0..<n]"

lemma bit_digit:
  fixes x y :: int
  assumes "0 \<le> x" "x < 2 ^ w"
  shows "bit (x + 2 ^ w * y) n \<longleftrightarrow> (if n < w then bit x n else bit y (n - w))"
proof -
  have "x + 2 ^ w * y = concat_bit w x y"
    using assms by (simp add: concat_bit_eq push_bit_eq_mult take_bit_int_eq_self mult.commute)
  then show ?thesis
    using bit_concat_bit_iff [of w x y n] by (auto simp: not_less)
qed

lemma le_value_nonneg [simp]: "0 \<le> le_value bs"
  by (induction bs) simp_all

lemma uint_byte_less: "uint (b :: byte) < 256"
  using uint_lt2p [of b] by simp

lemma le_value_less: "le_value bs < 2 ^ (8 * length bs)"
proof (induction bs)
  case (Cons b bs)
  have "uint b < 2 ^ 8" using uint_byte_less by simp
  moreover have "le_value bs + 1 \<le> 2 ^ (8 * length bs)" using Cons by simp
  ultimately show ?case by (simp add: power_add)
qed simp

lemma bit_le_value:
  "bit (le_value bs) n \<longleftrightarrow> n div 8 < length bs \<and> bit (bs ! (n div 8)) (n mod 8)"
proof (induction bs arbitrary: n)
  case (Cons b bs)
  have "bit (le_value (b # bs)) n \<longleftrightarrow> (if n < 8 then bit (uint b) n else bit (le_value bs) (n - 8))"
    using bit_digit [of "uint b" 8] uint_byte_less by simp
  then show ?case
    using Cons.IH [of "n - 8"]
    by (cases "n < 8") (simp_all add: bit_uint_iff le_div_geq le_mod_geq)
qed simp

lemma le_value_ff: "le_value (replicate n 255) = 2 ^ (8 * n) - 1"
  by (induction n) (simp_all add: power_add)

lemma le_value_inject: "length xs = length ys \<Longrightarrow> le_value xs = le_value ys \<Longrightarrow> xs = ys"
proof (rule nth_equalityI)
  fix k assume a: "length xs = length ys" "le_value xs = le_value ys" "k < length xs"
  have "bit (xs ! k) n \<longleftrightarrow> bit (ys ! k) n" if "n < 8" for n
    using bit_le_value [of xs "8 * k + n"] bit_le_value [of ys "8 * k + n"] a that by simp
  then show "xs ! k = ys ! k"
    by (intro bit_word_eqI) simp
qed

lemma le_value_le_bytes: "le_value (le_bytes n v) = v mod 2 ^ (8 * n)"
proof (rule bit_eqI)
  fix k
  show "bit (le_value (le_bytes n v)) k \<longleftrightarrow> bit (v mod 2 ^ (8 * n)) k"
    by (auto simp: bit_le_value le_bytes_def take_bit_eq_mod [symmetric] drop_bit_eq_div [symmetric]
        bit_simps less_mult_imp_div_less)
qed

section \<open>Digits and output bytes\<close>

text \<open>
  A number as its lowest digit, of \<open>w\<close> bits, and the rest. The output statements of the routines
  take a byte out of one digit (\<open>pack_inner\<close>), or out of two neighbours (\<open>pack_split\<close>).
\<close>

definition join :: "nat \<Rightarrow> int \<Rightarrow> int \<Rightarrow> int" where
  "join w x y = x + 2 ^ w * y"

lemma join_0 [simp]: "join w x 0 = x"
  by (simp add: join_def)

lemma bit_join:
  "0 \<le> x \<Longrightarrow> x < 2 ^ w \<Longrightarrow> bit (join w x y) n \<longleftrightarrow> (if n < w then bit x n else bit y (n - w))"
  unfolding join_def by (rule bit_digit)

lemma bit_digit_high: "0 \<le> (x :: int) \<Longrightarrow> x < 2 ^ w \<Longrightarrow> w \<le> n \<Longrightarrow> \<not> bit x n"
  using bit_join [of x w 0 n] by simp

lemma skip_digit:
  "0 \<le> x \<Longrightarrow> x < 2 ^ w \<Longrightarrow> w \<le> n \<Longrightarrow> drop_bit n (join w x y) = drop_bit (n - w) y"
  by (rule bit_eqI) (simp add: bit_drop_bit_eq bit_join)

lemma pack_inner:
  assumes "0 \<le> x" "x < 2 ^ w" "n + 8 \<le> w" "w < LENGTH('a)"
  shows "(of_int (drop_bit n (join w x y)) :: byte) = ucast (signed_drop_bit n (of_int x :: 'a::len word))"
  using assms by (intro bit_word_eqI) (auto simp: bit_simps bit_join)

lemma pack_split:
  assumes x: "0 \<le> x" "x < 2 ^ w" and n: "w < n + 8" "n < w" "w < LENGTH('a)" "8 < LENGTH('a)"
    and y: "z = 0 \<or> 0 \<le> y \<and> y < 2 ^ v \<and> 8 \<le> v"
  shows "(of_int (drop_bit n (join w x (join v y z))) :: byte)
         = ucast (signed_drop_bit n (of_int x :: 'a::len word) OR push_bit (w - n) (of_int y :: 'a word))"
proof (rule bit_word_eqI)
  fix m assume m: "m < LENGTH(8)"
  show "bit (of_int (drop_bit n (join w x (join v y z))) :: byte) m
      \<longleftrightarrow> bit (ucast (signed_drop_bit n (of_int x :: 'a word) OR push_bit (w - n) (of_int y :: 'a word)) :: byte) m"
  proof (cases "n + m < w")
    case True
    then show ?thesis using x n m by (auto simp: bit_simps bit_join)
  next
    case False
    have sub: "m - (w - n) = n + m - w" using n False by simp
    have "\<not> bit x k" if "w \<le> k" for k
      using bit_digit_high [OF x that] .
    moreover have "bit (join v y z) (n + m - w) \<longleftrightarrow> bit y (n + m - w)"
      using y m n by (auto simp: bit_join)
    ultimately show ?thesis
      using x n m False sub by (auto simp: bit_simps bit_join)
  qed
qed

lemma pack_last:
  "n + 8 \<le> LENGTH('a) \<Longrightarrow> (of_int (drop_bit n x) :: byte) = ucast (signed_drop_bit n (of_int x :: 'a::len word))"
  by (rule bit_word_eqI) (auto simp: bit_simps)

lemma le_bytes_32:
  "le_bytes 32 v = map (\<lambda>k. of_int (drop_bit (8 * k) v))
     [0,1,2,3,4,5,6,7,8,9,10,11,12,13,14,15,16,17,18,19,20,21,22,23,24,25,26,27,28,29,30,31]"
  by (simp add: le_bytes_def drop_bit_eq_div upt_rec)

lemmas packs = pack_inner pack_inner [where n = 0, simplified] pack_split

section \<open>Bounds of the represented number\<close>

lemma represents_from_within:
  "bounded s b \<Longrightarrow> (\<And>k. 0 \<le> w k) \<Longrightarrow>
   within (represents_from w k s) (represents_from w k (map fst b), represents_from w k (map snd b))"
  by (induction s b arbitrary: k rule: list_all2_induct)
    (auto simp: within_def intro: add_mono mult_right_mono)

lemma represents_within:
  "bounded s b \<Longrightarrow> (\<And>k. 0 \<le> w k) \<Longrightarrow>
   within (represents w s) (represents w (map fst b), represents w (map snd b))"
  unfolding represents_def by (rule represents_from_within)

lemma bounded_weaken:
  "bounded s b \<Longrightarrow> list_all2 (\<lambda>x y. fst y \<le> fst x \<and> snd x \<le> snd y) b b' \<Longrightarrow> bounded s b'"
  by (rule list_all2_trans [where ?P1.0 = within]) (auto simp: within_def)

lemma bounded_pin: "bounded s b \<Longrightarrow> k < length b \<Longrightarrow> bounded s (b[k := (s ! k, s ! k)])"
  by (metis list_all2_update_cong list_update_id within_singleton)

lemma bounded_zeros: "bounded t (replicate n (0, 0)) \<Longrightarrow> t = replicate n 0"
proof (induction n arbitrary: t)
  case (Suc n)
  then show ?case by (cases t) (auto simp: within_def)
qed simp

lemma represents_from_append:
  "represents_from w k (xs @ ys) = represents_from w k xs + represents_from w (k + length xs) ys"
  by (induction xs arbitrary: k) simp_all

section \<open>Loads\<close>

definition load3 :: "bytes \<Rightarrow> uint64" where
  "load3 inp = ucast (inp ! 0) OR push_bit 8 (ucast (inp ! 1)) OR push_bit 16 (ucast (inp ! 2))"

definition load4 :: "bytes \<Rightarrow> uint64" where
  "load4 inp = ucast (inp ! 0) OR push_bit 8 (ucast (inp ! 1)) OR push_bit 16 (ucast (inp ! 2))
     OR push_bit 24 (ucast (inp ! 3))"

lemma bit_byte_high [simp]: "8 \<le> k \<Longrightarrow> \<not> bit (b :: byte) k"
  using bit_imp_le_length [of b k] by auto

lemma bit_load3: "bit (load3 x) n \<longleftrightarrow> n < 24 \<and> bit (x ! (n div 8)) (n mod 8)"
proof (cases "n < 24")
  case True
  define d r where "d = n div 8" and "r = n mod 8"
  have n: "n = 8 * d + r" and r: "r < 8" and d: "d = 0 \<or> d = 1 \<or> d = 2"
    using True by (auto simp: d_def r_def)
  from d have "bit (load3 x) (8 * d + r) \<longleftrightarrow> bit (x ! d) r"
    using r by (elim disjE) (simp_all add: load3_def bit_simps)
  then show ?thesis
    using True by (simp add: n [symmetric] d_def r_def)
qed (simp add: load3_def bit_simps)

lemma bit_load4: "bit (load4 x) n \<longleftrightarrow> n < 32 \<and> bit (x ! (n div 8)) (n mod 8)"
proof (cases "n < 32")
  case True
  define d r where "d = n div 8" and "r = n mod 8"
  have n: "n = 8 * d + r" and r: "r < 8" and d: "d = 0 \<or> d = 1 \<or> d = 2 \<or> d = 3"
    using True by (auto simp: d_def r_def)
  from d have "bit (load4 x) (8 * d + r) \<longleftrightarrow> bit (x ! d) r"
    using r by (elim disjE) (simp_all add: load4_def bit_simps)
  then show ?thesis
    using True by (simp add: n [symmetric] d_def r_def)
qed (simp add: load4_def bit_simps)

lemma load3_window:
  "q + 3 \<le> length a \<Longrightarrow> load3 (drop q a) = of_int (take_bit 24 (drop_bit (8 * q) (le_value a)))"
  by (rule bit_word_eqI) (auto simp: bit_simps bit_load3 bit_le_value)

lemma load4_window:
  "q + 4 \<le> length a \<Longrightarrow> load4 (drop q a) = of_int (take_bit 32 (drop_bit (8 * q) (le_value a)))"
  by (rule bit_word_eqI) (auto simp: bit_simps bit_load4 bit_le_value)

end
