(* ===== verification/Ed25519_Scalar.thy ===== *)
theory Ed25519_Scalar
  imports Limb_Machine
begin

text \<open>
  Scalars modulo the group order of ed25519: \<^verbatim>\<open>ScMulAdd\<close> and \<^verbatim>\<open>ScReduce\<close> of
  \<^verbatim>\<open>crypto/ed25519/internal/edwards25519/scalar.go\<close>. The variables
  \<^verbatim>\<open>s0 .. s23\<close> (int64) are a list of 64-bit words read as signed numbers, \<^verbatim>\<open>>>\<close> is the arithmetic
  shift, and the carry and fold statements are programs of \<open>Limb_Machine\<close> in the order of the code.
  A \<^verbatim>\<open>[32]byte\<close> is a byte list of length 32. The theorems: neither routine ever shifts an
  overflowed word, and both return the exact residue modulo the order.
\<close>

definition sc_load :: "bytes \<Rightarrow> uint64 list" where
  "sc_load a =
    [2097151 AND load3 a,
     2097151 AND signed_drop_bit 5 (load4 (drop 2 a)),
     2097151 AND signed_drop_bit 2 (load3 (drop 5 a)),
     2097151 AND signed_drop_bit 7 (load4 (drop 7 a)),
     2097151 AND signed_drop_bit 4 (load4 (drop 10 a)),
     2097151 AND signed_drop_bit 1 (load3 (drop 13 a)),
     2097151 AND signed_drop_bit 6 (load4 (drop 15 a)),
     2097151 AND signed_drop_bit 3 (load3 (drop 18 a)),
     2097151 AND load3 (drop 21 a),
     2097151 AND signed_drop_bit 5 (load4 (drop 23 a)),
     2097151 AND signed_drop_bit 2 (load3 (drop 26 a)),
     signed_drop_bit 7 (load4 (drop 28 a))]"

definition sc_load64 :: "bytes \<Rightarrow> uint64 list" where
  "sc_load64 s =
    [2097151 AND load3 s,
     2097151 AND signed_drop_bit 5 (load4 (drop 2 s)),
     2097151 AND signed_drop_bit 2 (load3 (drop 5 s)),
     2097151 AND signed_drop_bit 7 (load4 (drop 7 s)),
     2097151 AND signed_drop_bit 4 (load4 (drop 10 s)),
     2097151 AND signed_drop_bit 1 (load3 (drop 13 s)),
     2097151 AND signed_drop_bit 6 (load4 (drop 15 s)),
     2097151 AND signed_drop_bit 3 (load3 (drop 18 s)),
     2097151 AND load3 (drop 21 s),
     2097151 AND signed_drop_bit 5 (load4 (drop 23 s)),
     2097151 AND signed_drop_bit 2 (load3 (drop 26 s)),
     2097151 AND signed_drop_bit 7 (load4 (drop 28 s)),
     2097151 AND signed_drop_bit 4 (load4 (drop 31 s)),
     2097151 AND signed_drop_bit 1 (load3 (drop 34 s)),
     2097151 AND signed_drop_bit 6 (load4 (drop 36 s)),
     2097151 AND signed_drop_bit 3 (load3 (drop 39 s)),
     2097151 AND load3 (drop 42 s),
     2097151 AND signed_drop_bit 5 (load4 (drop 44 s)),
     2097151 AND signed_drop_bit 2 (load3 (drop 47 s)),
     2097151 AND signed_drop_bit 7 (load4 (drop 49 s)),
     2097151 AND signed_drop_bit 4 (load4 (drop 52 s)),
     2097151 AND signed_drop_bit 1 (load3 (drop 55 s)),
     2097151 AND signed_drop_bit 6 (load4 (drop 57 s)),
     signed_drop_bit 3 (load4 (drop 60 s))]"

section \<open>Product, reduction and output\<close>

text \<open>The digits of \<open>a * b + c\<close>; one definition for the machine words and for integers.\<close>

definition sc_product :: "'a::comm_ring_1 list \<Rightarrow> 'a list \<Rightarrow> 'a list \<Rightarrow> 'a list" where
  "sc_product a b c =
    [c ! 0 + a ! 0 * b ! 0,
     c ! 1 + a ! 0 * b ! 1 + a ! 1 * b ! 0,
     c ! 2 + a ! 0 * b ! 2 + a ! 1 * b ! 1 + a ! 2 * b ! 0,
     c ! 3 + a ! 0 * b ! 3 + a ! 1 * b ! 2 + a ! 2 * b ! 1 + a ! 3 * b ! 0,
     c ! 4 + a ! 0 * b ! 4 + a ! 1 * b ! 3 + a ! 2 * b ! 2 + a ! 3 * b ! 1 + a ! 4 * b ! 0,
     c ! 5 + a ! 0 * b ! 5 + a ! 1 * b ! 4 + a ! 2 * b ! 3 + a ! 3 * b ! 2 + a ! 4 * b ! 1
        + a ! 5 * b ! 0,
     c ! 6 + a ! 0 * b ! 6 + a ! 1 * b ! 5 + a ! 2 * b ! 4 + a ! 3 * b ! 3 + a ! 4 * b ! 2
        + a ! 5 * b ! 1 + a ! 6 * b ! 0,
     c ! 7 + a ! 0 * b ! 7 + a ! 1 * b ! 6 + a ! 2 * b ! 5 + a ! 3 * b ! 4 + a ! 4 * b ! 3
        + a ! 5 * b ! 2 + a ! 6 * b ! 1 + a ! 7 * b ! 0,
     c ! 8 + a ! 0 * b ! 8 + a ! 1 * b ! 7 + a ! 2 * b ! 6 + a ! 3 * b ! 5 + a ! 4 * b ! 4
        + a ! 5 * b ! 3 + a ! 6 * b ! 2 + a ! 7 * b ! 1 + a ! 8 * b ! 0,
     c ! 9 + a ! 0 * b ! 9 + a ! 1 * b ! 8 + a ! 2 * b ! 7 + a ! 3 * b ! 6 + a ! 4 * b ! 5
        + a ! 5 * b ! 4 + a ! 6 * b ! 3 + a ! 7 * b ! 2 + a ! 8 * b ! 1 + a ! 9 * b ! 0,
     c ! 10 + a ! 0 * b ! 10 + a ! 1 * b ! 9 + a ! 2 * b ! 8 + a ! 3 * b ! 7 + a ! 4 * b ! 6
        + a ! 5 * b ! 5 + a ! 6 * b ! 4 + a ! 7 * b ! 3 + a ! 8 * b ! 2 + a ! 9 * b ! 1
        + a ! 10 * b ! 0,
     c ! 11 + a ! 0 * b ! 11 + a ! 1 * b ! 10 + a ! 2 * b ! 9 + a ! 3 * b ! 8 + a ! 4 * b ! 7
        + a ! 5 * b ! 6 + a ! 6 * b ! 5 + a ! 7 * b ! 4 + a ! 8 * b ! 3 + a ! 9 * b ! 2
        + a ! 10 * b ! 1 + a ! 11 * b ! 0,
     a ! 1 * b ! 11 + a ! 2 * b ! 10 + a ! 3 * b ! 9 + a ! 4 * b ! 8 + a ! 5 * b ! 7
        + a ! 6 * b ! 6 + a ! 7 * b ! 5 + a ! 8 * b ! 4 + a ! 9 * b ! 3 + a ! 10 * b ! 2
        + a ! 11 * b ! 1,
     a ! 2 * b ! 11 + a ! 3 * b ! 10 + a ! 4 * b ! 9 + a ! 5 * b ! 8 + a ! 6 * b ! 7
        + a ! 7 * b ! 6 + a ! 8 * b ! 5 + a ! 9 * b ! 4 + a ! 10 * b ! 3 + a ! 11 * b ! 2,
     a ! 3 * b ! 11 + a ! 4 * b ! 10 + a ! 5 * b ! 9 + a ! 6 * b ! 8 + a ! 7 * b ! 7
        + a ! 8 * b ! 6 + a ! 9 * b ! 5 + a ! 10 * b ! 4 + a ! 11 * b ! 3,
     a ! 4 * b ! 11 + a ! 5 * b ! 10 + a ! 6 * b ! 9 + a ! 7 * b ! 8 + a ! 8 * b ! 7
        + a ! 9 * b ! 6 + a ! 10 * b ! 5 + a ! 11 * b ! 4,
     a ! 5 * b ! 11 + a ! 6 * b ! 10 + a ! 7 * b ! 9 + a ! 8 * b ! 8 + a ! 9 * b ! 7
        + a ! 10 * b ! 6 + a ! 11 * b ! 5,
     a ! 6 * b ! 11 + a ! 7 * b ! 10 + a ! 8 * b ! 9 + a ! 9 * b ! 8 + a ! 10 * b ! 7
        + a ! 11 * b ! 6,
     a ! 7 * b ! 11 + a ! 8 * b ! 10 + a ! 9 * b ! 9 + a ! 10 * b ! 8 + a ! 11 * b ! 7,
     a ! 8 * b ! 11 + a ! 9 * b ! 10 + a ! 10 * b ! 9 + a ! 11 * b ! 8,
     a ! 9 * b ! 11 + a ! 10 * b ! 10 + a ! 11 * b ! 9,
     a ! 10 * b ! 11 + a ! 11 * b ! 10,
     a ! 11 * b ! 11,
     0]"

definition sc_round :: "nat \<Rightarrow> limb_op" where
  "sc_round i = Carry True i (i + 1) 21 1"

definition sc_floor :: "nat \<Rightarrow> limb_op" where
  "sc_floor i = Carry False i (i + 1) 21 1"

definition sc_fold :: "nat \<Rightarrow> limb_op" where
  "sc_fold i = Fold i [(i - 12, 666643), (i - 11, 470296), (i - 10, 654183), (i - 9, - 997805),
     (i - 8, 136657), (i - 7, - 683901)]"

definition sc_carry_product :: "limb_op list" where
  "sc_carry_product = map sc_round [0, 2, 4, 6, 8, 10, 12, 14, 16, 18, 20, 22]
     @ map sc_round [1, 3, 5, 7, 9, 11, 13, 15, 17, 19, 21]"

definition sc_fold_high :: "limb_op list" where
  "sc_fold_high = map sc_fold [23, 22, 21, 20, 19, 18]
     @ map sc_round [6, 8, 10, 12, 14, 16] @ map sc_round [7, 9, 11, 13, 15]"

definition sc_fold_low :: "limb_op list" where
  "sc_fold_low = map sc_fold [17, 16, 15, 14, 13, 12]
     @ map sc_round [0, 2, 4, 6, 8, 10] @ map sc_round [1, 3, 5, 7, 9, 11] @ [sc_fold 12]"

definition sc_normalise :: "limb_op list" where
  "sc_normalise = map sc_floor [0, 1, 2, 3, 4, 5, 6, 7, 8, 9, 10, 11] @ [sc_fold 12]
     @ map sc_floor [0, 1, 2, 3, 4, 5, 6, 7, 8, 9, 10]"

definition sc_pack :: "uint64 list \<Rightarrow> bytes" where
  "sc_pack s =
    [ucast (signed_drop_bit 0 (s ! 0)),
     ucast (signed_drop_bit 8 (s ! 0)),
     ucast (signed_drop_bit 16 (s ! 0) OR push_bit 5 (s ! 1)),
     ucast (signed_drop_bit 3 (s ! 1)),
     ucast (signed_drop_bit 11 (s ! 1)),
     ucast (signed_drop_bit 19 (s ! 1) OR push_bit 2 (s ! 2)),
     ucast (signed_drop_bit 6 (s ! 2)),
     ucast (signed_drop_bit 14 (s ! 2) OR push_bit 7 (s ! 3)),
     ucast (signed_drop_bit 1 (s ! 3)),
     ucast (signed_drop_bit 9 (s ! 3)),
     ucast (signed_drop_bit 17 (s ! 3) OR push_bit 4 (s ! 4)),
     ucast (signed_drop_bit 4 (s ! 4)),
     ucast (signed_drop_bit 12 (s ! 4)),
     ucast (signed_drop_bit 20 (s ! 4) OR push_bit 1 (s ! 5)),
     ucast (signed_drop_bit 7 (s ! 5)),
     ucast (signed_drop_bit 15 (s ! 5) OR push_bit 6 (s ! 6)),
     ucast (signed_drop_bit 2 (s ! 6)),
     ucast (signed_drop_bit 10 (s ! 6)),
     ucast (signed_drop_bit 18 (s ! 6) OR push_bit 3 (s ! 7)),
     ucast (signed_drop_bit 5 (s ! 7)),
     ucast (signed_drop_bit 13 (s ! 7)),
     ucast (signed_drop_bit 0 (s ! 8)),
     ucast (signed_drop_bit 8 (s ! 8)),
     ucast (signed_drop_bit 16 (s ! 8) OR push_bit 5 (s ! 9)),
     ucast (signed_drop_bit 3 (s ! 9)),
     ucast (signed_drop_bit 11 (s ! 9)),
     ucast (signed_drop_bit 19 (s ! 9) OR push_bit 2 (s ! 10)),
     ucast (signed_drop_bit 6 (s ! 10)),
     ucast (signed_drop_bit 14 (s ! 10) OR push_bit 7 (s ! 11)),
     ucast (signed_drop_bit 1 (s ! 11)),
     ucast (signed_drop_bit 9 (s ! 11)),
     ucast (signed_drop_bit 17 (s ! 11))]"

definition ScMulAdd :: "bytes \<Rightarrow> bytes \<Rightarrow> bytes \<Rightarrow> bytes" where
  "ScMulAdd a b c = sc_pack (run (sc_carry_product @ sc_fold_high @ sc_fold_low @ sc_normalise)
     (sc_product (sc_load a) (sc_load b) (sc_load c)))"

definition ScReduce :: "bytes \<Rightarrow> bytes" where
  "ScReduce s = sc_pack (run (sc_fold_high @ sc_fold_low @ sc_normalise) (sc_load64 s))"

text \<open>The order of the base point, as the comments of both routines give it.\<close>

definition sc_order :: int where
  "sc_order = 2 ^ 252 + 27742317777372353535851937790883648493"

section \<open>Loads read the digits of the input\<close>

text \<open>A digit of 21 bits, cut out of a window of 24 or 32 bits of the input.\<close>

lemma shifted_window:
  "k \<le> 32 \<Longrightarrow> signed_drop_bit r (of_int (take_bit k x) :: uint64) = of_int (drop_bit r (take_bit k x))"
proof -
  assume "k \<le> 32"
  then have "(2 :: int) ^ k \<le> 2 ^ 32" by (intro power_increasing) simp_all
  then have "take_bit k x < 2 ^ 32"
    by (rule less_le_trans [OF take_bit_int_less_exp])
  then have "in_word LENGTH(64) (take_bit k x, take_bit k x)"
    by (simp add: in_word_def order_trans [OF _ take_bit_nonnegative])
  then show ?thesis
    by (simp add: signed_drop_bit_of_int drop_bit_eq_div)
qed

lemma masked_digit: "2097151 AND (of_int x :: uint64) = of_int (take_bit 21 x)"
proof -
  have "2097151 AND (of_int x :: uint64) = take_bit 21 (of_int x)"
    by (simp add: take_bit_eq_mask mask_eq_exp_minus_1 and.commute)
  then show ?thesis
    by (simp add: take_bit_of_int)
qed

lemma digit_of_window:
  "r + 21 \<le> k \<Longrightarrow> take_bit 21 (drop_bit r (take_bit k (drop_bit p x))) = take_bit 21 (drop_bit (p + r) (x :: int))"
  by (rule bit_eqI) (auto simp: bit_simps ac_simps)

lemma top_of_window:
  "0 \<le> x \<Longrightarrow> x < 2 ^ (p + k) \<Longrightarrow> drop_bit r (take_bit k (drop_bit p x)) = drop_bit (p + r) (x :: int)"
proof -
  assume "0 \<le> x" "x < 2 ^ (p + k)"
  then have "take_bit k (drop_bit p x) = drop_bit p x"
    by (simp add: take_bit_drop_bit take_bit_int_eq_self add.commute)
  then show ?thesis by (simp add: add.commute)
qed

definition digits21 :: "nat \<Rightarrow> int \<Rightarrow> int list" where
  "digits21 n v = map (\<lambda>k. take_bit 21 (drop_bit (21 * k) v)) [0..<n] @ [drop_bit (21 * n) v]"

lemmas load_windows =
  load3_window load4_window shifted_window masked_digit digit_of_window

lemma sc_load_digits: "length a = 32 \<Longrightarrow> sc_load a = map of_int (digits21 11 (le_value a))"
  using le_value_less [of a] load3_window [of 0 a] digit_of_window [of 0 24]
  by (simp add: sc_load_def digits21_def upt_rec load_windows top_of_window)

lemma sc_load64_digits: "length s = 64 \<Longrightarrow> sc_load64 s = map of_int (digits21 23 (le_value s))"
  using le_value_less [of s] load3_window [of 0 s] digit_of_window [of 0 24]
  by (simp add: sc_load64_def digits21_def upt_rec load_windows top_of_window)

definition sc_weight :: "nat \<Rightarrow> int" where
  "sc_weight k = 2 ^ (21 * k)"

lemma digits21_bounded:
  assumes "0 \<le> v" "v < 2 ^ (21 * n + d)"
  shows "bounded (digits21 n v) (replicate n (0, 2 ^ 21 - 1) @ [(0, 2 ^ d - 1)])"
proof -
  have "drop_bit (21 * n) v = take_bit d (drop_bit (21 * n) v)"
    using top_of_window [of v "21 * n" d 0] assms by simp
  then have "within (drop_bit (21 * n) v) (0, 2 ^ d - 1)"
    by (metis (no_types) fst_conv snd_conv take_bit_int_less_exp take_bit_nonnegative within_def zle_diff1_eq)
  moreover have "within (take_bit 21 x) (0, 2 ^ 21 - 1)" for x :: int
    using take_bit_int_less_exp [of 21 x] by (simp add: within_def)
  ultimately show ?thesis
    by (auto simp: digits21_def list_all2_conv_all_nth nth_append)
qed

lemma represents_digits21: "represents sc_weight (digits21 n v) = v"
proof -
  have "represents_from sc_weight 0 (map (\<lambda>k. take_bit 21 (drop_bit (21 * k) v)) [0..<n]) = take_bit (21 * n) v"
  proof (induction n)
    case (Suc n)
    have "take_bit (21 * n) v + push_bit (21 * n) (take_bit 21 (drop_bit (21 * n) v)) = take_bit (21 * Suc n) v"
      using bits_ident [of "21 * n" "take_bit (21 * Suc n) v"]
      by (simp add: drop_bit_take_bit add.commute)
    with Suc show ?case
      by (simp add: represents_from_append sc_weight_def push_bit_eq_mult)
  qed simp
  moreover have "take_bit (21 * n) v + drop_bit (21 * n) v * 2 ^ (21 * n) = v"
    using bits_ident [of "21 * n" v] by (simp add: push_bit_eq_mult add.commute)
  ultimately show ?thesis
    by (simp add: represents_def digits21_def represents_from_append sc_weight_def)
qed

section \<open>The product\<close>

lemma length_12D:
  "length a = 12 \<Longrightarrow> \<exists>a0 a1 a2 a3 a4 a5 a6 a7 a8 a9 a10 a11. a = [a0, a1, a2, a3, a4, a5, a6, a7, a8, a9, a10, a11]"
  by (auto simp: length_Suc_conv eval_nat_numeral)

lemma sc_product_of_int:
  "length a = 12 \<Longrightarrow> length b = 12 \<Longrightarrow> length c = 12 \<Longrightarrow>
   sc_product (map of_int a) (map of_int b) (map of_int c) = map (of_int :: int \<Rightarrow> 'a::comm_ring_1) (sc_product a b c)"
  by (simp add: sc_product_def)

lemma represents_product:
  assumes "length a = 12" "length b = 12" "length c = 12"
  shows "represents sc_weight (sc_product a b c)
         = represents sc_weight a * represents sc_weight b + represents sc_weight c"
proof -
  obtain a0 a1 a2 a3 a4 a5 a6 a7 a8 a9 a10 a11 where a: "a = [a0, a1, a2, a3, a4, a5, a6, a7, a8, a9, a10, a11]"
    using length_12D [OF assms(1)] by blast
  obtain b0 b1 b2 b3 b4 b5 b6 b7 b8 b9 b10 b11 where b: "b = [b0, b1, b2, b3, b4, b5, b6, b7, b8, b9, b10, b11]"
    using length_12D [OF assms(2)] by blast
  obtain c0 c1 c2 c3 c4 c5 c6 c7 c8 c9 c10 c11 where c: "c = [c0, c1, c2, c3, c4, c5, c6, c7, c8, c9, c10, c11]"
    using length_12D [OF assms(3)] by blast
  define x :: int where "x = 2 ^ 21"
  have w: "sc_weight k = x ^ k" for k
    by (simp add: sc_weight_def x_def power_mult)
  show ?thesis
    unfolding a b c by (simp add: represents_def w sc_product_def) algebra
qed

section \<open>The three routines of the reduction\<close>

definition sc_digit_bounds :: "ivl list" where
  "sc_digit_bounds = replicate 11 (0, 2 ^ 21 - 1) @ [(0, 2 ^ 25 - 1)]"

text \<open>Bounds of the product: digit \<open>k\<close> is the sum of the products that end there.\<close>

definition sc_product_bounds :: "ivl list" where
  "sc_product_bounds = map (\<lambda>x. (0, x)) (sc_product (map snd sc_digit_bounds) (map snd sc_digit_bounds) (map snd sc_digit_bounds))"

definition sc_load64_bounds :: "ivl list" where
  "sc_load64_bounds = replicate 23 (0, 2 ^ 21 - 1) @ [(0, 2 ^ 29 - 1)]"

definition sc_product_folded :: "ivl list" where
  "sc_product_folded = the (ivl_run 64 (sc_carry_product @ sc_fold_high @ sc_fold_low) sc_product_bounds)"

definition sc_load64_folded :: "ivl list" where
  "sc_load64_folded = the (ivl_run 64 (sc_fold_high @ sc_fold_low) sc_load64_bounds)"

text \<open>What the last phase needs of its input, and what it leaves.\<close>

definition sc_small :: "ivl list" where
  "sc_small = replicate 11 (- (2 ^ 28), 2 ^ 28 - 1) @ [(- (2 ^ 20) - 2 ^ 10, 2 ^ 20 + 2 ^ 10)] @ replicate 12 (0, 0)"

definition sc_normal :: "ivl list" where
  "sc_normal = the (ivl_run 64 sc_normalise sc_small)"

interpretation mul_phase: limb_routine "TYPE(64)" sc_weight sc_order
  "sc_carry_product @ sc_fold_high @ sc_fold_low" sc_product_bounds sc_product_folded
  by unfold_locales (simp_all, code_simp+)

interpretation reduce_phase: limb_routine "TYPE(64)" sc_weight sc_order
  "sc_fold_high @ sc_fold_low" sc_load64_bounds sc_load64_folded
  by unfold_locales (simp_all, code_simp+)

interpretation last_phase: limb_routine "TYPE(64)" sc_weight sc_order
  sc_normalise sc_small sc_normal
  by unfold_locales (simp_all, code_simp+)

section \<open>Output bytes\<close>

lemma replicate_11: "replicate 11 x = [x, x, x, x, x, x, x, x, x, x, x]"
  by (simp add: eval_nat_numeral)

lemma sc_pack_bytes:
  assumes "bounded [s0, s1, s2, s3, s4, s5, s6, s7, s8, s9, s10, s11] (replicate 11 (0, 2 ^ 21 - 1) @ [(0, 2 ^ 21)])"
  shows "sc_pack (map of_int [s0, s1, s2, s3, s4, s5, s6, s7, s8, s9, s10, s11] @ rest)
         = le_bytes 32 (join 21 s0 (join 21 s1 (join 21 s2 (join 21 s3 (join 21 s4 (join 21 s5 (join 21 s6
             (join 21 s7 (join 21 s8 (join 21 s9 (join 21 s10 s11)))))))))))"
proof -
  note r = assms [simplified replicate_11, simplified, unfolded within_def, simplified]
  have top: "(of_int (drop_bit n (join 21 s10 s11)) :: byte)
      = ucast (signed_drop_bit n (of_int s10 :: uint64) OR push_bit (21 - n) (of_int s11 :: uint64))"
    if "13 < n" "n < 21" for n
    using pack_split [where 'a = 64, of s10 21 n 0 s11] r that by simp
  have last: "(of_int (drop_bit n s11) :: byte) = ucast (signed_drop_bit n (of_int s11 :: uint64))" if "n \<le> 56" for n
    using that by (intro pack_last) simp
  show ?thesis
    unfolding le_bytes_32 sc_pack_def
    using r by (simp add: skip_digit packs [where 'a = 64] top last)
qed

section \<open>Both routines return the residue\<close>

definition sc_carried :: "ivl list" where
  "sc_carried = the (ivl_run 64 (map sc_floor [0, 1, 2, 3, 4, 5, 6, 7, 8, 9, 10, 11]) sc_small)"

text \<open>Plain carries keep the number exactly: they are legal for the modulus 0.\<close>

interpretation carries: limb_routine "TYPE(64)" sc_weight 0
  "map sc_floor [0, 1, 2, 3, 4, 5, 6, 7, 8, 9, 10, 11]" sc_small sc_carried
  by unfold_locales (simp_all, code_simp+)

definition sc_folded :: "ivl list" where
  "sc_folded = the (ivl_exec 64 (sc_fold 12) sc_carried)"

interpretation carries_again: limb_routine "TYPE(64)" sc_weight 0
  "map sc_floor [0, 1, 2, 3, 4, 5, 6, 7, 8, 9, 10]" sc_folded sc_normal
  by unfold_locales (simp_all, code_simp+)

lemma sc_carried_eq: "sc_carried = replicate 12 (0, 2 ^ 21 - 1) @ [(-1, 0)] @ replicate 11 (0, 0)"
  by code_simp

lemma sc_normal_eq: "sc_normal = replicate 11 (0, 2 ^ 21 - 1) @ [(-1, 2 ^ 21)] @ replicate 12 (0, 0)"
  by code_simp

lemma represents_from_replicate_0 [simp]: "represents_from w k (replicate n 0) = 0"
  by (induction n arbitrary: k) simp_all

lemma represents_from_full_digits:
  "represents_from sc_weight k (replicate n (2 ^ 21 - 1)) = 2 ^ (21 * (k + n)) - 2 ^ (21 * k)"
proof (induction n arbitrary: k)
  case (Suc n)
  have "(2 ^ 21 - 1) * (2 :: int) ^ (21 * k) = 2 ^ (21 * Suc k) - 2 ^ (21 * k)"
    by (simp add: power_add)
  then show ?case using Suc [of "Suc k"] by (simp add: sc_weight_def)
qed simp

text \<open>With full lower digits and nothing above, digit \<open>n\<close> is the quotient by its weight.\<close>

lemma top_digit:
  assumes "bounded s (replicate n (0, 2 ^ 21 - 1) @ [b] @ replicate m (0, 0))"
  shows "s ! n * 2 ^ (21 * n) \<le> represents sc_weight s" "represents sc_weight s < (s ! n + 1) * 2 ^ (21 * n)"
proof -
  let ?b = "replicate n (0, 2 ^ 21 - 1) @ [(s ! n, s ! n)] @ replicate m (0, 0)"
  have "bounded s ?b"
    using bounded_pin [OF assms, of n] by (simp add: list_update_append)
  then have "within (represents sc_weight s) (s ! n * 2 ^ (21 * n), 2 ^ (21 * n) - 1 + s ! n * 2 ^ (21 * n))"
    using represents_within [of s ?b sc_weight]
    by (simp add: represents_def represents_from_append represents_from_full_digits sc_weight_def
        del: power_numeral diff_numeral_special)
  then show "s ! n * 2 ^ (21 * n) \<le> represents sc_weight s" "represents sc_weight s < (s ! n + 1) * 2 ^ (21 * n)"
    by (simp_all add: within_def algebra_simps)
qed

lemma fold_12_value:
  "length s = 24 \<Longrightarrow> represents sc_weight (execZ (sc_fold 12) s) = represents sc_weight s - s ! 12 * sc_order"
  using represents_fold [of 12 s "[(0, 666643), (1, 470296), (2, 654183), (3, - 997805), (4, 136657), (5, - 683901)]" sc_weight]
  by (simp add: sc_fold_def sc_order_def sc_weight_def algebra_simps)

lemma normalised_value:
  assumes "bounded s sc_small"
  defines "t \<equiv> runZ sc_normalise s"
  shows "represents sc_weight t = represents sc_weight s mod sc_order" "bounded t sc_normal" "0 \<le> t ! 11"
proof -
  let ?c = "map sc_floor [0, 1, 2, 3, 4, 5, 6, 7, 8, 9, 10, 11]"
  let ?d = "map sc_floor [0, 1, 2, 3, 4, 5, 6, 7, 8, 9, 10]"
  define u where "u = runZ ?c s"
  define v where "v = execZ (sc_fold 12) u"
  have u: "bounded u sc_carried" "represents sc_weight u = represents sc_weight s"
    using carries.outputs_bounded [OF assms(1)] carries.residue_kept [OF assms(1)] by (simp_all add: u_def)
  have "length u = 24" "within (u ! 12) (-1, 0)"
    using u(1) list_all2_lengthD [OF u(1)] list_all2_nthD2 [OF u(1), of 12] by (simp_all add: sc_carried_eq nth_append)
  then have d: "u ! 12 = -1 \<or> u ! 12 = 0" and v: "represents sc_weight v = represents sc_weight u - u ! 12 * sc_order"
    using fold_12_value [of u] by (auto simp: within_def v_def)
  have "u ! 12 * 2 ^ 252 \<le> represents sc_weight u" "represents sc_weight u < (u ! 12 + 1) * 2 ^ 252"
    using top_digit [OF u(1) [unfolded sc_carried_eq]] by simp_all
  then have range: "0 \<le> represents sc_weight v" "represents sc_weight v < sc_order"
    using d unfolding v by (auto simp: sc_order_def)
  have t: "t = runZ ?d v"
    by (simp add: t_def sc_normalise_def u_def v_def runZ_append runZ_def)
  show tb: "bounded t sc_normal"
    unfolding t_def by (rule last_phase.outputs_bounded [OF assms(1)])
  have "ivl_exec LENGTH(64) (sc_fold 12) sc_carried = Some sc_folded"
    by code_simp
  then have "bounded v sc_folded"
    unfolding v_def using exec_sound u(1) by blast
  then have tv: "represents sc_weight t = represents sc_weight v"
    using carries_again.residue_kept by (simp add: t)
  show "represents sc_weight t = represents sc_weight s mod sc_order"
    using last_phase.residue_kept [OF assms(1)] range tv by (simp add: t_def mod_pos_pos_trivial)
  have "represents sc_weight t < (t ! 11 + 1) * 2 ^ 231"
    using top_digit(2) [OF tb [unfolded sc_normal_eq]] by simp
  then show "0 \<le> t ! 11"
    using range(1) tv by (simp add: zero_less_mult_iff)
qed

lemma pack_residue:
  assumes "bounded s sc_small"
  shows "sc_pack (run sc_normalise (map of_int s)) = le_bytes 32 (represents sc_weight s mod sc_order)"
proof -
  let ?t = "runZ sc_normalise s"
  note t = normalised_value [OF assms]
  obtain t1 e t2 where tt: "?t = t1 @ e # t2" and t1: "bounded t1 (replicate 11 (0, 2 ^ 21 - 1))"
    and e: "within e (-1, 2 ^ 21)" and t2: "bounded t2 (replicate 12 (0, 0))"
    using t(2) unfolding sc_normal_eq append_Cons append_Nil by (auto simp: list_all2_append2 list_all2_Cons2)
  have "length t1 = 11"
    using list_all2_lengthD [OF t1] by simp
  then have "within e (0, 2 ^ 21)" and "length (t1 @ [e]) = 12"
    using e t(3) by (simp_all add: tt nth_append within_def)
  then obtain s0 s1 s2 s3 s4 s5 s6 s7 s8 s9 s10 s11
    where s: "t1 @ [e] = [s0, s1, s2, s3, s4, s5, s6, s7, s8, s9, s10, s11]"
      and b: "bounded [s0, s1, s2, s3, s4, s5, s6, s7, s8, s9, s10, s11] (replicate 11 (0, 2 ^ 21 - 1) @ [(0, 2 ^ 21)])"
    using length_12D [of "t1 @ [e]"] list_all2_appendI [OF t1, of "[e]" "[(0, 2 ^ 21)]"] by auto
  have tt: "?t = [s0, s1, s2, s3, s4, s5, s6, s7, s8, s9, s10, s11] @ replicate 12 0"
    using tt bounded_zeros [OF t2] s by (metis append.assoc append_Cons append_Nil)
  have "sc_pack (run sc_normalise (map of_int s)) = sc_pack (map of_int ?t)"
    using last_phase.words_are_integers [OF assms] by simp
  also have "\<dots> = le_bytes 32 (join 21 s0 (join 21 s1 (join 21 s2 (join 21 s3 (join 21 s4 (join 21 s5 (join 21 s6
             (join 21 s7 (join 21 s8 (join 21 s9 (join 21 s10 s11)))))))))))"
    unfolding tt map_append by (rule sc_pack_bytes [OF b])
  also have "\<dots> = le_bytes 32 (represents sc_weight ?t)"
    unfolding tt by (simp add: represents_def represents_from_append sc_weight_def join_def mult.commute)
  finally show ?thesis
    by (simp add: t(1))
qed

lemma product_bounded:
  assumes "bounded a sc_digit_bounds" "bounded b sc_digit_bounds" "bounded c sc_digit_bounds"
  shows "bounded (sc_product a b c) sc_product_bounds"
proof -
  have d: "0 \<le> x ! k \<and> x ! k \<le> map snd sc_digit_bounds ! k" if "bounded x sc_digit_bounds" "k < 12" for x k
    using list_all2_nthD2 [OF that(1), of k] that(2) by (auto simp: sc_digit_bounds_def within_def nth_append)
  have w: "within x (0, y) \<longleftrightarrow> 0 \<le> x \<and> x \<le> y" for x y :: int
    by (simp add: within_def)
  show ?thesis
    unfolding sc_product_bounds_def sc_product_def list.map list_all2_Cons w
    by (intro conjI add_mono mult_mono add_nonneg_nonneg mult_nonneg_nonneg list_all2_Nil [THEN iffD2] TrueI
        d [OF assms(1), THEN conjunct1] d [OF assms(1), THEN conjunct2]
        d [OF assms(2), THEN conjunct1] d [OF assms(2), THEN conjunct2]
        d [OF assms(3), THEN conjunct1] d [OF assms(3), THEN conjunct2]
        order_trans [OF d [OF assms(1), THEN conjunct1] d [OF assms(1), THEN conjunct2]])
      simp_all
qed

lemma folded_small:
  "bounded s sc_product_folded \<Longrightarrow> bounded s sc_small" "bounded s sc_load64_folded \<Longrightarrow> bounded s sc_small"
proof -
  have "list_all2 (\<lambda>x y. fst y \<le> fst x \<and> snd x \<le> snd y) sc_product_folded sc_small"
    "list_all2 (\<lambda>x y. fst y \<le> fst x \<and> snd x \<le> snd y) sc_load64_folded sc_small"
    by code_simp+
  then show "bounded s sc_product_folded \<Longrightarrow> bounded s sc_small" "bounded s sc_load64_folded \<Longrightarrow> bounded s sc_small"
    by (blast intro: bounded_weaken)+
qed

lemma le_value_residue: "le_value (le_bytes 32 (v mod sc_order)) = v mod sc_order" "length (le_bytes n v) = n"
proof -
  have "0 \<le> v mod sc_order" "v mod sc_order < 2 ^ 256"
    using pos_mod_bound [of sc_order v] by (simp_all add: sc_order_def)
  then show "le_value (le_bytes 32 (v mod sc_order)) = v mod sc_order"
    by (simp add: le_value_le_bytes)
qed (simp add: le_bytes_def)

lemma scalar_digits:
  assumes "length a = 32"
  shows "bounded (digits21 11 (le_value a)) sc_digit_bounds" "length (digits21 11 (le_value a)) = 12"
  using digits21_bounded [of "le_value a" 11 25] le_value_less [of a] assms
  by (simp_all add: sc_digit_bounds_def digits21_def)

section \<open>Exactness\<close>

lemma ScMulAdd_bytes:
  assumes "length a = 32" "length b = 32" "length c = 32"
  shows "ScMulAdd a b c = le_bytes 32 ((le_value a * le_value b + le_value c) mod sc_order)"
proof -
  let ?a = "digits21 11 (le_value a)" and ?b = "digits21 11 (le_value b)" and ?c = "digits21 11 (le_value c)"
  let ?p = "sc_product ?a ?b ?c"
  let ?code = "sc_carry_product @ sc_fold_high @ sc_fold_low"
  note d = scalar_digits [OF assms(1)] scalar_digits [OF assms(2)] scalar_digits [OF assms(3)]
  have p: "bounded ?p sc_product_bounds"
    using d by (intro product_bounded)
  have "ScMulAdd a b c = sc_pack (run sc_normalise (run ?code (map of_int ?p)))"
    using d sc_product_of_int [of ?a ?b ?c, where 'a = "64 word"]
    by (simp add: ScMulAdd_def sc_load_digits assms run_append)
  also have "\<dots> = sc_pack (run sc_normalise (map of_int (runZ ?code ?p)))"
    using mul_phase.words_are_integers [OF p] by simp
  also have "\<dots> = le_bytes 32 (represents sc_weight (runZ ?code ?p) mod sc_order)"
    by (rule pack_residue [OF folded_small(1) [OF mul_phase.outputs_bounded [OF p]]])
  also have "\<dots> = le_bytes 32 ((le_value a * le_value b + le_value c) mod sc_order)"
    using mul_phase.residue_kept [OF p] d by (simp add: represents_product represents_digits21)
  finally show ?thesis .
qed

lemma ScReduce_bytes:
  assumes "length s = 64"
  shows "ScReduce s = le_bytes 32 (le_value s mod sc_order)"
proof -
  let ?d = "digits21 23 (le_value s)"
  let ?code = "sc_fold_high @ sc_fold_low"
  have d: "bounded ?d sc_load64_bounds"
    using digits21_bounded [of "le_value s" 23 29] le_value_less [of s] assms by (simp add: sc_load64_bounds_def)
  have "ScReduce s = sc_pack (run sc_normalise (run ?code (map of_int ?d)))"
    by (simp add: ScReduce_def sc_load64_digits assms run_append)
  also have "\<dots> = sc_pack (run sc_normalise (map of_int (runZ ?code ?d)))"
    using reduce_phase.words_are_integers [OF d] by simp
  also have "\<dots> = le_bytes 32 (represents sc_weight (runZ ?code ?d) mod sc_order)"
    by (rule pack_residue [OF folded_small(2) [OF reduce_phase.outputs_bounded [OF d]]])
  also have "\<dots> = le_bytes 32 (le_value s mod sc_order)"
    using reduce_phase.residue_kept [OF d] by (simp add: represents_digits21)
  finally show ?thesis .
qed

text \<open>
  C15. The scalar arithmetic is exact for all inputs, reduced or not: \<^verbatim>\<open>ScMulAdd\<close> computes
  \<open>(a * b + c) mod l\<close> and \<^verbatim>\<open>ScReduce\<close> computes \<open>s mod l\<close>, as 32 bytes holding the least non-negative
  residue. No shift ever reads a word that has overflowed.
\<close>

theorem scalar_arithmetic_exact:
  assumes "length a = 32" "length b = 32" "length c = 32" "length s = 64"
  shows "length (ScMulAdd a b c) = 32 \<and> le_value (ScMulAdd a b c) = (le_value a * le_value b + le_value c) mod sc_order
    \<and> length (ScReduce s) = 32 \<and> le_value (ScReduce s) = le_value s mod sc_order"
  using assms by (simp add: ScMulAdd_bytes ScReduce_bytes le_value_residue)

theorem scalar_arithmetic_exact_witness:
  "le_value (ScMulAdd (replicate 32 255) (replicate 32 255) (replicate 32 255))
     = ((2 ^ 256 - 1) * (2 ^ 256 - 1) + (2 ^ 256 - 1)) mod sc_order
   \<and> le_value (ScReduce (replicate 64 255)) = (2 ^ 512 - 1) mod sc_order"
  using scalar_arithmetic_exact [of "replicate 32 255" "replicate 32 255" "replicate 32 255" "replicate 64 255"]
  unfolding le_value_ff length_replicate by simp

end
