(* ===== verification/Ed25519_Field.thy ===== *)
theory Ed25519_Field
  imports Limb_Machine
begin

text \<open>
  The field of integers modulo \<open>2 ^ 255 - 19\<close>: \<^verbatim>\<open>crypto/ed25519/internal/edwards25519/fe.go\<close> (the
  portable representation) and \<^verbatim>\<open>field.go\<close>. A \<^verbatim>\<open>FieldElement\<close> is a list of ten 32-bit words, read as
  signed digits of alternately 26 and 25 bits; products and carries are computed in 64-bit words.
  Every routine works only for digits within bounds its comment states; the theorems prove that
  under those bounds no digit overflows, that the results are within the stated bounds again, and
  that the represented number is right modulo the prime.
\<close>

section \<open>Operations\<close>

type_synonym int32 = "32 word"
type_synonym FieldElement = "int32 list"

definition FeZero :: FieldElement where
  "FeZero = replicate 10 0"

definition FeOne :: FieldElement where
  "FeOne = FeZero[0 := 1]"

definition FeAdd :: "FieldElement \<Rightarrow> FieldElement \<Rightarrow> FieldElement" where
  "FeAdd a b = map (\<lambda>k. a ! k + b ! k) [0..<10]"

definition FeSub :: "FieldElement \<Rightarrow> FieldElement \<Rightarrow> FieldElement" where
  "FeSub a b = map (\<lambda>k. a ! k - b ! k) [0..<10]"

definition FeNeg :: "FieldElement \<Rightarrow> FieldElement" where
  "FeNeg f = map (\<lambda>k. - (f ! k)) [0..<10]"

definition FeCMove :: "FieldElement \<Rightarrow> FieldElement \<Rightarrow> int32 \<Rightarrow> FieldElement" where
  "FeCMove f g b = map (\<lambda>k. f ! k XOR (- b AND (f ! k XOR g ! k))) [0..<10]"

text \<open>\<^verbatim>\<open>FeCombine\<close>: the carries on the ten int64 values, then the conversion to int32.\<close>

definition fe_carries :: "limb_op list" where
  "fe_carries =
    [Carry True 0 1 26 1,
     Carry True 4 5 26 1,
     Carry True 1 2 25 1,
     Carry True 5 6 25 1,
     Carry True 2 3 26 1,
     Carry True 6 7 26 1,
     Carry True 3 4 25 1,
     Carry True 7 8 25 1,
     Carry True 4 5 26 1,
     Carry True 8 9 26 1,
     Carry True 9 0 25 19,
     Carry True 0 1 26 1]"

definition FeCombine :: "uint64 list \<Rightarrow> FieldElement" where
  "FeCombine h = map ucast (run fe_carries h)"

definition FeFromBytes :: "bytes \<Rightarrow> FieldElement" where
  "FeFromBytes src = FeCombine
    [load4 src,
     push_bit 6 (load3 (drop 4 src)),
     push_bit 5 (load3 (drop 7 src)),
     push_bit 3 (load3 (drop 10 src)),
     push_bit 2 (load3 (drop 13 src)),
     load4 (drop 16 src),
     push_bit 7 (load3 (drop 20 src)),
     push_bit 5 (load3 (drop 23 src)),
     push_bit 4 (load3 (drop 26 src)),
     push_bit 2 (load3 (drop 29 src) AND 8388607)]"

text \<open>
  The ten sums of \<^verbatim>\<open>FeMul\<close>; \<open>f2\<close> and \<open>g19\<close> are the precomputed \<^verbatim>\<open>f1_2 .. f9_2\<close> and
  \<^verbatim>\<open>g1_19 .. g9_19\<close>, of which only the entries the code names are read.
\<close>

definition fe_products :: "'a::comm_ring_1 list \<Rightarrow> 'a list \<Rightarrow> 'a list \<Rightarrow> 'a list \<Rightarrow> 'a list" where
  "fe_products f f2 g g19 =
    [f ! 0 * g ! 0 + f2 ! 1 * g19 ! 9 + f ! 2 * g19 ! 8 + f2 ! 3 * g19 ! 7 + f ! 4 * g19 ! 6
        + f2 ! 5 * g19 ! 5 + f ! 6 * g19 ! 4 + f2 ! 7 * g19 ! 3 + f ! 8 * g19 ! 2
        + f2 ! 9 * g19 ! 1,
     f ! 0 * g ! 1 + f ! 1 * g ! 0 + f ! 2 * g19 ! 9 + f ! 3 * g19 ! 8 + f ! 4 * g19 ! 7
        + f ! 5 * g19 ! 6 + f ! 6 * g19 ! 5 + f ! 7 * g19 ! 4 + f ! 8 * g19 ! 3
        + f ! 9 * g19 ! 2,
     f ! 0 * g ! 2 + f2 ! 1 * g ! 1 + f ! 2 * g ! 0 + f2 ! 3 * g19 ! 9 + f ! 4 * g19 ! 8
        + f2 ! 5 * g19 ! 7 + f ! 6 * g19 ! 6 + f2 ! 7 * g19 ! 5 + f ! 8 * g19 ! 4
        + f2 ! 9 * g19 ! 3,
     f ! 0 * g ! 3 + f ! 1 * g ! 2 + f ! 2 * g ! 1 + f ! 3 * g ! 0 + f ! 4 * g19 ! 9
        + f ! 5 * g19 ! 8 + f ! 6 * g19 ! 7 + f ! 7 * g19 ! 6 + f ! 8 * g19 ! 5
        + f ! 9 * g19 ! 4,
     f ! 0 * g ! 4 + f2 ! 1 * g ! 3 + f ! 2 * g ! 2 + f2 ! 3 * g ! 1 + f ! 4 * g ! 0
        + f2 ! 5 * g19 ! 9 + f ! 6 * g19 ! 8 + f2 ! 7 * g19 ! 7 + f ! 8 * g19 ! 6
        + f2 ! 9 * g19 ! 5,
     f ! 0 * g ! 5 + f ! 1 * g ! 4 + f ! 2 * g ! 3 + f ! 3 * g ! 2 + f ! 4 * g ! 1
        + f ! 5 * g ! 0 + f ! 6 * g19 ! 9 + f ! 7 * g19 ! 8 + f ! 8 * g19 ! 7 + f ! 9 * g19 ! 6,
     f ! 0 * g ! 6 + f2 ! 1 * g ! 5 + f ! 2 * g ! 4 + f2 ! 3 * g ! 3 + f ! 4 * g ! 2
        + f2 ! 5 * g ! 1 + f ! 6 * g ! 0 + f2 ! 7 * g19 ! 9 + f ! 8 * g19 ! 8 + f2 ! 9 * g19 ! 7,
     f ! 0 * g ! 7 + f ! 1 * g ! 6 + f ! 2 * g ! 5 + f ! 3 * g ! 4 + f ! 4 * g ! 3
        + f ! 5 * g ! 2 + f ! 6 * g ! 1 + f ! 7 * g ! 0 + f ! 8 * g19 ! 9 + f ! 9 * g19 ! 8,
     f ! 0 * g ! 8 + f2 ! 1 * g ! 7 + f ! 2 * g ! 6 + f2 ! 3 * g ! 5 + f ! 4 * g ! 4
        + f2 ! 5 * g ! 3 + f ! 6 * g ! 2 + f2 ! 7 * g ! 1 + f ! 8 * g ! 0 + f2 ! 9 * g19 ! 9,
     f ! 0 * g ! 9 + f ! 1 * g ! 8 + f ! 2 * g ! 7 + f ! 3 * g ! 6 + f ! 4 * g ! 5
        + f ! 5 * g ! 4 + f ! 6 * g ! 3 + f ! 7 * g ! 2 + f ! 8 * g ! 1 + f ! 9 * g ! 0]"

definition FeMul :: "FieldElement \<Rightarrow> FieldElement \<Rightarrow> FieldElement" where
  "FeMul f g = FeCombine
     (fe_products (map scast f) (map (\<lambda>x. scast (2 * x)) f) (map scast g) (map (\<lambda>x. scast (19 * x)) g))"

definition fe_squares :: "'a::comm_ring_1 list \<Rightarrow> 'a list \<Rightarrow> 'a list" where
  "fe_squares f f2 =
    [f ! 0 * f ! 0 + f2 ! 1 * (38 * f ! 9) + f2 ! 2 * (19 * f ! 8) + f2 ! 3 * (38 * f ! 7)
        + f2 ! 4 * (19 * f ! 6) + f ! 5 * (38 * f ! 5),
     f2 ! 0 * f ! 1 + f ! 2 * (38 * f ! 9) + f2 ! 3 * (19 * f ! 8) + f ! 4 * (38 * f ! 7)
        + f2 ! 5 * (19 * f ! 6),
     f2 ! 0 * f ! 2 + f2 ! 1 * f ! 1 + f2 ! 3 * (38 * f ! 9) + f2 ! 4 * (19 * f ! 8)
        + f2 ! 5 * (38 * f ! 7) + f ! 6 * (19 * f ! 6),
     f2 ! 0 * f ! 3 + f2 ! 1 * f ! 2 + f ! 4 * (38 * f ! 9) + f2 ! 5 * (19 * f ! 8)
        + f ! 6 * (38 * f ! 7),
     f2 ! 0 * f ! 4 + f2 ! 1 * f2 ! 3 + f ! 2 * f ! 2 + f2 ! 5 * (38 * f ! 9)
        + f2 ! 6 * (19 * f ! 8) + f ! 7 * (38 * f ! 7),
     f2 ! 0 * f ! 5 + f2 ! 1 * f ! 4 + f2 ! 2 * f ! 3 + f ! 6 * (38 * f ! 9)
        + f2 ! 7 * (19 * f ! 8),
     f2 ! 0 * f ! 6 + f2 ! 1 * f2 ! 5 + f2 ! 2 * f ! 4 + f2 ! 3 * f ! 3
        + f2 ! 7 * (38 * f ! 9) + f ! 8 * (19 * f ! 8),
     f2 ! 0 * f ! 7 + f2 ! 1 * f ! 6 + f2 ! 2 * f ! 5 + f2 ! 3 * f ! 4 + f ! 8 * (38 * f ! 9),
     f2 ! 0 * f ! 8 + f2 ! 1 * f2 ! 7 + f2 ! 2 * f ! 6 + f2 ! 3 * f2 ! 5 + f ! 4 * f ! 4
        + f ! 9 * (38 * f ! 9),
     f2 ! 0 * f ! 9 + f2 ! 1 * f ! 8 + f2 ! 2 * f ! 7 + f2 ! 3 * f ! 6 + f2 ! 4 * f ! 5]"

definition feSquare :: "FieldElement \<Rightarrow> uint64 list" where
  "feSquare f = fe_squares (map scast f) (map (\<lambda>x. scast (2 * x)) f)"

definition FeSquare :: "FieldElement \<Rightarrow> FieldElement" where
  "FeSquare f = FeCombine (feSquare f)"

definition FeSquare2 :: "FieldElement \<Rightarrow> FieldElement" where
  "FeSquare2 f = FeCombine (map (\<lambda>h. h + h) (feSquare f))"

text \<open>
  \<^verbatim>\<open>FeToBytes\<close> writes into its argument: the code leaves the element in reduced form, so the model
  returns the bytes and the new element.
\<close>

definition fe_quotient :: "FieldElement \<Rightarrow> int32" where
  "fe_quotient h =
     fold (\<lambda>(k, w) q. signed_drop_bit w (h ! k + q)) [(0, 26), (1, 25), (2, 26), (3, 25), (4, 26), (5, 25), (6, 26), (7, 25), (8, 26), (9, 25)]
       (signed_drop_bit 25 (19 * h ! 9 + 16777216))"

definition fe_normalise :: "limb_op list" where
  "fe_normalise =
    [Carry False 0 1 26 1,
     Carry False 1 2 25 1,
     Carry False 2 3 26 1,
     Carry False 3 4 25 1,
     Carry False 4 5 26 1,
     Carry False 5 6 25 1,
     Carry False 6 7 26 1,
     Carry False 7 8 25 1,
     Carry False 8 9 26 1,
     Carry False 9 0 25 0]"

definition fe_pack :: "FieldElement \<Rightarrow> bytes" where
  "fe_pack h =
    [ucast (signed_drop_bit 0 (h ! 0)),
     ucast (signed_drop_bit 8 (h ! 0)),
     ucast (signed_drop_bit 16 (h ! 0)),
     ucast (signed_drop_bit 24 (h ! 0) OR push_bit 2 (h ! 1)),
     ucast (signed_drop_bit 6 (h ! 1)),
     ucast (signed_drop_bit 14 (h ! 1)),
     ucast (signed_drop_bit 22 (h ! 1) OR push_bit 3 (h ! 2)),
     ucast (signed_drop_bit 5 (h ! 2)),
     ucast (signed_drop_bit 13 (h ! 2)),
     ucast (signed_drop_bit 21 (h ! 2) OR push_bit 5 (h ! 3)),
     ucast (signed_drop_bit 3 (h ! 3)),
     ucast (signed_drop_bit 11 (h ! 3)),
     ucast (signed_drop_bit 19 (h ! 3) OR push_bit 6 (h ! 4)),
     ucast (signed_drop_bit 2 (h ! 4)),
     ucast (signed_drop_bit 10 (h ! 4)),
     ucast (signed_drop_bit 18 (h ! 4)),
     ucast (signed_drop_bit 0 (h ! 5)),
     ucast (signed_drop_bit 8 (h ! 5)),
     ucast (signed_drop_bit 16 (h ! 5)),
     ucast (signed_drop_bit 24 (h ! 5) OR push_bit 1 (h ! 6)),
     ucast (signed_drop_bit 7 (h ! 6)),
     ucast (signed_drop_bit 15 (h ! 6)),
     ucast (signed_drop_bit 23 (h ! 6) OR push_bit 3 (h ! 7)),
     ucast (signed_drop_bit 5 (h ! 7)),
     ucast (signed_drop_bit 13 (h ! 7)),
     ucast (signed_drop_bit 21 (h ! 7) OR push_bit 4 (h ! 8)),
     ucast (signed_drop_bit 4 (h ! 8)),
     ucast (signed_drop_bit 12 (h ! 8)),
     ucast (signed_drop_bit 20 (h ! 8) OR push_bit 6 (h ! 9)),
     ucast (signed_drop_bit 2 (h ! 9)),
     ucast (signed_drop_bit 10 (h ! 9)),
     ucast (signed_drop_bit 18 (h ! 9))]"

definition FeToBytes :: "FieldElement \<Rightarrow> bytes \<times> FieldElement" where
  "FeToBytes h =
     (let r = run fe_normalise (h[0 := h ! 0 + 19 * fe_quotient h])
      in (fe_pack r, r))"

text \<open>Both tests write their argument out, so they too leave it in reduced form.\<close>

definition FeIsNegative :: "FieldElement \<Rightarrow> byte \<times> FieldElement" where
  "FeIsNegative f = (let (s, f) = FeToBytes f in (s ! 0 AND 1, f))"

definition FeIsNonZero :: "FieldElement \<Rightarrow> int32 \<times> FieldElement" where
  "FeIsNonZero f =
     (let (s, f) = FeToBytes f;
          x = fold (\<lambda>b x. x OR b) s 0;
          x = x OR drop_bit 4 x;
          x = x OR drop_bit 2 x;
          x = x OR drop_bit 1 x
      in (ucast (x AND 1), f))"

text \<open>\<open>squarings n f\<close> is \<^verbatim>\<open>FeSquare\<close> followed by the loop that squares \<open>n - 1\<close> more times.\<close>

definition squarings :: "nat \<Rightarrow> FieldElement \<Rightarrow> FieldElement" where
  "squarings n f = (FeSquare ^^ n) f"

definition FeInvert :: "FieldElement \<Rightarrow> FieldElement" where
  "FeInvert z =
     (let t0 = squarings 1 z;
          t1 = squarings 2 t0;
          t1 = FeMul z t1;
          t0 = FeMul t0 t1;
          t2 = squarings 1 t0;
          t1 = FeMul t1 t2;
          t2 = squarings 5 t1;
          t1 = FeMul t2 t1;
          t2 = squarings 10 t1;
          t2 = FeMul t2 t1;
          t3 = squarings 20 t2;
          t2 = FeMul t3 t2;
          t2 = squarings 10 t2;
          t1 = FeMul t2 t1;
          t2 = squarings 50 t1;
          t2 = FeMul t2 t1;
          t3 = squarings 100 t2;
          t2 = FeMul t3 t2;
          t2 = squarings 50 t2;
          t1 = FeMul t2 t1;
          t1 = squarings 5 t1
      in FeMul t1 t0)"

definition fePow22523 :: "FieldElement \<Rightarrow> FieldElement" where
  "fePow22523 z =
     (let t0 = squarings 1 z;
          t1 = squarings 2 t0;
          t1 = FeMul z t1;
          t0 = FeMul t0 t1;
          t0 = squarings 1 t0;
          t0 = FeMul t1 t0;
          t1 = squarings 5 t0;
          t0 = FeMul t1 t0;
          t1 = squarings 10 t0;
          t1 = FeMul t1 t0;
          t2 = squarings 20 t1;
          t1 = FeMul t2 t1;
          t1 = squarings 10 t1;
          t0 = FeMul t1 t0;
          t1 = squarings 50 t0;
          t1 = FeMul t1 t0;
          t2 = squarings 100 t1;
          t1 = FeMul t2 t1;
          t1 = squarings 50 t1;
          t0 = FeMul t1 t0;
          t0 = squarings 2 t0
      in FeMul t0 z)"

section \<open>Constants\<close>

definition fe_d :: FieldElement where
  "fe_d = [- 10913610, 13857413, - 15372611, 6949391, 114729, - 8787816, - 6275908, - 3247719, - 18696448, - 12055116]"

definition fe_d2 :: FieldElement where
  "fe_d2 = [- 21827239, - 5839606, - 30745221, 13898782, 229458, 15978800, - 12551817, - 6495438, 29715968, 9444199]"

definition SqrtM1 :: FieldElement where
  "SqrtM1 = [- 32595792, - 7943725, 9377950, 3500415, 12389472, - 272473, - 25146209, - 2005654, 326686, 11406482]"

section \<open>Values and bounds\<close>

definition fe_prime :: int where
  "fe_prime = 2 ^ 255 - 19"

definition fe_weight :: "nat \<Rightarrow> int" where
  "fe_weight k = 2 ^ ((51 * k + 1) div 2)"

definition fe_value :: "FieldElement \<Rightarrow> int" where
  "fe_value f = represents fe_weight (map sint f)"

text \<open>
  \<open>fe_bound m\<close>: digit bounds \<open>m * 2 ^ 25, m * 2 ^ 24, ...\<close>, with \<open>m\<close> in hundredths, as in the comments
  of the code (\<^verbatim>\<open>1.1*2^25,1.1*2^24,...\<close> is \<open>fe_bound 110\<close>).
\<close>

definition fe_max :: "int \<Rightarrow> nat \<Rightarrow> int" where
  "fe_max m k = m * 2 ^ (if even k then 25 else 24) div 100"

definition fe_bound :: "int \<Rightarrow> ivl list" where
  "fe_bound m = map (\<lambda>k. (- fe_max m k, fe_max m k)) [0..<10]"

definition fe_ok :: "int \<Rightarrow> FieldElement \<Rightarrow> bool" where
  "fe_ok m f \<longleftrightarrow> bounded (map sint f) (fe_bound m)"

section \<open>The carry chain of \<^verbatim>\<open>FeCombine\<close>\<close>

definition fe_wide :: "ivl list" where
  "fe_wide = replicate 10 (- (2 ^ 62), 2 ^ 62)"

definition fe_combined :: "ivl list" where
  "fe_combined = the (ivl_run 64 fe_carries fe_wide)"

interpretation combine: limb_routine "TYPE(64)" fe_weight fe_prime fe_carries fe_wide fe_combined
  by unfold_locales (simp_all, code_simp+)

lemma combined_bounds: "list_all2 (\<lambda>x y. fst y \<le> fst x \<and> snd x \<le> snd y) fe_combined (fe_bound 101)"
  by code_simp

lemma fe_ok_iff: "fe_ok m f \<longleftrightarrow> length f = 10 \<and> (\<forall>k<10. \<bar>sint (f ! k)\<bar> \<le> fe_max m k)"
  by (auto simp: fe_ok_def fe_bound_def list_all2_conv_all_nth within_def abs_le_iff minus_le_iff)

lemma fe_ok_length: "fe_ok m f \<Longrightarrow> length f = 10"
  by (simp add: fe_ok_iff)

lemma sint_of_int_word: "in_word LENGTH('a) (x, x) \<Longrightarrow> sint (of_int x :: 'a::len word) = x"
  by (simp add: signed_of_int in_word_def signed_take_bit_int_eq_self)

lemma int32_of_int64: "ucast (of_int x :: uint64) = (of_int x :: int32)"
  by (rule bit_word_eqI) (simp add: bit_simps)

text \<open>\<^verbatim>\<open>FeCombine\<close> on ten numbers of at most 62 bits.\<close>

lemma FeCombine_correct:
  assumes "bounded h fe_wide"
  shows "fe_ok 101 (FeCombine (map of_int h))"
    and "fe_value (FeCombine (map of_int h)) mod fe_prime = represents fe_weight h mod fe_prime"
proof -
  let ?r = "runZ fe_carries h"
  have r: "FeCombine (map of_int h) = map of_int ?r"
    by (simp add: FeCombine_def combine.words_are_integers [OF assms] int32_of_int64)
  have b: "bounded ?r (fe_bound 101)"
    using combine.outputs_bounded [OF assms] combined_bounds by (rule bounded_weaken)
  have "in_word 32 (x, x)" if "x \<in> set ?r" for x
    using b that by (auto simp: in_set_conv_nth list_all2_conv_all_nth within_def in_word_def fe_bound_def fe_max_def split: if_splits)
  then have s: "map sint (map of_int ?r :: int32 list) = ?r"
    by (simp add: map_idI sint_of_int_word)
  then show "fe_ok 101 (FeCombine (map of_int h))"
    using b by (simp add: fe_ok_def r)
  show "fe_value (FeCombine (map of_int h)) mod fe_prime = represents fe_weight h mod fe_prime"
    using combine.residue_kept [OF assms] s by (simp add: fe_value_def r)
qed

section \<open>Products\<close>

lemma length_10D:
  "length a = 10 \<Longrightarrow> \<exists>a0 a1 a2 a3 a4 a5 a6 a7 a8 a9. a = [a0, a1, a2, a3, a4, a5, a6, a7, a8, a9]"
  by (auto simp: length_Suc_conv eval_nat_numeral)

lemma fe_products_of_int:
  "length f = 10 \<Longrightarrow> length f2 = 10 \<Longrightarrow> length g = 10 \<Longrightarrow> length g19 = 10 \<Longrightarrow>
   fe_products (map of_int f) (map of_int f2) (map of_int g) (map of_int g19)
   = map (of_int :: int \<Rightarrow> 'a::comm_ring_1) (fe_products f f2 g g19)"
  by (simp add: fe_products_def)

lemma fe_squares_of_int:
  "length f = 10 \<Longrightarrow> length f2 = 10 \<Longrightarrow>
   fe_squares (map of_int f) (map of_int f2) = map (of_int :: int \<Rightarrow> 'a::comm_ring_1) (fe_squares f f2)"
  by (simp add: fe_squares_def)

text \<open>The shortened sums of \<^verbatim>\<open>feSquare\<close> are the sums of \<^verbatim>\<open>FeMul\<close> for equal arguments.\<close>

lemma fe_squares_products:
  fixes f :: "int list"
  assumes "length f = 10"
  shows "fe_squares f (map ((*) 2) f) = fe_products f (map ((*) 2) f) f (map ((*) 19) f)"
  using assms by (simp add: fe_squares_def fe_products_def)

text \<open>
  The part of the sums that wraps around is linear in the factor it is multiplied with, 19 in the
  code; with the factor \<open>2 ^ 255\<close> the sums are the digits of the exact product.
\<close>

lemma represents_10:
  assumes "y = 2 ^ 25"
  shows "represents fe_weight [a0, a1, a2, a3, a4, a5, a6, a7, a8, a9] = a0 + a1 * (2 * y) + a2 * (2 * y ^ 2)
     + a3 * (4 * y ^ 3) + a4 * (4 * y ^ 4) + a5 * (8 * y ^ 5) + a6 * (8 * y ^ 6) + a7 * (16 * y ^ 7)
     + a8 * (16 * y ^ 8) + a9 * (32 * y ^ 9)"
  by (simp add: assms represents_def fe_weight_def)

lemma fe_products_wrapped:
  assumes "length f = 10" "length f2 = 10" "length g = 10" "length g' = 10"
  shows "represents fe_weight (fe_products f f2 g (map ((*) c) g'))
         = represents fe_weight (fe_products f f2 g (replicate 10 0))
         + c * represents fe_weight (fe_products f f2 (replicate 10 0) g')"
proof -
  obtain y :: int where y: "y = 2 ^ 25" by blast
  show ?thesis
    unfolding fe_products_def represents_10 [OF y] by (simp add: assms) algebra
qed

lemma fe_products_exact:
  assumes "length f = 10" "length g = 10"
  shows "represents fe_weight (fe_products f (map ((*) 2) f) g (map ((*) (2 ^ 255)) g))
         = represents fe_weight f * represents fe_weight g"
proof -
  obtain y :: int where y: "y = 2 ^ 25" by blast
  have p: "(2 :: int) ^ 255 = 32 * y ^ 10"
    by (simp add: y)
  obtain a0 a1 a2 a3 a4 a5 a6 a7 a8 a9 where f: "f = [a0, a1, a2, a3, a4, a5, a6, a7, a8, a9]"
    using length_10D [OF assms(1)] by blast
  obtain b0 b1 b2 b3 b4 b5 b6 b7 b8 b9 where g: "g = [b0, b1, b2, b3, b4, b5, b6, b7, b8, b9]"
    using length_10D [OF assms(2)] by blast
  show ?thesis
    unfolding f g p fe_products_def represents_10 [OF y] by simp algebra
qed

lemma fe_products_residue:
  assumes "length f = 10" "length g = 10"
  shows "represents fe_weight (fe_products f (map ((*) 2) f) g (map ((*) 19) g)) mod fe_prime
         = represents fe_weight f * represents fe_weight g mod fe_prime"
proof -
  have "represents fe_weight f * represents fe_weight g
      - represents fe_weight (fe_products f (map ((*) 2) f) g (map ((*) 19) g))
      = fe_prime * represents fe_weight (fe_products f (map ((*) 2) f) (replicate 10 0) g)"
    unfolding fe_products_exact [OF assms, symmetric] fe_prime_def
    using assms by (simp add: fe_products_wrapped left_diff_distrib)
  then show ?thesis
    by (metis dvd_triv_left mod_eq_dvd_iff)
qed

section \<open>Bounds of the products\<close>

lemma abs_sum_le: "\<bar>x\<bar> \<le> a \<Longrightarrow> \<bar>y\<bar> \<le> b \<Longrightarrow> \<bar>x + y\<bar> \<le> a + (b :: int)"
  by linarith

lemma abs_product_le: "\<bar>x\<bar> \<le> a \<Longrightarrow> \<bar>y\<bar> \<le> b \<Longrightarrow> \<bar>x * y\<bar> \<le> a * (b :: int)"
  unfolding abs_mult by (rule mult_mono) simp_all

text \<open>\<open>dominates m x\<close>: the absolute value of every digit of \<open>x\<close> is at most the digit of \<open>m\<close>.\<close>

definition dominates :: "int list \<Rightarrow> int list \<Rightarrow> bool" where
  "dominates m x \<longleftrightarrow> length x = 10 \<and> length m = 10 \<and> (\<forall>k<10. \<bar>x ! k\<bar> \<le> m ! k)"

lemma dominates_digit: "dominates m x \<Longrightarrow> k < 10 \<Longrightarrow> \<bar>x ! k\<bar> \<le> m ! k"
  by (simp add: dominates_def)

lemma dominates_scale: "0 \<le> c \<Longrightarrow> dominates m x \<Longrightarrow> dominates (map ((*) c) m) (map ((*) c) x)"
  by (auto simp: dominates_def abs_mult intro: mult_left_mono)

lemma dominates_list:
  "list_all2 (\<lambda>x m. \<bar>x\<bar> \<le> m) x m \<Longrightarrow> length x = 10 \<Longrightarrow> dominates m x"
  by (auto simp: dominates_def list_all2_conv_all_nth)

lemma fe_products_dominated:
  assumes "dominates m f" "dominates m2 f2" "dominates n g" "dominates n19 g19"
  shows "dominates (fe_products m m2 n n19) (fe_products f f2 g g19)"
  unfolding fe_products_def
  by (rule dominates_list, unfold list_all2_Cons,
      intro conjI abs_sum_le abs_product_le dominates_digit [OF assms(1)] dominates_digit [OF assms(2)]
        dominates_digit [OF assms(3)] dominates_digit [OF assms(4)]) simp_all

lemma fe_squares_dominated:
  assumes "dominates m f" "dominates m2 f2"
  shows "dominates (fe_squares m m2) (fe_squares f f2)"
  unfolding fe_squares_def
  by (rule dominates_list, unfold list_all2_Cons,
      intro conjI abs_sum_le abs_product_le dominates_digit [OF assms(1)] dominates_digit [OF assms(2)]) simp_all

lemma dominated_wide: "dominates m x \<Longrightarrow> list_all (\<lambda>c. c \<le> 2 ^ 62) m \<Longrightarrow> bounded x fe_wide"
  by (force simp: dominates_def fe_wide_def list_all2_conv_all_nth list_all_length within_def)

definition fe_maxima :: "int \<Rightarrow> int list" where
  "fe_maxima m = map (fe_max m) [0..<10]"

lemma fe_ok_dominated: "fe_ok m f \<longleftrightarrow> dominates (fe_maxima m) (map sint f)"
  by (auto simp: fe_ok_iff dominates_def fe_maxima_def)

lemma scast_of_int: "(scast (x :: int32) :: uint64) = of_int (sint x)"
  by (simp add: signed_scast_eq)

lemma scaled_digits:
  assumes "dominates m (map sint f)" "list_all (\<lambda>x. c * x < 2 ^ 31) m" "0 \<le> c"
  shows "map (\<lambda>x. scast (of_int c * x) :: uint64) f = map of_int (map ((*) c) (map sint (f :: FieldElement)))"
proof -
  have "sint (of_int c * x) = c * sint x" if x: "x \<in> set f" for x
  proof -
    obtain k where k: "k < 10" "x = f ! k"
      using x assms(1) by (auto simp: in_set_conv_nth dominates_def)
    then have "c * \<bar>sint x\<bar> \<le> c * m ! k" "c * m ! k < 2 ^ 31"
      using assms by (auto simp: dominates_def list_all_length intro: mult_left_mono)
    then have "\<bar>c * sint x\<bar> < 2 ^ 31"
      using assms(3) by (simp add: abs_mult)
    then have "in_word 32 (c * sint x, c * sint x)"
      by (auto simp: in_word_def abs_less_iff)
    then have "sint (of_int (c * sint x) :: int32) = c * sint x"
      by (intro sint_of_int_word) simp
    moreover have "of_int c * x = of_int (c * sint x)"
      by simp
    ultimately show ?thesis
      by (simp only:)
  qed
  then show ?thesis
    unfolding map_map comp_def scast_of_int by (intro map_cong refl) (simp only:)
qed

lemma scaled_digits_numeral:
  "dominates m (map sint f) \<Longrightarrow> list_all (\<lambda>x. numeral c * x < 2 ^ 31) m \<Longrightarrow>
   map (\<lambda>x. scast (numeral c * x) :: uint64) f = map of_int (map ((*) (numeral c)) (map sint (f :: FieldElement)))"
  by (rule scaled_digits [of m f "numeral c", unfolded of_int_numeral, OF _ _ zero_le_numeral])

lemma scast_digits: "map (scast :: int32 \<Rightarrow> uint64) f = map of_int (map sint f)"
  by (simp add: signed_scast_eq)

text \<open>The arithmetic on field elements, with the bounds the comments of the code require and promise.\<close>

lemma FeMul_correct:
  assumes "fe_ok 330 f" "fe_ok 330 g"
  shows "fe_ok 101 (FeMul f g) \<and> fe_value (FeMul f g) mod fe_prime = fe_value f * fe_value g mod fe_prime"
proof -
  let ?f = "map sint f" and ?g = "map sint g"
  let ?h = "fe_products ?f (map ((*) 2) ?f) ?g (map ((*) 19) ?g)"
  note f = assms(1) [unfolded fe_ok_dominated] and g = assms(2) [unfolded fe_ok_dominated]
  have l: "length f = 10" "length g = 10"
    using assms by (simp_all add: fe_ok_iff)
  have "list_all (\<lambda>x. 2 * x < 2 ^ 31) (fe_maxima 330)" "list_all (\<lambda>x. 19 * x < 2 ^ 31) (fe_maxima 330)"
    by code_simp+
  from scaled_digits_numeral [OF f this(1)] scaled_digits_numeral [OF g this(2)]
  have h: "FeMul f g = FeCombine (map of_int ?h)"
    using l unfolding FeMul_def scast_digits by (simp only: fe_products_of_int length_map)
  have "list_all (\<lambda>c. c \<le> 2 ^ 62)
      (fe_products (fe_maxima 330) (map ((*) 2) (fe_maxima 330)) (fe_maxima 330) (map ((*) 19) (fe_maxima 330)))"
    by code_simp
  then have "bounded ?h fe_wide"
    by (rule dominated_wide [OF fe_products_dominated [OF f dominates_scale [OF zero_le_numeral f] g
          dominates_scale [OF zero_le_numeral g]]])
  from FeCombine_correct [OF this] show ?thesis
    using l by (simp only: h fe_products_residue length_map fe_value_def [of f] fe_value_def [of g])
qed

lemma feSquare_digits:
  assumes "fe_ok m f" "list_all (\<lambda>x. 2 * x < 2 ^ 31) (fe_maxima m)"
  defines "h \<equiv> fe_squares (map sint f) (map ((*) 2) (map sint f))"
  shows "feSquare f = map of_int h"
    and "dominates (fe_squares (fe_maxima m) (map ((*) 2) (fe_maxima m))) h"
    and "represents fe_weight h mod fe_prime = fe_value f * fe_value f mod fe_prime"
proof -
  note f = assms(1) [unfolded fe_ok_dominated]
  have l: "length f = 10"
    using assms by (simp add: fe_ok_iff)
  from scaled_digits_numeral [OF f assms(2)] show "feSquare f = map of_int h"
    using l unfolding feSquare_def scast_digits h_def by (simp only: fe_squares_of_int length_map)
  show "dominates (fe_squares (fe_maxima m) (map ((*) 2) (fe_maxima m))) h"
    unfolding h_def by (rule fe_squares_dominated [OF f dominates_scale [OF zero_le_numeral f]])
  show "represents fe_weight h mod fe_prime = fe_value f * fe_value f mod fe_prime"
    unfolding h_def fe_value_def using l by (subst fe_squares_products) (simp_all only: length_map fe_products_residue)
qed

lemma FeSquare_correct:
  assumes "fe_ok 330 f"
  shows "fe_ok 101 (FeSquare f) \<and> fe_value (FeSquare f) mod fe_prime = fe_value f * fe_value f mod fe_prime"
proof -
  have "list_all (\<lambda>x. 2 * x < 2 ^ 31) (fe_maxima 330)"
    "list_all (\<lambda>c. c \<le> 2 ^ 62) (fe_squares (fe_maxima 330) (map ((*) 2) (fe_maxima 330)))"
    by code_simp+
  note h = feSquare_digits [OF assms this(1)] dominated_wide [OF feSquare_digits(2) [OF assms this(1)] this(2)]
  from FeCombine_correct [OF h(4)] show ?thesis
    by (simp only: FeSquare_def h(1,3))
qed

lemma represents_double: "represents w (map (\<lambda>x. x + x) s) = 2 * represents w s"
proof -
  have "represents_from w k (map (\<lambda>x. x + x) s) = 2 * represents_from w k s" for k
    by (induction s arbitrary: k) (simp_all add: algebra_simps)
  then show ?thesis by (simp add: represents_def)
qed

lemma FeSquare2_correct:
  assumes "fe_ok 330 f"
  shows "fe_ok 101 (FeSquare2 f) \<and> fe_value (FeSquare2 f) mod fe_prime = 2 * (fe_value f * fe_value f) mod fe_prime"
proof -
  let ?h = "fe_squares (map sint f) (map ((*) 2) (map sint f))"
  have "list_all (\<lambda>x. 2 * x < 2 ^ 31) (fe_maxima 330)"
    and w: "list_all (\<lambda>c. c \<le> 2 ^ 62) (map ((*) 2) (fe_squares (fe_maxima 330) (map ((*) 2) (fe_maxima 330))))"
    by code_simp+
  note h = feSquare_digits [OF assms this(1)]
  have d: "map (\<lambda>x. x + x) ?h = map ((*) 2) ?h"
    by simp
  have "bounded (map (\<lambda>x. x + x) ?h) fe_wide"
    unfolding d by (rule dominated_wide [OF dominates_scale [OF zero_le_numeral h(2)] w])
  moreover have "FeSquare2 f = FeCombine (map of_int (map (\<lambda>x. x + x) ?h))"
    by (simp only: FeSquare2_def h(1) map_map comp_def of_int_add)
  ultimately show ?thesis
    using FeCombine_correct [of "map (\<lambda>x. x + x) ?h"] h(3)
    by (simp only: represents_double) (metis mod_mult_right_eq)
qed

lemma fe_digits: "fe_ok m f \<Longrightarrow> map sint f = map (\<lambda>k. sint (f ! k)) [0..<10]"
  by (rule nth_equalityI) (simp_all add: fe_ok_length)

lemma represents_add: "represents w (map (\<lambda>k. u k + v k) ks) = represents w (map u ks) + represents w (map v ks)"
proof -
  have "represents_from w j (map (\<lambda>k. u k + v k) ks) = represents_from w j (map u ks) + represents_from w j (map v ks)" for j
    by (induction ks arbitrary: j) (simp_all add: algebra_simps)
  then show ?thesis by (simp add: represents_def)
qed

lemma represents_uminus: "represents w (map (\<lambda>k. - u k) ks) = - represents w (map u ks)"
proof -
  have "represents_from w j (map (\<lambda>k. - u k) ks) = - represents_from w j (map u ks)" for j
    by (induction ks arbitrary: j) simp_all
  then show ?thesis by (simp add: represents_def)
qed

text \<open>A digit-wise operation: if it is exact on digits within bounds, it is exact on the number.\<close>

lemma digitwise:
  fixes f :: "nat \<Rightarrow> int32"
  assumes "\<And>k. k < 10 \<Longrightarrow> f k = of_int (z k)" "\<And>k. k < 10 \<Longrightarrow> \<bar>z k\<bar> \<le> fe_max m k" "m < 1000"
  shows "fe_ok m (map f [0..<10])" "fe_value (map f [0..<10]) = represents fe_weight (map z [0..<10])"
proof -
  have "sint (f k) = z k" if "k < 10" for k
  proof -
    have "m * 2 ^ (if even k then 25 else 24) div 100 < 2 ^ 31"
      using assms(3) by auto
    then have "in_word LENGTH(32) (z k, z k)"
      using assms(2) [OF that] by (auto simp: in_word_def fe_max_def abs_le_iff)
    then show ?thesis
      by (simp only: assms(1) [OF that] sint_of_int_word)
  qed
  then show "fe_ok m (map f [0..<10])" "fe_value (map f [0..<10]) = represents fe_weight (map z [0..<10])"
    using assms(2) by (auto simp: fe_ok_iff fe_value_def comp_def intro: arg_cong [where f = "represents fe_weight"])
qed

lemma fe_max_add: "fe_max m k + fe_max n k \<le> fe_max (m + n) k"
  unfolding fe_max_def distrib_right by (subst div_add1_eq) (simp add: pos_imp_zdiv_nonneg_iff)

lemma FeAdd_correct:
  assumes "fe_ok m a" "fe_ok n b" "m + n < 1000"
  shows "fe_ok (m + n) (FeAdd a b)" "fe_value (FeAdd a b) = fe_value a + fe_value b"
proof -
  have "\<bar>sint (a ! k) + sint (b ! k)\<bar> \<le> fe_max (m + n) k" if "k < 10" for k
    using assms(1,2) that by (intro order_trans [OF abs_sum_le fe_max_add]) (simp_all add: fe_ok_iff)
  then show "fe_ok (m + n) (FeAdd a b)" "fe_value (FeAdd a b) = fe_value a + fe_value b"
    using digitwise [of "\<lambda>k. a ! k + b ! k" "\<lambda>k. sint (a ! k) + sint (b ! k)" "m + n"] assms(3)
    by (simp_all add: FeAdd_def represents_add fe_value_def [of a] fe_value_def [of b]
        fe_digits [OF assms(1)] fe_digits [OF assms(2)])
qed

lemma FeSub_correct:
  assumes "fe_ok m a" "fe_ok n b" "m + n < 1000"
  shows "fe_ok (m + n) (FeSub a b)" "fe_value (FeSub a b) = fe_value a - fe_value b"
proof -
  have "\<bar>sint (a ! k) + - sint (b ! k)\<bar> \<le> fe_max (m + n) k" if "k < 10" for k
    using assms(1,2) that by (intro order_trans [OF abs_sum_le fe_max_add]) (simp_all add: fe_ok_iff)
  then show "fe_ok (m + n) (FeSub a b)" "fe_value (FeSub a b) = fe_value a - fe_value b"
    using digitwise [of "\<lambda>k. a ! k - b ! k" "\<lambda>k. sint (a ! k) + - sint (b ! k)" "m + n"] assms(3)
    by (simp_all add: FeSub_def represents_add represents_uminus fe_value_def [of a] fe_value_def [of b]
        fe_digits [OF assms(1)] fe_digits [OF assms(2)] del: add_uminus_conv_diff)
qed

lemma FeNeg_correct:
  assumes "fe_ok m f" "m < 1000"
  shows "fe_ok m (FeNeg f) \<and> fe_value (FeNeg f) = - fe_value f"
  using digitwise [of "\<lambda>k. - (f ! k)" "\<lambda>k. - sint (f ! k)" m] assms
  by (simp add: FeNeg_def represents_uminus fe_value_def [of f] fe_digits [OF assms(1)]) (simp add: fe_ok_iff)

section \<open>Reading\<close>

lemma take_bit_split: "take_bit (a + b) v = take_bit a v + 2 ^ a * take_bit b (drop_bit a (v :: int))"
  using bits_ident [of a "take_bit (a + b) v"] by (simp add: drop_bit_take_bit push_bit_eq_mult mult.commute)

lemma push_bit_of_int_word: "push_bit k (of_int x :: 'a::len word) = of_int (2 ^ k * x)"
  by (simp add: push_bit_eq_mult)

definition fe_windows :: "int \<Rightarrow> int list" where
  "fe_windows v =
     [take_bit 32 v, 2 ^ 6 * take_bit 24 (drop_bit 32 v), 2 ^ 5 * take_bit 24 (drop_bit 56 v),
      2 ^ 3 * take_bit 24 (drop_bit 80 v), 2 ^ 2 * take_bit 24 (drop_bit 104 v), take_bit 32 (drop_bit 128 v),
      2 ^ 7 * take_bit 24 (drop_bit 160 v), 2 ^ 5 * take_bit 24 (drop_bit 184 v),
      2 ^ 4 * take_bit 24 (drop_bit 208 v), 2 ^ 2 * take_bit 23 (drop_bit 232 v)]"

lemma top_window_masked: "(of_int (take_bit 24 x) :: uint64) AND 8388607 = of_int (take_bit 23 x)"
proof -
  have "(of_int (take_bit 24 x) :: uint64) AND 8388607 = take_bit 23 (of_int (take_bit 24 x))"
    by (simp add: take_bit_eq_mask mask_eq_exp_minus_1)
  then show ?thesis
    by (simp add: take_bit_of_int)
qed

lemma FeFromBytes_windows: "length src = 32 \<Longrightarrow> FeFromBytes src = FeCombine (map of_int (fe_windows (le_value src)))"
  using load4_window [of 0 src]
  by (simp add: FeFromBytes_def fe_windows_def load3_window load4_window push_bit_of_int_word top_window_masked
      del: of_int_mult of_int_power)

lemma represents_windows: "represents fe_weight (fe_windows v) = take_bit 255 v"
proof -
  have "take_bit 255 v = take_bit 32 v + 2 ^ 32 * take_bit 24 (drop_bit 32 v) + 2 ^ 56 * take_bit 24 (drop_bit 56 v)
      + 2 ^ 80 * take_bit 24 (drop_bit 80 v) + 2 ^ 104 * take_bit 24 (drop_bit 104 v)
      + 2 ^ 128 * take_bit 32 (drop_bit 128 v) + 2 ^ 160 * take_bit 24 (drop_bit 160 v)
      + 2 ^ 184 * take_bit 24 (drop_bit 184 v) + 2 ^ 208 * take_bit 24 (drop_bit 208 v)
      + 2 ^ 232 * take_bit 23 (drop_bit 232 v)"
    using take_bit_split [of 32 24 v] take_bit_split [of 56 24 v] take_bit_split [of 80 24 v]
      take_bit_split [of 104 24 v] take_bit_split [of 128 32 v] take_bit_split [of 160 24 v]
      take_bit_split [of 184 24 v] take_bit_split [of 208 24 v] take_bit_split [of 232 23 v]
    by simp
  then show ?thesis
    by (simp add: fe_windows_def represents_def fe_weight_def mult.commute)
qed

lemma windows_wide: "bounded (fe_windows v) fe_wide"
proof -
  have w: "within (2 ^ j * take_bit k x) (- (2 ^ 62), 2 ^ 62)" if "j + k \<le> 62" for j k and x :: int
  proof -
    have "2 ^ j * take_bit k x \<le> 2 ^ j * 2 ^ k"
      by (intro mult_left_mono) (simp_all add: less_imp_le)
    also have "\<dots> \<le> (2 :: int) ^ 62"
      unfolding power_add [symmetric] using that by (intro power_increasing) simp_all
    finally show ?thesis
      by (simp add: within_def order_trans [of _ 0])
  qed
  show ?thesis
    using w [of 0 32] w [of 6 24] w [of 5 24] w [of 3 24] w [of 2 24] w [of 7 24] w [of 4 24] w [of 2 23]
    by (simp add: fe_windows_def fe_wide_def eval_nat_numeral)
qed

lemma FeFromBytes_correct:
  assumes "length src = 32"
  shows "fe_ok 101 (FeFromBytes src) \<and> fe_value (FeFromBytes src) mod fe_prime = take_bit 255 (le_value src) mod fe_prime"
  using FeCombine_correct [OF windows_wide] by (simp add: FeFromBytes_windows [OF assms] represents_windows)

section \<open>Writing\<close>

lemma quotient_step:
  assumes "\<bar>sint h\<bar> \<le> 536870912" "\<bar>q\<bar> \<le> 536870912" "w = 25 \<or> w = 26"
  shows "signed_drop_bit w (h + of_int q :: int32) = of_int ((sint h + q) div 2 ^ w)"
    "\<bar>(sint h + q) div 2 ^ w\<bar> \<le> 536870912"
proof -
  have "in_word LENGTH(32) (sint h + q, sint h + q)"
    using assms(1,2) by (auto simp: in_word_def abs_le_iff)
  moreover have "h + of_int q = of_int (sint h + q)"
    by simp
  ultimately show "signed_drop_bit w (h + of_int q :: int32) = of_int ((sint h + q) div 2 ^ w)"
    by (simp only: signed_drop_bit_of_int)
  show "\<bar>(sint h + q) div 2 ^ w\<bar> \<le> 536870912"
    using assms by (elim disjE) auto
qed

lemma quotient_chain:
  assumes "\<And>k w. (k, w) \<in> set ks \<Longrightarrow> \<bar>sint (h ! k)\<bar> \<le> 536870912 \<and> (w = 25 \<or> w = 26)" "\<bar>q\<bar> \<le> 536870912"
  shows "fold (\<lambda>(k, w) q. signed_drop_bit w (h ! k + q)) ks (of_int q :: int32)
         = of_int (fold (\<lambda>(k, w) q. (sint (h ! k) + q) div 2 ^ w) ks q)"
  using assms
proof (induction ks arbitrary: q)
  case (Cons p ks)
  obtain k w where p: "p = (k, w)" by fastforce
  have "\<bar>sint (h ! k)\<bar> \<le> 536870912" "w = 25 \<or> w = 26"
    using Cons.prems(1) [of k w] by (simp_all add: p)
  note step = quotient_step [OF this(1) Cons.prems(2) this(2)]
  have "\<bar>sint (h ! k')\<bar> \<le> 536870912 \<and> (w' = 25 \<or> w' = 26)" if "(k', w') \<in> set ks" for k' w'
    using Cons.prems(1) [of k' w'] that by simp
  from Cons.IH [OF this step(2)] show ?case
    by (simp add: p step(1))
qed simp

lemma nested_quotient: "(z + x div 2 ^ w) div 2 ^ v = (x + 2 ^ w * z) div (2 :: int) ^ (w + v)"
proof -
  have "(x + 2 ^ w * z) div 2 ^ (w + v) = (x + 2 ^ w * z) div 2 ^ w div 2 ^ v"
    unfolding power_add by (rule zdiv_zmult2_eq) simp
  then show ?thesis by (simp add: add.commute)
qed

lemma fe_value_digits:
  "fe_ok m h \<Longrightarrow> map sint h = [sint (h ! 0), sint (h ! 1), sint (h ! 2), sint (h ! 3), sint (h ! 4), sint (h ! 5),
     sint (h ! 6), sint (h ! 7), sint (h ! 8), sint (h ! 9)]"
  unfolding fe_digits by (simp add: upt_rec eval_nat_numeral)

lemma fe_quotient_value:
  assumes "fe_ok 220 h"
  shows "fe_quotient h = of_int ((fe_value h + (19 * sint (h ! 9) + 2 ^ 24) div 2 ^ 25) div 2 ^ 255)"
proof -
  define q where "q = (19 * sint (h ! 9) + 2 ^ 24) div 2 ^ 25"
  have b: "\<bar>sint (h ! k)\<bar> \<le> 73819750" if "k < 10" for k
    using assms that by (fastforce simp: fe_ok_iff fe_max_def split: if_splits)
  have b9: "\<bar>sint (h ! 9)\<bar> \<le> 36909875"
    using assms unfolding fe_ok_iff by (auto simp: fe_max_def dest!: conjunct2 spec [of _ 9])
  have "in_word LENGTH(32) (19 * sint (h ! 9) + 2 ^ 24, 19 * sint (h ! 9) + 2 ^ 24)"
    using b9 by (auto simp: in_word_def)
  then have q: "signed_drop_bit 25 (19 * h ! 9 + 16777216) = of_int q" and "\<bar>q\<bar> \<le> 536870912"
    using signed_drop_bit_of_int [where 'a = 32, of "19 * sint (h ! 9) + 2 ^ 24" 25] b9
    by (auto simp: q_def)
  let ?ks = "[(0, 26), (1, 25), (2, 26), (3, 25), (4, 26), (5, 25), (6, 26), (7, 25), (8, 26), (9, 25)]"
  have "fe_quotient h = of_int (fold (\<lambda>(k, w) q. (sint (h ! k) + q) div 2 ^ w) ?ks q)"
    unfolding fe_quotient_def q
    by (rule quotient_chain) (use b \<open>\<bar>q\<bar> \<le> 536870912\<close> in \<open>auto intro: order_trans [OF b]\<close>)
  also have "fold (\<lambda>(k, w) q. (sint (h ! k) + q) div 2 ^ w) ?ks q = (fe_value h + q) div 2 ^ 255"
    unfolding fold_simps prod.case nested_quotient
    by (simp add: fe_value_def fe_value_digits [OF assms] represents_def fe_weight_def algebra_simps)
  finally show ?thesis
    by (simp add: q_def)
qed

definition fe_shifted :: "ivl list" where
  "fe_shifted = (fe_bound 220)[0 := (- 73819850, 73819850)]"

definition fe_reduced :: "ivl list" where
  "fe_reduced = concat (replicate 5 [(0, 2 ^ 26 - 1), (0, 2 ^ 25 - 1)])"

interpretation normalise: limb_routine "TYPE(32)" fe_weight "2 ^ 255" fe_normalise fe_shifted fe_reduced
  by unfold_locales (simp_all, code_simp+)

lemma fe_weight_nonneg: "0 \<le> fe_weight k"
  by (simp add: fe_weight_def)

lemma represents_reduced: "bounded t fe_reduced \<Longrightarrow> 0 \<le> represents fe_weight t \<and> represents fe_weight t < 2 ^ 255"
proof -
  assume "bounded t fe_reduced"
  moreover have "represents fe_weight (map fst fe_reduced) = 0" "represents fe_weight (map snd fe_reduced) = 2 ^ 255 - 1"
    by code_simp+
  ultimately show ?thesis
    using represents_within [of t fe_reduced fe_weight] fe_weight_nonneg by (simp add: within_def)
qed

text \<open>
  The estimate of the quotient by the prime is exact. The comment of the code argues for elements
  of at most the prime in absolute value; the argument holds for twice the digit bounds, which the
  tests of a decoded point need.
\<close>

lemma quotient_estimate:
  fixes v q r h9 low e :: int
  assumes "v = fe_prime * q + r" "0 \<le> r" "r < fe_prime" "v = h9 * 2 ^ 230 + low" "\<bar>low\<bar> \<le> 2 ^ 240" "\<bar>q\<bar> \<le> 2 ^ 240"
    and "e = (19 * h9 + 2 ^ 24) div 2 ^ 25"
  shows "(v + e) div 2 ^ 255 = q"
proof -
  have "2 ^ 25 * e \<le> 19 * h9 + 2 ^ 24" "19 * h9 + 2 ^ 24 < 2 ^ 25 * e + 2 ^ 25"
    using assms(7) by (simp_all add: div_mult_mod_eq [of "19 * h9 + 2 ^ 24" "2 ^ 25", symmetric])
  then have "0 \<le> e - 19 * q" "e - 19 * q \<le> 19"
    using assms(1-6) unfolding fe_prime_def by (simp_all add: abs_le_iff)
  then have "(r + (e - 19 * q)) div 2 ^ 255 = 0"
    using assms(2,3) unfolding fe_prime_def by (intro div_pos_pos_trivial) simp_all
  moreover have "v + e = r + (e - 19 * q) + 2 ^ 255 * q"
    using assms(1) unfolding fe_prime_def by (simp add: algebra_simps)
  ultimately show ?thesis
    by simp
qed

lemma fe_quotient_exact:
  assumes "fe_ok 220 h"
  defines "q \<equiv> (fe_value h + (19 * sint (h ! 9) + 2 ^ 24) div 2 ^ 25) div 2 ^ 255"
  shows "\<bar>q\<bar> \<le> 2" "fe_value h - q * fe_prime = fe_value h mod fe_prime"
proof -
  let ?b = "(fe_bound 220)[9 := (sint (h ! 9), sint (h ! 9))]"
  have b9: "\<bar>sint (h ! 9)\<bar> \<le> 36909875"
    using assms unfolding fe_ok_iff by (auto simp: fe_max_def dest!: conjunct2 spec [of _ 9])
  have "bounded (map sint h) ?b"
    using bounded_pin [OF assms(1) [unfolded fe_ok_def], of 9] fe_ok_length [OF assms(1)] by (simp add: fe_bound_def)
  then have "within (fe_value h) (represents fe_weight (map fst ?b), represents fe_weight (map snd ?b))"
    unfolding fe_value_def by (rule represents_within) (rule fe_weight_nonneg)
  then have low: "\<bar>fe_value h - sint (h ! 9) * 2 ^ 230\<bar> \<le> 2 ^ 240"
    by (simp add: within_def fe_bound_def fe_max_def upt_rec represents_def fe_weight_def abs_le_iff)
  then have v: "- (2 * fe_prime) \<le> fe_value h" "fe_value h < 2 * fe_prime"
    using b9 by (auto simp: abs_le_iff fe_prime_def)
  have "fe_value h div fe_prime < 2"
    using v(2) by (simp add: div_less_iff_less_mult fe_prime_def)
  moreover have "- 2 \<le> fe_value h div fe_prime"
    using v(1) zdiv_mono1 [of "- (2 * fe_prime)" "fe_value h" fe_prime] by (simp add: fe_prime_def)
  ultimately have d: "\<bar>fe_value h div fe_prime\<bar> \<le> 2"
    by simp
  then have q: "q = fe_value h div fe_prime"
    unfolding q_def
    by (intro quotient_estimate [where r = "fe_value h mod fe_prime", OF _ _ _ _ low _ refl])
      (simp_all add: fe_prime_def)
  show "\<bar>q\<bar> \<le> 2" "fe_value h - q * fe_prime = fe_value h mod fe_prime"
    using d by (simp_all add: q minus_div_mult_eq_mod)
qed

lemma fe_reduced_eq:
  "fe_reduced = [(0, 67108863), (0, 33554431), (0, 67108863), (0, 33554431), (0, 67108863), (0, 33554431),
     (0, 67108863), (0, 33554431), (0, 67108863), (0, 33554431)]"
  by code_simp

lemma fe_pack_bytes:
  assumes "bounded [t0, t1, t2, t3, t4, t5, t6, t7, t8, t9] fe_reduced"
  shows "fe_pack (map of_int [t0, t1, t2, t3, t4, t5, t6, t7, t8, t9])
         = le_bytes 32 (represents fe_weight [t0, t1, t2, t3, t4, t5, t6, t7, t8, t9])"
proof -
  note r = assms [unfolded fe_reduced_eq list_all2_Cons within_def, simplified]
  have top: "(of_int (drop_bit n (join 26 t8 t9)) :: byte)
      = ucast (signed_drop_bit n (of_int t8 :: int32) OR push_bit (26 - n) (of_int t9 :: int32))"
    if "18 < n" "n < 26" for n
    using pack_split [where 'a = 32, of t8 26 n 0 t9] r that by simp
  have last: "(of_int (drop_bit n t9) :: byte) = ucast (signed_drop_bit n (of_int t9 :: int32))" if "n \<le> 24" for n
    using that by (intro pack_last) simp
  have "represents fe_weight [t0, t1, t2, t3, t4, t5, t6, t7, t8, t9]
      = join 26 t0 (join 25 t1 (join 26 t2 (join 25 t3 (join 26 t4 (join 25 t5 (join 26 t6 (join 25 t7 (join 26 t8 t9))))))))"
    by (simp add: represents_def fe_weight_def join_def)
  then show ?thesis
    unfolding le_bytes_32 fe_pack_def
    using r by (simp add: skip_digit packs [where 'a = 32] top last)
qed

lemma FeToBytes_correct:
  assumes "fe_ok 220 h"
  shows "length (fst (FeToBytes h)) = 32 \<and> le_value (fst (FeToBytes h)) = fe_value h mod fe_prime
    \<and> fe_ok 200 (snd (FeToBytes h)) \<and> fe_value (snd (FeToBytes h)) = fe_value h mod fe_prime"
proof -
  define q where "q = (fe_value h + (19 * sint (h ! 9) + 2 ^ 24) div 2 ^ 25) div 2 ^ 255"
  note q = fe_quotient_exact [OF assms, folded q_def]
  define z where "z = (map sint h)[0 := sint (h ! 0) + 19 * q]"
  have l: "length h = 10" by (rule fe_ok_length [OF assms])
  have hz: "h[0 := h ! 0 + 19 * fe_quotient h] = map of_int z"
    using l by (simp add: z_def fe_quotient_value [OF assms, folded q_def] map_update comp_def)
  have "\<bar>sint (h ! 0)\<bar> \<le> 73819750"
    using assms unfolding fe_ok_iff by (auto simp: fe_max_def dest!: conjunct2 spec [of _ 0])
  then have "within (sint (h ! 0) + 19 * q) (- 73819850, 73819850)"
    using q(1) by (auto simp: within_def)
  then have z: "bounded z fe_shifted"
    using assms by (simp add: z_def fe_shifted_def fe_ok_def list_all2_update_cong)
  let ?t = "runZ fe_normalise z"
  note t = normalise.outputs_bounded [OF z]
  have "represents fe_weight z = fe_value h + 19 * q"
    using l by (simp add: z_def represents_update fe_value_def fe_weight_def)
  also have "\<dots> = fe_value h mod fe_prime + q * 2 ^ 255"
    using q(2) by (simp add: fe_prime_def algebra_simps)
  finally have "represents fe_weight ?t = (fe_value h mod fe_prime) mod 2 ^ 255"
    using normalise.residue_kept [OF z] represents_reduced [OF t] by simp
  moreover have m: "0 \<le> fe_value h mod fe_prime" "fe_value h mod fe_prime < 2 ^ 255"
    using pos_mod_bound [of fe_prime "fe_value h"] by (simp_all add: fe_prime_def)
  ultimately have tv: "represents fe_weight ?t = fe_value h mod fe_prime"
    by simp
  have "length ?t = 10"
    using list_all2_lengthD [OF t] by (simp add: fe_reduced_eq)
  from length_10D [OF this] obtain t0 t1 t2 t3 t4 t5 t6 t7 t8 t9
    where tt: "?t = [t0, t1, t2, t3, t4, t5, t6, t7, t8, t9]" by blast
  have p: "fe_pack (map of_int ?t) = le_bytes 32 (fe_value h mod fe_prime)"
    using fe_pack_bytes t unfolding tv [symmetric] tt by blast
  have "in_word LENGTH(32) (x, x)" if "x \<in> set ?t" for x
    using t that by (auto simp: tt fe_reduced_eq within_def in_word_def)
  then have s: "map sint (map of_int ?t :: int32 list) = ?t"
    unfolding map_map comp_def by (intro map_idI) (rule sint_of_int_word)
  have "list_all2 (\<lambda>x y. fst y \<le> fst x \<and> snd x \<le> snd y) fe_reduced (fe_bound 200)"
    by code_simp
  with t have "fe_ok 200 (map of_int ?t)"
    unfolding fe_ok_def s by (rule bounded_weaken)
  with s show ?thesis
    using p m by (simp add: FeToBytes_def hz normalise.words_are_integers [OF z] le_value_le_bytes fe_value_def tv)
      (simp add: le_bytes_def)
qed

section \<open>Powers\<close>

text \<open>
  The interface of the exponentiation routines: a multiplication and a squaring that are right
  modulo \<open>p\<close> on good representations.
\<close>

locale modular_multiplication =
  fixes val :: "'e \<Rightarrow> int"
    and p :: int
    and good :: "'e \<Rightarrow> bool"
    and mult :: "'e \<Rightarrow> 'e \<Rightarrow> 'e"
    and square :: "'e \<Rightarrow> 'e"
  assumes mult_good: "good a \<Longrightarrow> good b \<Longrightarrow> good (mult a b)"
    and mult_val: "good a \<Longrightarrow> good b \<Longrightarrow> val (mult a b) mod p = val a * val b mod p"
    and square_mult: "good a \<Longrightarrow> good (square a) \<and> val (square a) mod p = val a * val a mod p"
begin

lemma mult_power:
  assumes "good a" "val a mod p = x ^ d mod p" "good b" "val b mod p = x ^ e mod p"
  shows "good (mult a b) \<and> val (mult a b) mod p = x ^ (d + e) mod p"
proof -
  have "val a * val b mod p = x ^ d * x ^ e mod p"
    using assms(2,4) by (rule mod_mult_cong)
  then show ?thesis
    using mult_good mult_val assms by (simp add: power_add)
qed

lemma square_power:
  assumes "good a" "val a mod p = x ^ d mod p"
  shows "good ((square ^^ n) a) \<and> val ((square ^^ n) a) mod p = x ^ (2 ^ n * d) mod p"
proof (induction n)
  case (Suc n)
  let ?b = "(square ^^ n) a"
  have "val ?b * val ?b mod p = x ^ (2 ^ n * d) * x ^ (2 ^ n * d) mod p"
    using Suc by (intro mod_mult_cong) simp_all
  then show ?case
    using Suc square_mult [of ?b] by (simp add: power_add [symmetric] mult_2 add_mult_distrib)
qed (use assms in simp)

end

lemma fe_max_mono: "m \<le> n \<Longrightarrow> fe_max m k \<le> fe_max n k"
  by (auto simp: fe_max_def intro!: zdiv_mono1)

lemma fe_ok_mono: "fe_ok m f \<Longrightarrow> m \<le> n \<Longrightarrow> fe_ok n f"
  using fe_max_mono order_trans by (fastforce simp: fe_ok_iff)

interpretation fe: modular_multiplication fe_value fe_prime "fe_ok 330" FeMul FeSquare
  by unfold_locales (use FeMul_correct FeSquare_correct fe_ok_mono [of 101 _ 330] in auto)

definition fe_power :: "int \<Rightarrow> nat \<Rightarrow> FieldElement \<Rightarrow> bool" where
  "fe_power x e a \<longleftrightarrow> fe_ok 330 a \<and> fe_value a mod fe_prime = x ^ e mod fe_prime"

definition fe_computes :: "int \<Rightarrow> nat \<Rightarrow> FieldElement \<Rightarrow> bool" where
  "fe_computes x e a \<longleftrightarrow> fe_ok 101 a \<and> fe_value a mod fe_prime = x ^ e mod fe_prime"

lemma let_mult:
  assumes "fe_power x d a" "fe_power x e b" "\<And>t. fe_power x (d + e) t \<Longrightarrow> fe_computes x n (f t)"
  shows "fe_computes x n (let t = FeMul a b in f t)"
  using assms fe.mult_power by (simp add: fe_power_def)

lemma let_squarings:
  assumes "fe_power x d a" "\<And>t. fe_power x (2 ^ m * d) t \<Longrightarrow> fe_computes x n (f t)"
  shows "fe_computes x n (let t = squarings m a in f t)"
  using assms fe.square_power by (simp add: fe_power_def squarings_def)

lemma computes_mult: "fe_power x d a \<Longrightarrow> fe_power x e b \<Longrightarrow> d + e = n \<Longrightarrow> fe_computes x n (FeMul a b)"
  using FeMul_correct fe.mult_power by (auto simp: fe_power_def fe_computes_def)

lemma FeInvert_computes: "fe_power x 1 z \<Longrightarrow> fe_computes x (2 ^ 255 - 21) (FeInvert z)"
  unfolding FeInvert_def
  by ((rule let_squarings, assumption) | (rule let_mult, assumption, assumption))+
    (rule computes_mult, assumption, assumption, simp)

lemma fePow22523_computes: "fe_power x 1 z \<Longrightarrow> fe_computes x (2 ^ 252 - 3) (fePow22523 z)"
  unfolding fePow22523_def
  by ((rule let_squarings, assumption) | (rule let_mult, assumption, assumption))+
    (rule computes_mult, assumption, assumption, simp)

section \<open>Tests and selection\<close>

lemma first_byte_parity:
  assumes "length s = 32"
  shows "s ! 0 AND 1 = (if odd (le_value s) then 1 else 0)"
proof -
  have "bit (le_value s) 0 \<longleftrightarrow> bit (s ! 0) 0"
    using bit_le_value [of s 0] assms by simp
  then show ?thesis
    by (simp add: bit_0 even_iff_mod_2_eq_zero and_one_eq odd_iff_mod_2_eq_one)
qed

lemma FeIsNegative_parity:
  "fe_ok 220 f \<Longrightarrow> FeIsNegative f = (if odd (fe_value f mod fe_prime) then 1 else 0, snd (FeToBytes f))"
  using FeToBytes_correct [of f] first_byte_parity [of "fst (FeToBytes f)"]
  by (simp add: FeIsNegative_def case_prod_beta)

lemma fold_or_eq_0: "fold (\<lambda>b x. x OR b) s (x :: byte) = 0 \<longleftrightarrow> x = 0 \<and> (\<forall>b\<in>set s. b = 0)"
  by (induction s arbitrary: x) (auto simp: or_eq_0_iff)

lemma le_value_eq_0: "le_value s = 0 \<longleftrightarrow> (\<forall>b\<in>set s. b = 0)"
  by (induction s) (auto simp: add_nonneg_eq_0_iff uint_0_iff)

lemma smeared_bit:
  fixes x :: byte
  defines "y \<equiv> x OR drop_bit 4 x"
  defines "z \<equiv> y OR drop_bit 2 y"
  shows "(z OR drop_bit 1 z) AND 1 = (if x = 0 then 0 else 1)"
proof -
  have "bit (z OR drop_bit 1 z) 0 \<longleftrightarrow> (\<exists>n<8. bit x n)"
    by (simp add: y_def z_def bit_simps less_Suc_eq numeral_eq_Suc) blast
  also have "\<dots> \<longleftrightarrow> x \<noteq> 0"
    by (auto simp: bit_eq_iff [of x 0] dest: bit_imp_le_length)
  finally show ?thesis
    by (auto simp: and_one_eq bit_0 odd_iff_mod_2_eq_one even_iff_mod_2_eq_zero)
qed

lemma FeIsNonZero_residue:
  "fe_ok 220 f \<Longrightarrow> FeIsNonZero f = (if fe_value f mod fe_prime = 0 then 0 else 1, snd (FeToBytes f))"
  using FeToBytes_correct [of f] le_value_eq_0 [of "fst (FeToBytes f)"] fold_or_eq_0 [of "fst (FeToBytes f)" 0]
  unfolding FeIsNonZero_def Let_def case_prod_beta smeared_bit by auto

lemma FeCMove_selects:
  assumes "length f = 10" "length g = 10"
  shows "FeCMove f g 0 = f" "FeCMove f g 1 = g"
proof -
  have x: "x XOR (- 1 AND (x XOR y)) = y" for x y :: int32
    by (simp add: xor.assoc [symmetric])
  show "FeCMove f g 0 = f" "FeCMove f g 1 = g"
    unfolding FeCMove_def using assms by (auto intro!: nth_equalityI simp: x)
qed

section \<open>The constants\<close>

lemma fe_constants:
  "fe_ok 101 fe_d" "fe_value fe_d * 121666 mod fe_prime = - 121665 mod fe_prime"
  "fe_ok 101 fe_d2" "fe_value fe_d2 mod fe_prime = 2 * fe_value fe_d mod fe_prime"
  "fe_ok 101 SqrtM1" "fe_value SqrtM1 * fe_value SqrtM1 mod fe_prime = - 1 mod fe_prime"
  "fe_ok 1 FeZero" "fe_value FeZero = 0" "fe_ok 1 FeOne" "fe_value FeOne = 1"
  by code_simp+

section \<open>Theorems\<close>

text \<open>
  C16. Multiplying two field elements and writing the product gives the canonical 32 bytes of the
  product modulo \<open>2 ^ 255 - 19\<close>. The factors may be half as large again as the comment of \<^verbatim>\<open>FeMul\<close>
  allows, as the point operations need, and the product is within the promised bounds.
\<close>

theorem field_product_canonical:
  assumes "fe_ok 330 f" "fe_ok 330 g"
  shows "fe_ok 110 (FeMul f g)
    \<and> length (fst (FeToBytes (FeMul f g))) = 32
    \<and> le_value (fst (FeToBytes (FeMul f g))) = fe_value f * fe_value g mod fe_prime"
  using FeMul_correct [OF assms] FeToBytes_correct [of "FeMul f g"] fe_ok_mono [of 101 "FeMul f g"] by simp

theorem field_product_canonical_witness:
  "le_value (fst (FeToBytes (FeMul SqrtM1 SqrtM1))) = 2 ^ 255 - 20"
proof -
  have "fe_ok 330 SqrtM1"
    using fe_constants(5) by (rule fe_ok_mono) simp
  from field_product_canonical [OF this this] show ?thesis
    using fe_constants(6) by (simp add: fe_prime_def)
qed

text \<open>
  C17. Reading 32 bytes and writing the element gives the number modulo the prime, with the top
  bit of the input ignored; the result is unchanged by a second round.
\<close>

theorem field_bytes_round_trip:
  assumes "length src = 32"
  defines "out \<equiv> fst (FeToBytes (FeFromBytes src))"
  shows "length out = 32 \<and> le_value out = le_value src mod 2 ^ 255 mod fe_prime
    \<and> fst (FeToBytes (FeFromBytes out)) = out"
proof -
  note io = FeToBytes_correct [OF fe_ok_mono [of 101, OF FeFromBytes_correct [THEN conjunct1]]]
  have out: "length out = 32" "le_value out = take_bit 255 (le_value src) mod fe_prime"
    using io [OF assms(1)] FeFromBytes_correct [OF assms(1)] by (simp_all add: out_def)
  have "0 \<le> le_value out" "le_value out < fe_prime"
    using pos_mod_bound [of fe_prime "take_bit 255 (le_value src)"] by (simp_all add: out fe_prime_def)
  then have "take_bit 255 (le_value out) mod fe_prime = le_value out"
    by (simp add: take_bit_int_eq_self fe_prime_def)
  then have "le_value (fst (FeToBytes (FeFromBytes out))) = le_value out" "length (fst (FeToBytes (FeFromBytes out))) = 32"
    using io [OF out(1)] FeFromBytes_correct [OF out(1)] by simp_all
  then have "fst (FeToBytes (FeFromBytes out)) = out"
    using le_value_inject out(1) by metis
  then show ?thesis
    using out by (simp add: take_bit_eq_mod)
qed

theorem field_bytes_round_trip_witness:
  "le_value (fst (FeToBytes (FeFromBytes (replicate 32 255)))) = 18"
  using field_bytes_round_trip [of "replicate 32 255"]
  by (simp add: le_value_ff fe_prime_def)

text \<open>
  C18. \<^verbatim>\<open>FeInvert\<close> raises its argument to the power \<open>p - 2\<close> and \<^verbatim>\<open>fePow22523\<close> to the power
  \<open>(p - 5) / 8\<close>, where \<open>p = 2 ^ 255 - 19\<close>, for every argument within the bounds of a product's factor.
\<close>

theorem field_exponents:
  assumes "fe_ok 330 z"
  shows "fe_ok 110 (FeInvert z) \<and> fe_value (FeInvert z) mod fe_prime = fe_value z ^ nat (fe_prime - 2) mod fe_prime
    \<and> fe_ok 110 (fePow22523 z) \<and> fe_value (fePow22523 z) mod fe_prime = fe_value z ^ nat ((fe_prime - 5) div 8) mod fe_prime"
proof -
  have "fe_power (fe_value z) 1 z"
    using assms by (simp add: fe_power_def)
  from FeInvert_computes [OF this] fePow22523_computes [OF this]
  have c: "fe_computes (fe_value z) (2 ^ 255 - 21) (FeInvert z)" "fe_computes (fe_value z) (2 ^ 252 - 3) (fePow22523 z)"
    by auto
  have "nat (fe_prime - 2) = 2 ^ 255 - 21" "nat ((fe_prime - 5) div 8) = 2 ^ 252 - 3"
    by (simp_all add: fe_prime_def)
  with c show ?thesis
    using fe_ok_mono [of 101 _ 110] by (simp only: fe_computes_def)
qed

theorem field_exponents_witness: "fe_value (FeInvert FeOne) mod fe_prime = 1 \<and> fe_value (fePow22523 FeOne) mod fe_prime = 1"
proof -
  have "fe_ok 330 FeOne"
    using fe_constants(9) by (rule fe_ok_mono) simp
  from field_exponents [OF this] show ?thesis
    by (simp add: fe_constants(10)) (simp add: fe_prime_def)
qed

end
