(* ===== verification/Ed25519_Group.thy ===== *)
theory Ed25519_Group
  imports Ed25519_Field
begin

text \<open>
  Points of the curve \<open>- x ^ 2 + y ^ 2 = 1 + d * x ^ 2 * y ^ 2\<close>: the representations and the point
  operations of \<^verbatim>\<open>crypto/ed25519/internal/edwards25519/group.go\<close>. The statements of each operation
  follow the code in order; a parameter the code writes through is the result of the definition.
  The theorems: under the digit bounds below every field operation is called within the bounds it
  needs, so that no operation overflows; addition and doubling compute the projective Edwards
  formulas; and their results lie on the curve when their arguments do.
\<close>

section \<open>Representations\<close>

record ProjectiveGroupElement =
  pX :: FieldElement
  pY :: FieldElement
  pZ :: FieldElement

record ExtendedGroupElement =
  eX :: FieldElement
  eY :: FieldElement
  eZ :: FieldElement
  eT :: FieldElement

record CompletedGroupElement =
  cX :: FieldElement
  cY :: FieldElement
  cZ :: FieldElement
  cT :: FieldElement

record PreComputedGroupElement =
  yPlusX :: FieldElement
  yMinusX :: FieldElement
  xy2d :: FieldElement

record CachedGroupElement =
  cyPlusX :: FieldElement
  cyMinusX :: FieldElement
  caZ :: FieldElement
  caT2d :: FieldElement

section \<open>Operations\<close>

definition Projective_Zero :: ProjectiveGroupElement where
  "Projective_Zero = \<lparr>pX = FeZero, pY = FeOne, pZ = FeOne\<rparr>"

definition Projective_Double :: "ProjectiveGroupElement \<Rightarrow> CompletedGroupElement" where
  "Projective_Double p =
     (let rX = FeSquare (pX p);
          rZ = FeSquare (pY p);
          rT = FeSquare2 (pZ p);
          rY = FeAdd (pX p) (pY p);
          t0 = FeSquare rY;
          rY = FeAdd rZ rX;
          rZ = FeSub rZ rX;
          rX = FeSub t0 rY;
          rT = FeSub rT rZ
      in \<lparr>cX = rX, cY = rY, cZ = rZ, cT = rT\<rparr>)"

definition Projective_ToBytes :: "ProjectiveGroupElement \<Rightarrow> bytes" where
  "Projective_ToBytes p =
     (let recip = FeInvert (pZ p);
          x = FeMul (pX p) recip;
          y = FeMul (pY p) recip;
          s = fst (FeToBytes y)
      in s[31 := s ! 31 XOR push_bit 7 (fst (FeIsNegative x))])"

definition Extended_Zero :: ExtendedGroupElement where
  "Extended_Zero = \<lparr>eX = FeZero, eY = FeOne, eZ = FeOne, eT = FeZero\<rparr>"

definition Extended_ToProjective :: "ExtendedGroupElement \<Rightarrow> ProjectiveGroupElement" where
  "Extended_ToProjective p = \<lparr>pX = eX p, pY = eY p, pZ = eZ p\<rparr>"

definition Extended_Double :: "ExtendedGroupElement \<Rightarrow> CompletedGroupElement" where
  "Extended_Double p = Projective_Double (Extended_ToProjective p)"

definition Extended_ToCached :: "ExtendedGroupElement \<Rightarrow> CachedGroupElement" where
  "Extended_ToCached p =
     \<lparr>cyPlusX = FeAdd (eY p) (eX p), cyMinusX = FeSub (eY p) (eX p), caZ = eZ p, caT2d = FeMul (eT p) fe_d2\<rparr>"

definition Extended_ToBytes :: "ExtendedGroupElement \<Rightarrow> bytes" where
  "Extended_ToBytes p =
     (let recip = FeInvert (eZ p);
          x = FeMul (eX p) recip;
          y = FeMul (eY p) recip;
          s = fst (FeToBytes y)
      in s[31 := s ! 31 XOR push_bit 7 (fst (FeIsNegative x))])"

text \<open>
  \<^verbatim>\<open>FromBytes\<close>: the candidate for the root, the two checks and the choice of the sign. The tests
  leave the elements they are called on in reduced form. The reversed copy \<^verbatim>\<open>tmp2\<close> of the code is
  never read.
\<close>

definition decode_root :: "FieldElement \<Rightarrow> FieldElement \<Rightarrow> FieldElement" where
  "decode_root u v =
     (let v3 = FeSquare v;
          v3 = FeMul v3 v;
          x = FeSquare v3;
          x = FeMul x v;
          x = FeMul x u;
          x = fePow22523 x;
          x = FeMul x v3
      in FeMul x u)"

definition Extended_FromBytes :: "bytes \<Rightarrow> ExtendedGroupElement option" where
  "Extended_FromBytes s =
     (let y = FeFromBytes s;
          z = FeOne;
          u = FeSquare y;
          v = FeMul u fe_d;
          u = FeSub u z;
          v = FeAdd v z;
          x = decode_root u v;
          vxx = FeSquare x;
          vxx = FeMul vxx v;
          root = (if fst (FeIsNonZero (FeSub vxx u)) = 1
                  then if fst (FeIsNonZero (FeAdd vxx u)) = 1 then None
                       else Some (snd (FeToBytes (FeMul x SqrtM1)))
                  else Some x)
      in case root of
           None \<Rightarrow> None
         | Some x \<Rightarrow>
             let (negative, x) = FeIsNegative x;
                 x = (if negative \<noteq> drop_bit 7 (s ! 31) then FeNeg x else x)
             in Some \<lparr>eX = x, eY = y, eZ = z, eT = FeMul x y\<rparr>)"

definition Completed_ToProjective :: "CompletedGroupElement \<Rightarrow> ProjectiveGroupElement" where
  "Completed_ToProjective p = \<lparr>pX = FeMul (cX p) (cT p), pY = FeMul (cY p) (cZ p), pZ = FeMul (cZ p) (cT p)\<rparr>"

definition Completed_ToExtended :: "CompletedGroupElement \<Rightarrow> ExtendedGroupElement" where
  "Completed_ToExtended p =
     \<lparr>eX = FeMul (cX p) (cT p), eY = FeMul (cY p) (cZ p), eZ = FeMul (cZ p) (cT p), eT = FeMul (cX p) (cY p)\<rparr>"

definition PreComputed_Zero :: PreComputedGroupElement where
  "PreComputed_Zero = \<lparr>yPlusX = FeOne, yMinusX = FeOne, xy2d = FeZero\<rparr>"

definition geAdd :: "ExtendedGroupElement \<Rightarrow> CachedGroupElement \<Rightarrow> CompletedGroupElement" where
  "geAdd p q =
     (let rX = FeAdd (eY p) (eX p);
          rY = FeSub (eY p) (eX p);
          rZ = FeMul rX (cyPlusX q);
          rY = FeMul rY (cyMinusX q);
          rT = FeMul (caT2d q) (eT p);
          rX = FeMul (eZ p) (caZ q);
          t0 = FeAdd rX rX
      in \<lparr>cX = FeSub rZ rY, cY = FeAdd rZ rY, cZ = FeAdd t0 rT, cT = FeSub t0 rT\<rparr>)"

definition geSub :: "ExtendedGroupElement \<Rightarrow> CachedGroupElement \<Rightarrow> CompletedGroupElement" where
  "geSub p q =
     (let rX = FeAdd (eY p) (eX p);
          rY = FeSub (eY p) (eX p);
          rZ = FeMul rX (cyMinusX q);
          rY = FeMul rY (cyPlusX q);
          rT = FeMul (caT2d q) (eT p);
          rX = FeMul (eZ p) (caZ q);
          t0 = FeAdd rX rX
      in \<lparr>cX = FeSub rZ rY, cY = FeAdd rZ rY, cZ = FeSub t0 rT, cT = FeAdd t0 rT\<rparr>)"

definition geMixedAdd :: "ExtendedGroupElement \<Rightarrow> PreComputedGroupElement \<Rightarrow> CompletedGroupElement" where
  "geMixedAdd p q =
     (let rX = FeAdd (eY p) (eX p);
          rY = FeSub (eY p) (eX p);
          rZ = FeMul rX (yPlusX q);
          rY = FeMul rY (yMinusX q);
          rT = FeMul (xy2d q) (eT p);
          t0 = FeAdd (eZ p) (eZ p)
      in \<lparr>cX = FeSub rZ rY, cY = FeAdd rZ rY, cZ = FeAdd t0 rT, cT = FeSub t0 rT\<rparr>)"

definition geMixedSub :: "ExtendedGroupElement \<Rightarrow> PreComputedGroupElement \<Rightarrow> CompletedGroupElement" where
  "geMixedSub p q =
     (let rX = FeAdd (eY p) (eX p);
          rY = FeSub (eY p) (eX p);
          rZ = FeMul rX (yMinusX q);
          rY = FeMul rY (yPlusX q);
          rT = FeMul (xy2d q) (eT p);
          t0 = FeAdd (eZ p) (eZ p)
      in \<lparr>cX = FeSub rZ rY, cY = FeAdd rZ rY, cZ = FeSub t0 rT, cT = FeAdd t0 rT\<rparr>)"

section \<open>Residues\<close>

text \<open>The ring of residues modulo the prime, as the type of that cardinality.\<close>

type_synonym residue = 57896044618658097711785492504343953926634992332820282019728792003956564819949

definition res :: "FieldElement \<Rightarrow> residue" where
  "res f = of_int (fe_value f)"

lemma residue_eq_iff: "(of_int x :: residue) = of_int y \<longleftrightarrow> x mod fe_prime = y mod fe_prime"
proof -
  have "int CARD(residue) = fe_prime"
    by (simp add: fe_prime_def)
  then show ?thesis
    unfolding bit1.of_int_eq by (metis bit1.Rep_Abs_mod)
qed

lemma res_mul [simp]: "fe_ok 330 f \<Longrightarrow> fe_ok 330 g \<Longrightarrow> res (FeMul f g) = res f * res g"
  using FeMul_correct [of f g] residue_eq_iff [of "fe_value (FeMul f g)" "fe_value f * fe_value g"] by (simp add: res_def)

lemma res_square [simp]: "fe_ok 330 f \<Longrightarrow> res (FeSquare f) = res f ^ 2"
  using FeSquare_correct [of f] residue_eq_iff [of "fe_value (FeSquare f)" "fe_value f * fe_value f"]
  by (simp add: res_def power2_eq_square)

lemma res_square2 [simp]: "fe_ok 330 f \<Longrightarrow> res (FeSquare2 f) = 2 * res f ^ 2"
  using FeSquare2_correct [of f] residue_eq_iff [of "fe_value (FeSquare2 f)" "2 * (fe_value f * fe_value f)"]
  by (simp add: res_def power2_eq_square)

lemma res_add [simp]: "fe_ok m f \<Longrightarrow> fe_ok n g \<Longrightarrow> m + n < 1000 \<Longrightarrow> res (FeAdd f g) = res f + res g"
  by (simp add: res_def FeAdd_correct)

lemma res_sub [simp]: "fe_ok m f \<Longrightarrow> fe_ok n g \<Longrightarrow> m + n < 1000 \<Longrightarrow> res (FeSub f g) = res f - res g"
  by (simp add: res_def FeSub_correct)

lemma res_constants [simp]: "res FeZero = 0" "res FeOne = 1" "res fe_d2 = 2 * res fe_d" "res SqrtM1 ^ 2 = - 1"
proof -
  show "res fe_d2 = 2 * res fe_d"
    using residue_eq_iff [of "fe_value fe_d2" "2 * fe_value fe_d"] fe_constants(4) by (simp add: res_def)
  show "res SqrtM1 ^ 2 = - 1"
    using residue_eq_iff [of "fe_value SqrtM1 * fe_value SqrtM1" "- 1"] fe_constants(6)
    by (simp add: res_def power2_eq_square)
qed (simp_all add: res_def fe_constants)

section \<open>Bounds\<close>

text \<open>\<open>rep m x f\<close>: element \<open>f\<close> has digits within bound \<open>m\<close> and stands for the residue \<open>x\<close>.\<close>

definition rep :: "int \<Rightarrow> residue \<Rightarrow> FieldElement \<Rightarrow> bool" where
  "rep m x f \<longleftrightarrow> fe_ok m f \<and> res f = x"

lemma rep_weaken: "rep m x f \<Longrightarrow> m \<le> n \<Longrightarrow> rep n x f"
  using fe_ok_mono by (auto simp: rep_def)

lemma rep_mul: "rep m x f \<Longrightarrow> rep n y g \<Longrightarrow> m \<le> 330 \<Longrightarrow> n \<le> 330 \<Longrightarrow> rep 101 (x * y) (FeMul f g)"
  using FeMul_correct fe_ok_mono res_mul unfolding rep_def by blast

lemma rep_square: "rep m x f \<Longrightarrow> m \<le> 330 \<Longrightarrow> rep 101 (x ^ 2) (FeSquare f)"
  using FeSquare_correct fe_ok_mono res_square unfolding rep_def by blast

lemma rep_square2: "rep m x f \<Longrightarrow> m \<le> 330 \<Longrightarrow> rep 101 (2 * x ^ 2) (FeSquare2 f)"
  using FeSquare2_correct fe_ok_mono res_square2 unfolding rep_def by blast

lemma rep_add: "rep m x f \<Longrightarrow> rep n y g \<Longrightarrow> m + n < 1000 \<Longrightarrow> rep (m + n) (x + y) (FeAdd f g)"
  unfolding rep_def using FeAdd_correct(1) res_add by blast

lemma rep_sub: "rep m x f \<Longrightarrow> rep n y g \<Longrightarrow> m + n < 1000 \<Longrightarrow> rep (m + n) (x - y) (FeSub f g)"
  unfolding rep_def using FeSub_correct(1) res_sub by blast

lemma rep_neg: "rep m x f \<Longrightarrow> m < 1000 \<Longrightarrow> rep m (- x) (FeNeg f)"
  using FeNeg_correct [of m f] by (auto simp: rep_def res_def)

lemma rep_reduced: "rep 220 x f \<Longrightarrow> rep 200 x (snd (FeToBytes f))"
  using FeToBytes_correct [of f] residue_eq_iff [of "fe_value f mod fe_prime" "fe_value f"] by (simp add: rep_def res_def)

lemma rep_constants:
  "rep 1 0 FeZero" "rep 1 1 FeOne" "rep 101 (res fe_d) fe_d" "rep 101 (2 * res fe_d) fe_d2" "rep 101 (res SqrtM1) SqrtM1"
  by (simp_all add: rep_def fe_constants)

lemmas rep_ops = rep_mul rep_square rep_square2 rep_add rep_sub

section \<open>Doubling and addition\<close>

text \<open>
  The represented coordinates of each kind of point, with digit bounds in hundredths of \<open>2 ^ 25\<close> and
  \<open>2 ^ 24\<close>. The first coordinate may be larger than the others: the sign test of \<^verbatim>\<open>FromBytes\<close> leaves it
  with digits of up to \<open>2 ^ 26\<close>. The sums of a completed point exceed what the comment of \<^verbatim>\<open>FeMul\<close> asks
  of a factor.
\<close>

definition projective :: "residue \<Rightarrow> residue \<Rightarrow> residue \<Rightarrow> ProjectiveGroupElement \<Rightarrow> bool" where
  "projective x y z p \<longleftrightarrow> rep 200 x (pX p) \<and> rep 101 y (pY p) \<and> rep 101 z (pZ p)"

definition extended :: "residue \<Rightarrow> residue \<Rightarrow> residue \<Rightarrow> residue \<Rightarrow> ExtendedGroupElement \<Rightarrow> bool" where
  "extended x y z t p \<longleftrightarrow> rep 200 x (eX p) \<and> rep 101 y (eY p) \<and> rep 101 z (eZ p) \<and> rep 101 t (eT p)"

definition completed :: "residue \<Rightarrow> residue \<Rightarrow> residue \<Rightarrow> residue \<Rightarrow> CompletedGroupElement \<Rightarrow> bool" where
  "completed x y z t p \<longleftrightarrow> rep 303 x (cX p) \<and> rep 303 y (cY p) \<and> rep 303 z (cZ p) \<and> rep 303 t (cT p)"

definition cached :: "residue \<Rightarrow> residue \<Rightarrow> residue \<Rightarrow> residue \<Rightarrow> CachedGroupElement \<Rightarrow> bool" where
  "cached x y z t q \<longleftrightarrow> rep 301 (y + x) (cyPlusX q) \<and> rep 301 (y - x) (cyMinusX q) \<and> rep 101 z (caZ q)
     \<and> rep 101 (2 * res fe_d * t) (caT2d q)"

definition precomputed_point :: "residue \<Rightarrow> residue \<Rightarrow> PreComputedGroupElement \<Rightarrow> bool" where
  "precomputed_point x y q \<longleftrightarrow> rep 101 (y + x) (yPlusX q) \<and> rep 101 (y - x) (yMinusX q)
     \<and> rep 101 (2 * res fe_d * (x * y)) (xy2d q)"

lemma rep_eq: "rep m x f \<Longrightarrow> x = y \<Longrightarrow> m \<le> n \<Longrightarrow> rep n y f"
  using rep_weaken by blast

lemma Projective_Double_formulas:
  assumes "projective x y z p"
  shows "completed (2 * x * y) (y ^ 2 + x ^ 2) (y ^ 2 - x ^ 2) (2 * z ^ 2 - (y ^ 2 - x ^ 2)) (Projective_Double p)"
proof -
  have r: "rep 200 x (pX p)" "rep 101 y (pY p)" "rep 101 z (pZ p)"
    using assms by (simp_all add: projective_def)
  show ?thesis
    unfolding completed_def Projective_Double_def Let_def
    by (simp, intro conjI; rule rep_eq, (rule r rep_ops | (simp add: power2_eq_square algebra_simps; fail))+)
qed

lemma geAdd_formulas:
  assumes "extended x1 y1 z1 t1 p" "cached x2 y2 z2 t2 q"
  shows "completed (2 * (x1 * y2 + x2 * y1)) (2 * (y1 * y2 + x1 * x2))
    (2 * (z1 * z2 + res fe_d * t1 * t2)) (2 * (z1 * z2 - res fe_d * t1 * t2)) (geAdd p q)"
proof -
  have r: "rep 200 x1 (eX p)" "rep 101 y1 (eY p)" "rep 101 z1 (eZ p)" "rep 101 t1 (eT p)"
    "rep 301 (y2 + x2) (cyPlusX q)" "rep 301 (y2 - x2) (cyMinusX q)" "rep 101 z2 (caZ q)"
    "rep 101 (2 * res fe_d * t2) (caT2d q)"
    using assms by (simp_all add: extended_def cached_def)
  show ?thesis
    unfolding completed_def geAdd_def Let_def
    by (simp, intro conjI; rule rep_eq, (rule r rep_ops | (simp add: power2_eq_square algebra_simps; fail))+)
qed

lemma geSub_formulas:
  assumes "extended x1 y1 z1 t1 p" "cached x2 y2 z2 t2 q"
  shows "completed (2 * (x1 * y2 - x2 * y1)) (2 * (y1 * y2 - x1 * x2))
    (2 * (z1 * z2 - res fe_d * t1 * t2)) (2 * (z1 * z2 + res fe_d * t1 * t2)) (geSub p q)"
proof -
  have r: "rep 200 x1 (eX p)" "rep 101 y1 (eY p)" "rep 101 z1 (eZ p)" "rep 101 t1 (eT p)"
    "rep 301 (y2 + x2) (cyPlusX q)" "rep 301 (y2 - x2) (cyMinusX q)" "rep 101 z2 (caZ q)"
    "rep 101 (2 * res fe_d * t2) (caT2d q)"
    using assms by (simp_all add: extended_def cached_def)
  show ?thesis
    unfolding completed_def geSub_def Let_def
    by (simp, intro conjI; rule rep_eq, (rule r rep_ops | (simp add: power2_eq_square algebra_simps; fail))+)
qed

lemma geMixedAdd_formulas:
  assumes "extended x1 y1 z1 t1 p" "precomputed_point x2 y2 q"
  shows "completed (2 * (x1 * y2 + x2 * y1)) (2 * (y1 * y2 + x1 * x2))
    (2 * (z1 + res fe_d * t1 * (x2 * y2))) (2 * (z1 - res fe_d * t1 * (x2 * y2))) (geMixedAdd p q)"
proof -
  have r: "rep 200 x1 (eX p)" "rep 101 y1 (eY p)" "rep 101 z1 (eZ p)" "rep 101 t1 (eT p)"
    "rep 101 (y2 + x2) (yPlusX q)" "rep 101 (y2 - x2) (yMinusX q)" "rep 101 (2 * res fe_d * (x2 * y2)) (xy2d q)"
    using assms by (simp_all add: extended_def precomputed_point_def)
  show ?thesis
    unfolding completed_def geMixedAdd_def Let_def
    by (simp, intro conjI; rule rep_eq, (rule r rep_ops | (simp add: power2_eq_square algebra_simps; fail))+)
qed

lemma geMixedSub_formulas:
  assumes "extended x1 y1 z1 t1 p" "precomputed_point x2 y2 q"
  shows "completed (2 * (x1 * y2 - x2 * y1)) (2 * (y1 * y2 - x1 * x2))
    (2 * (z1 - res fe_d * t1 * (x2 * y2))) (2 * (z1 + res fe_d * t1 * (x2 * y2))) (geMixedSub p q)"
proof -
  have r: "rep 200 x1 (eX p)" "rep 101 y1 (eY p)" "rep 101 z1 (eZ p)" "rep 101 t1 (eT p)"
    "rep 101 (y2 + x2) (yPlusX q)" "rep 101 (y2 - x2) (yMinusX q)" "rep 101 (2 * res fe_d * (x2 * y2)) (xy2d q)"
    using assms by (simp_all add: extended_def precomputed_point_def)
  show ?thesis
    unfolding completed_def geMixedSub_def Let_def
    by (simp, intro conjI; rule rep_eq, (rule r rep_ops | (simp add: power2_eq_square algebra_simps; fail))+)
qed

lemma conversions:
  shows "extended x y z t p \<Longrightarrow> cached x y z t (Extended_ToCached p)"
    and "extended x y z t p \<Longrightarrow> projective x y z (Extended_ToProjective p)"
    and "completed x y z t c \<Longrightarrow> projective (x * t) (y * z) (z * t) (Completed_ToProjective c)"
    and "completed x y z t c \<Longrightarrow> extended (x * t) (y * z) (z * t) (x * y) (Completed_ToExtended c)"
proof -
  show "cached x y z t (Extended_ToCached p)" if "extended x y z t p"
  proof -
    have r: "rep 200 x (eX p)" "rep 101 y (eY p)" "rep 101 z (eZ p)" "rep 101 t (eT p)"
      using that by (simp_all add: extended_def)
    show ?thesis
      unfolding cached_def Extended_ToCached_def
      by (simp, intro conjI; rule rep_eq, (rule r rep_constants rep_ops | (simp add: algebra_simps; fail))+)
  qed
  show "projective x y z (Extended_ToProjective p)" if "extended x y z t p"
    using that by (simp add: extended_def projective_def Extended_ToProjective_def)
  have r: "rep 101 (x * t) (FeMul (cX c) (cT c))" "rep 101 (y * z) (FeMul (cY c) (cZ c))"
    "rep 101 (z * t) (FeMul (cZ c) (cT c))" "rep 101 (x * y) (FeMul (cX c) (cY c))" if "completed x y z t c"
    using that by (auto simp: completed_def intro: rep_mul)
  show "projective (x * t) (y * z) (z * t) (Completed_ToProjective c)" if "completed x y z t c"
    using r [OF that] by (auto simp: projective_def Completed_ToProjective_def intro: rep_weaken)
  show "extended (x * t) (y * z) (z * t) (x * y) (Completed_ToExtended c)" if "completed x y z t c"
    using r [OF that] by (auto simp: extended_def Completed_ToExtended_def intro: rep_weaken)
qed

section \<open>The curve\<close>

definition on_curve :: "residue \<Rightarrow> residue \<Rightarrow> residue \<Rightarrow> residue \<Rightarrow> bool" where
  "on_curve x y z t \<longleftrightarrow> y ^ 2 - x ^ 2 = z ^ 2 + res fe_d * t ^ 2 \<and> x * y = z * t"

definition on_curve_projective :: "residue \<Rightarrow> residue \<Rightarrow> residue \<Rightarrow> bool" where
  "on_curve_projective x y z \<longleftrightarrow> (y ^ 2 - x ^ 2) * z ^ 2 = z ^ 4 + res fe_d * x ^ 2 * y ^ 2"

definition on_curve_completed :: "residue \<Rightarrow> residue \<Rightarrow> residue \<Rightarrow> residue \<Rightarrow> bool" where
  "on_curve_completed x y z t \<longleftrightarrow> y ^ 2 * z ^ 2 - x ^ 2 * t ^ 2 = z ^ 2 * t ^ 2 + res fe_d * x ^ 2 * y ^ 2"

lemma extended_on_curve: "on_curve_completed x y z t \<Longrightarrow> on_curve (x * t) (y * z) (z * t) (x * y)"
  by (simp add: on_curve_def on_curve_completed_def power_mult_distrib ac_simps)

lemma curve_projective: "on_curve x y z t \<Longrightarrow> on_curve_projective x y z"
proof -
  assume c: "on_curve x y z t"
  have "x ^ 2 * y ^ 2 = z ^ 2 * t ^ 2"
    using c by (simp add: on_curve_def power_mult_distrib [symmetric])
  then show ?thesis
    using c by (simp add: on_curve_def on_curve_projective_def mult.assoc)
      (simp add: algebra_simps power2_eq_square power4_eq_xxxx)
qed

lemma projective_on_curve: "on_curve_completed x y z t \<Longrightarrow> on_curve_projective (x * t) (y * z) (z * t)"
  using curve_projective [OF extended_on_curve] .

lemma double_on_curve:
  assumes "on_curve_projective x y z"
  shows "on_curve_completed (2 * x * y) (y ^ 2 + x ^ 2) (y ^ 2 - x ^ 2) (2 * z ^ 2 - (y ^ 2 - x ^ 2))"
proof -
  define e g f where "e = 2 * x * y" and "g = y ^ 2 - x ^ 2" and "f = 2 * z ^ 2 - g"
  have h: "(y ^ 2 + x ^ 2) ^ 2 = g ^ 2 + e ^ 2"
    by (simp add: e_def g_def power2_eq_square algebra_simps)
  have "g ^ 2 - f ^ 2 = 4 * (g * z ^ 2) - 4 * z ^ 4"
    by (simp add: f_def power2_eq_square power4_eq_xxxx algebra_simps)
  also have "\<dots> = res fe_d * e ^ 2"
    using assms by (simp add: on_curve_projective_def g_def [symmetric] e_def power_mult_distrib algebra_simps)
  finally have "e ^ 2 * (g ^ 2 - f ^ 2) = e ^ 2 * (res fe_d * e ^ 2)" "g ^ 2 * (g ^ 2 - f ^ 2) = g ^ 2 * (res fe_d * e ^ 2)"
    by simp_all
  then show ?thesis
    unfolding on_curve_completed_def e_def [symmetric] g_def [symmetric] f_def [symmetric] h
    by (simp add: algebra_simps)
qed

lemma add_on_curve:
  assumes "on_curve x1 y1 z1 t1" "on_curve x2 y2 z2 t2"
  shows "on_curve_completed (2 * (x1 * y2 + x2 * y1)) (2 * (y1 * y2 + x1 * x2))
    (2 * (z1 * z2 + res fe_d * t1 * t2)) (2 * (z1 * z2 - res fe_d * t1 * t2))"
proof -
  let ?d = "res fe_d"
  define e h g f where "e = x1 * y2 + x2 * y1" and "h = y1 * y2 + x1 * x2"
    and "g = z1 * z2 + ?d * t1 * t2" and "f = z1 * z2 - ?d * t1 * t2"
  have c: "y1 ^ 2 - x1 ^ 2 = z1 ^ 2 + ?d * t1 ^ 2" "x1 * y1 = z1 * t1"
    "y2 ^ 2 - x2 ^ 2 = z2 ^ 2 + ?d * t2 ^ 2" "x2 * y2 = z2 * t2"
    using assms by (simp_all add: on_curve_def)
  have "h ^ 2 * g ^ 2 - e ^ 2 * f ^ 2 - g ^ 2 * f ^ 2 - ?d * e ^ 2 * h ^ 2
      = (y1 ^ 2 - x1 ^ 2) * (y2 ^ 2 - x2 ^ 2) * ((z1 * z2) ^ 2 + (?d * t1 * t2) ^ 2)
      + 2 * (z1 * z2 * (?d * t1 * t2) - ?d * (x1 * y1) * (x2 * y2)) * (y1 ^ 2 + x1 ^ 2) * (y2 ^ 2 + x2 ^ 2)
      + 8 * (z1 * z2) * (?d * t1 * t2) * (x1 * y1) * (x2 * y2) - ((z1 * z2) ^ 2 - (?d * t1 * t2) ^ 2) ^ 2
      - ?d * (x1 * y1) ^ 2 * ((y2 ^ 2 - x2 ^ 2) ^ 2 + 4 * (x2 * y2) ^ 2)
      - ?d * (x2 * y2) ^ 2 * ((y1 ^ 2 - x1 ^ 2) ^ 2 + 4 * (x1 * y1) ^ 2)"
    unfolding e_def h_def g_def f_def by (simp add: power2_eq_square algebra_simps)
  also have "\<dots> = 0"
    unfolding c by (simp add: power2_eq_square algebra_simps)
  finally have "h ^ 2 * g ^ 2 - e ^ 2 * f ^ 2 = g ^ 2 * f ^ 2 + ?d * e ^ 2 * h ^ 2"
    by (simp add: algebra_simps)
  then have "16 * (h ^ 2 * g ^ 2 - e ^ 2 * f ^ 2) = 16 * (g ^ 2 * f ^ 2 + ?d * e ^ 2 * h ^ 2)"
    by simp
  then show ?thesis
    unfolding on_curve_completed_def e_def [symmetric] h_def [symmetric] g_def [symmetric] f_def [symmetric]
    by (simp add: power_mult_distrib algebra_simps)
qed

lemma neg_on_curve: "on_curve x y z t \<Longrightarrow> on_curve (- x) y z (- t)"
  by (simp add: on_curve_def)

lemma sub_on_curve:
  assumes "on_curve x1 y1 z1 t1" "on_curve x2 y2 z2 t2"
  shows "on_curve_completed (2 * (x1 * y2 - x2 * y1)) (2 * (y1 * y2 - x1 * x2))
    (2 * (z1 * z2 - res fe_d * t1 * t2)) (2 * (z1 * z2 + res fe_d * t1 * t2))"
  using add_on_curve [OF assms(1) neg_on_curve [OF assms(2)]] by simp

section \<open>Encoding\<close>

lemma le_value_append: "le_value (xs @ ys) = le_value xs + 2 ^ (8 * length xs) * le_value ys"
  by (induction xs) (simp_all add: power_add algebra_simps)

lemma top_bit_set:
  fixes x b :: byte
  assumes "uint x < 128" "b = 0 \<or> b = 1"
  shows "uint (x XOR push_bit 7 b) = uint x + 128 * uint b"
proof (rule bit_eqI)
  fix n
  have "bit (uint x + 2 ^ 7 * uint b) n \<longleftrightarrow> (if n < 7 then bit (uint x) n else bit (uint b) (n - 7))"
    using assms(1) by (intro bit_digit) simp_all
  moreover have "\<not> bit x n" if "7 \<le> n"
    using bit_digit_high [of "uint x" 7 n] assms(1) that bit_imp_le_length [of x n] by (auto simp: bit_uint_iff)
  ultimately show "bit (uint (x XOR push_bit 7 b)) n \<longleftrightarrow> bit (uint x + 128 * uint b) n"
    using assms(2) by (auto simp: bit_uint_iff bit_simps not_less)
qed

lemma sign_bit_set:
  assumes "length s = 32" "le_value s < 2 ^ 255" "b = 0 \<or> b = 1"
  shows "le_value (s[31 := s ! 31 XOR push_bit 7 b]) = le_value s + 2 ^ 255 * uint b"
proof -
  have "s = take 31 s @ [s ! 31]" "length (take 31 s) = 31"
    using take_Suc_conv_app_nth [of 31 s] assms(1) by simp_all
  then obtain t x where s: "s = t @ [x]" "length t = 31"
    by metis
  have "2 ^ 248 * uint x \<le> le_value s"
    by (simp add: s le_value_append)
  then have "uint x < 128"
    using assms(2) by simp
  from top_bit_set [OF this assms(3)] show ?thesis
    by (simp add: s list_update_append nth_append le_value_append algebra_simps)
qed

lemma Projective_ToBytes_value:
  assumes "fe_ok 330 (pX p)" "fe_ok 330 (pY p)" "fe_ok 330 (pZ p)"
  defines "w \<equiv> fe_value (pZ p) ^ nat (fe_prime - 2)"
  shows "length (Projective_ToBytes p) = 32"
    and "le_value (Projective_ToBytes p) = fe_value (pY p) * w mod fe_prime + 2 ^ 255 * (fe_value (pX p) * w mod fe_prime mod 2)"
proof -
  let ?r = "FeInvert (pZ p)" and ?x = "FeMul (pX p) (FeInvert (pZ p))" and ?y = "FeMul (pY p) (FeInvert (pZ p))"
  have "fe_power (fe_value (pZ p)) 1 (pZ p)"
    using assms by (simp add: fe_power_def)
  from FeInvert_computes [OF this] have r: "fe_ok 330 ?r" "fe_value ?r mod fe_prime = w mod fe_prime"
    by (auto simp: fe_computes_def w_def fe_prime_def intro: fe_ok_mono)
  have w: "fe_value f * fe_value ?r mod fe_prime = fe_value f * w mod fe_prime" for f
    using r(2) by (intro mod_mult_cong) simp_all
  have x: "fe_ok 220 ?x" "fe_value ?x mod fe_prime = fe_value (pX p) * w mod fe_prime"
    and y: "fe_ok 220 ?y" "fe_value ?y mod fe_prime = fe_value (pY p) * w mod fe_prime"
    using FeMul_correct [OF assms(1) r(1)] FeMul_correct [OF assms(2) r(1)] w fe_ok_mono [of 101 _ 220] by simp_all
  note b = FeToBytes_correct [OF y(1)] and n = FeIsNegative_parity [OF x(1)]
  have "le_value (fst (FeToBytes ?y)) < 2 ^ 255"
    using b pos_mod_bound [of fe_prime "fe_value ?y"] by (simp add: fe_prime_def)
  from sign_bit_set [OF _ this, of "fst (FeIsNegative ?x)"]
  show "length (Projective_ToBytes p) = 32"
    "le_value (Projective_ToBytes p) = fe_value (pY p) * w mod fe_prime + 2 ^ 255 * (fe_value (pX p) * w mod fe_prime mod 2)"
    using b n x(2) y(2) by (auto simp: Projective_ToBytes_def Let_def odd_iff_mod_2_eq_one)
qed

lemma Extended_ToBytes_projective: "Extended_ToBytes p = Projective_ToBytes (Extended_ToProjective p)"
  by (simp add: Extended_ToBytes_def Projective_ToBytes_def Extended_ToProjective_def)

section \<open>Decoding\<close>

definition decode_exponent :: nat where
  "decode_exponent = 2 ^ 252 - 3"

lemma rep_pow: "rep m x f \<Longrightarrow> m \<le> 330 \<Longrightarrow> rep 101 (x ^ decode_exponent) (fePow22523 f)"
proof -
  assume x: "rep m x f" "m \<le> 330"
  then have "fe_power (fe_value f) 1 f"
    using fe_ok_mono by (auto simp: rep_def fe_power_def)
  from fePow22523_computes [OF this, folded decode_exponent_def]
  have "fe_ok 101 (fePow22523 f)" "fe_value (fePow22523 f) mod fe_prime = fe_value f ^ decode_exponent mod fe_prime"
    by (simp_all add: fe_computes_def)
  then show ?thesis
    using x residue_eq_iff [of "fe_value (fePow22523 f)" "fe_value f ^ decode_exponent"] by (auto simp: rep_def res_def)
qed

definition candidate_root :: "residue \<Rightarrow> residue \<Rightarrow> residue" where
  "candidate_root u v = u * v ^ 3 * (u * v ^ 7) ^ decode_exponent"

lemma decode_root_rep:
  assumes "rep 102 u f" "rep 102 v g"
  shows "rep 101 (candidate_root u v) (decode_root f g)"
proof -
  have v3: "rep 101 (v ^ 2 * v) (FeMul (FeSquare g) g)"
    by (rule assms rep_ops | (simp; fail))+
  have "rep 101 ((v ^ 2 * v) ^ 2 * v * u) (FeMul (FeMul (FeSquare (FeMul (FeSquare g) g)) g) f)"
    by (rule v3 assms rep_ops | (simp; fail))+
  then have "rep 101 (((v ^ 2 * v) ^ 2 * v * u) ^ decode_exponent)
      (fePow22523 (FeMul (FeMul (FeSquare (FeMul (FeSquare g) g)) g) f))"
    by (rule rep_pow) simp
  from rep_mul [OF rep_mul [OF this v3] assms(1)]
  have d: "rep 101 (((v ^ 2 * v) ^ 2 * v * u) ^ decode_exponent * (v ^ 2 * v) * u) (decode_root f g)"
    unfolding decode_root_def Let_def by simp
  have e: "(v ^ 2 * v) ^ 2 * v * u = u * v ^ 7" "v ^ 2 * v = v ^ 3"
    by (simp_all add: power_mult_distrib flip: power_mult power_Suc2 power_add)
  show ?thesis
    using d unfolding e(1) unfolding e(2) candidate_root_def by (simp add: ac_simps)
qed

lemma nonzero_test:
  "rep 220 x f \<Longrightarrow> fst (FeIsNonZero f) = 1 \<longleftrightarrow> x \<noteq> 0"
  using FeIsNonZero_residue [of f] residue_eq_iff [of "fe_value f" 0] by (auto simp: rep_def res_def)

lemma rep_from_bytes: "length s = 32 \<Longrightarrow> rep 101 (of_int (take_bit 255 (le_value s))) (FeFromBytes s)"
  using FeFromBytes_correct [of s] residue_eq_iff [of "fe_value (FeFromBytes s)" "take_bit 255 (le_value s)"]
  by (simp add: rep_def res_def)

lemma root_checks:
  assumes "rep 101 r x" "rep 102 u f" "rep 102 v g"
  shows "fst (FeIsNonZero (FeSub (FeMul (FeSquare x) g) f)) = 1 \<longleftrightarrow> r ^ 2 * v \<noteq> u"
    and "fst (FeIsNonZero (FeAdd (FeMul (FeSquare x) g) f)) = 1 \<longleftrightarrow> r ^ 2 * v \<noteq> - u"
proof -
  have vxx: "rep 101 (r ^ 2 * v) (FeMul (FeSquare x) g)"
    by (rule assms rep_ops | (simp; fail))+
  have "rep (101 + 102) (r ^ 2 * v - u) (FeSub (FeMul (FeSquare x) g) f)"
    "rep (101 + 102) (r ^ 2 * v + u) (FeAdd (FeMul (FeSquare x) g) f)"
    using rep_sub [OF vxx assms(2)] rep_add [OF vxx assms(2)] by simp_all
  then have t: "rep 220 (r ^ 2 * v - u) (FeSub (FeMul (FeSquare x) g) f)" "rep 220 (r ^ 2 * v + u) (FeAdd (FeMul (FeSquare x) g) f)"
    by (auto elim: rep_weaken)
  show "fst (FeIsNonZero (FeSub (FeMul (FeSquare x) g) f)) = 1 \<longleftrightarrow> r ^ 2 * v \<noteq> u"
    "fst (FeIsNonZero (FeAdd (FeMul (FeSquare x) g) f)) = 1 \<longleftrightarrow> r ^ 2 * v \<noteq> - u"
    using nonzero_test [OF t(1)] nonzero_test [OF t(2)] by (simp_all add: add_eq_0_iff2)
qed

text \<open>The root \<^verbatim>\<open>FromBytes\<close> settles on, before the sign is chosen.\<close>

lemma decoded_root:
  assumes "rep 101 r x" "rep 102 u f" "rep 102 v g"
    and "(if fst (FeIsNonZero (FeSub (FeMul (FeSquare x) g) f)) = 1
          then if fst (FeIsNonZero (FeAdd (FeMul (FeSquare x) g) f)) = 1 then None
               else Some (snd (FeToBytes (FeMul x SqrtM1)))
          else Some x) = Some x'"
  shows "\<exists>r'. rep 200 r' x' \<and> r' ^ 2 * v = u"
proof -
  note t = root_checks [OF assms(1 - 3)]
  show ?thesis
  proof (cases "r ^ 2 * v = u")
    case True
    then have "x' = x"
      using assms(4) t by simp
    then show ?thesis
      using True rep_weaken [OF assms(1), of 200] by auto
  next
    case False
    then have v: "r ^ 2 * v = - u" "x' = snd (FeToBytes (FeMul x SqrtM1))"
      using assms(4) t by (simp_all split: if_splits)
    have "rep 101 (r * res SqrtM1) (FeMul x SqrtM1)"
      using assms(1) rep_constants(5) by (rule rep_mul) simp_all
    then have "rep 200 (r * res SqrtM1) x'"
      using v(2) rep_reduced rep_weaken [of 101 _ _ 220] by simp
    moreover have "(r * res SqrtM1) ^ 2 * v = u"
      using v(1) by (simp add: power_mult_distrib)
    ultimately show ?thesis by blast
  qed
qed

lemma rep_curve_sides:
  assumes "length s = 32"
  defines "y \<equiv> of_int (take_bit 255 (le_value s))"
  shows "rep 102 (y ^ 2 - 1) (FeSub (FeSquare (FeFromBytes s)) FeOne)"
    and "rep 102 (y ^ 2 * res fe_d + 1) (FeAdd (FeMul (FeSquare (FeFromBytes s)) fe_d) FeOne)"
proof -
  note y = rep_from_bytes [OF assms(1), folded y_def]
  have "rep (101 + 1) (y ^ 2 - 1) (FeSub (FeSquare (FeFromBytes s)) FeOne)"
    "rep (101 + 1) (y ^ 2 * res fe_d + 1) (FeAdd (FeMul (FeSquare (FeFromBytes s)) fe_d) FeOne)"
    by ((rule y rep_constants rep_ops | (simp; fail))+)
  then show "rep 102 (y ^ 2 - 1) (FeSub (FeSquare (FeFromBytes s)) FeOne)"
    "rep 102 (y ^ 2 * res fe_d + 1) (FeAdd (FeMul (FeSquare (FeFromBytes s)) fe_d) FeOne)"
    by simp_all
qed

text \<open>The encodings \<^verbatim>\<open>FromBytes\<close> accepts: those whose candidate root is right up to a square root of \<open>-1\<close>.\<close>

lemma FromBytes_accepts:
  assumes "length s = 32"
  defines "y \<equiv> of_int (take_bit 255 (le_value s))"
  defines "u \<equiv> y ^ 2 - 1" and "v \<equiv> y ^ 2 * res fe_d + 1"
  shows "Extended_FromBytes s \<noteq> None \<longleftrightarrow> candidate_root u v ^ 2 * v = u \<or> candidate_root u v ^ 2 * v = - u"
  using root_checks [OF decode_root_rep [OF rep_curve_sides [OF assms(1)]] rep_curve_sides [OF assms(1)]]
  unfolding Extended_FromBytes_def Let_def u_def v_def y_def by (auto split: option.splits prod.splits)

lemma top_bit_byte: "drop_bit 7 (b :: byte) = (if bit b 7 then 1 else 0)"
proof (rule bit_word_eqI)
  fix n
  have "n = 0" if "bit b (7 + n)"
    using bit_imp_le_length [OF that] by simp
  then show "bit (drop_bit 7 b) n \<longleftrightarrow> bit (if bit b 7 then 1 else 0 :: byte) n"
    by (auto simp: bit_simps)
qed

text \<open>The choice of the sign: the element keeps its residue up to the sign and gets the wanted parity.\<close>

lemma chosen_sign:
  fixes b :: byte
  assumes "rep 200 r x"
  defines "x' \<equiv> (let (negative, x) = FeIsNegative x in if negative \<noteq> drop_bit 7 b then FeNeg x else x)"
  obtains r' where "rep 200 r' x'" "r' = r \<or> r' = - r"
    "r' \<noteq> 0 \<longrightarrow> (odd (fe_value x' mod fe_prime) \<longleftrightarrow> bit b 7)"
proof -
  let ?y = "snd (FeToBytes x)"
  have x: "rep 220 r x" using assms(1) by (rule rep_weaken) simp
  then have y: "rep 200 r ?y" and v: "fe_value ?y = fe_value x mod fe_prime"
    using rep_reduced FeToBytes_correct [of x] by (simp_all add: rep_def)
  have n: "FeIsNegative x = (if odd (fe_value x mod fe_prime) then 1 else 0, ?y)"
    using x FeIsNegative_parity by (simp add: rep_def)
  have m: "fe_value ?y mod fe_prime = fe_value x mod fe_prime"
    by (simp add: v)
  show thesis
  proof (cases "odd (fe_value x mod fe_prime) \<longleftrightarrow> bit b 7")
    case True
    then have "x' = ?y"
      by (simp add: x'_def n top_bit_byte)
    then show thesis
      using that [of r] y True m by simp
  next
    case False
    then have x': "x' = FeNeg ?y"
      by (auto simp: x'_def n top_bit_byte)
    have "fe_value x' = - (fe_value x mod fe_prime)"
      using FeNeg_correct [of 200 ?y] y by (simp add: x' v rep_def)
    moreover have "odd (- (fe_value x mod fe_prime) mod fe_prime) \<longleftrightarrow> even (fe_value x mod fe_prime)" if "r \<noteq> 0"
    proof -
      have "fe_value x mod fe_prime \<noteq> 0"
        using that x residue_eq_iff [of "fe_value x" 0] by (auto simp: rep_def res_def)
      then have "- (fe_value x mod fe_prime) mod fe_prime = fe_prime - fe_value x mod fe_prime"
        by (simp add: zmod_zminus1_eq_if)
      then show ?thesis
        by (simp add: fe_prime_def)
    qed
    ultimately show thesis
      using that [of "- r"] rep_neg [OF y] False by (auto simp: x')
  qed
qed

lemma FromBytes_point:
  assumes "length s = 32" "Extended_FromBytes s = Some p"
  defines "y \<equiv> of_int (take_bit 255 (le_value s))"
  obtains x where "extended x y 1 (x * y) p" "on_curve x y 1 (x * y)" "eZ p = FeOne" "eY p = FeFromBytes s"
    "x \<noteq> 0 \<longrightarrow> (odd (fe_value (eX p) mod fe_prime) \<longleftrightarrow> bit (s ! 31) 7)"
proof -
  let ?y = "FeFromBytes s"
  let ?u = "FeSub (FeSquare ?y) FeOne" and ?v = "FeAdd (FeMul (FeSquare ?y) fe_d) FeOne"
  have y: "rep 101 y ?y"
    unfolding y_def by (rule rep_from_bytes [OF assms(1)])
  note uv = rep_curve_sides [OF assms(1), folded y_def]
  note r = decode_root_rep [OF uv]
  let ?x = "decode_root ?u ?v"
  obtain x0 where x0: "(if fst (FeIsNonZero (FeSub (FeMul (FeSquare ?x) ?v) ?u)) = 1
          then if fst (FeIsNonZero (FeAdd (FeMul (FeSquare ?x) ?v) ?u)) = 1 then None
               else Some (snd (FeToBytes (FeMul ?x SqrtM1)))
          else Some ?x) = Some x0"
    and p: "p = (let (negative, x) = FeIsNegative x0;
                    x = (if negative \<noteq> drop_bit 7 (s ! 31) then FeNeg x else x)
                in \<lparr>eX = x, eY = ?y, eZ = FeOne, eT = FeMul x ?y\<rparr>)"
    using assms(2) unfolding Extended_FromBytes_def Let_def by (auto split: option.splits prod.splits)
  obtain r0 where r0: "rep 200 r0 x0" "r0 ^ 2 * (y ^ 2 * res fe_d + 1) = y ^ 2 - 1"
    using decoded_root [OF r uv x0] by blast
  have t: "eT p = FeMul (eX p) ?y" "eY p = ?y" "eZ p = FeOne"
    and e: "eX p = (let (negative, x) = FeIsNegative x0 in if negative \<noteq> drop_bit 7 (s ! 31) then FeNeg x else x)"
    by (simp_all add: p Let_def split: prod.split)
  obtain x where x: "rep 200 x (eX p)" "x = r0 \<or> x = - r0"
    "x \<noteq> 0 \<longrightarrow> (odd (fe_value (eX p) mod fe_prime) \<longleftrightarrow> bit (s ! 31) 7)"
    by (rule chosen_sign [OF r0(1), where b = "s ! 31", folded e])
  show thesis
  proof (rule that)
    show "extended x y 1 (x * y) p"
      using x(1) y t rep_constants(2) rep_mul [OF x(1) y] by (simp add: extended_def rep_weaken)
    have "x ^ 2 = r0 ^ 2" using x(2) by auto
    then show "on_curve x y 1 (x * y)"
      using r0(2) by (simp add: on_curve_def power_mult_distrib algebra_simps)
  qed (use x t in auto)
qed

section \<open>The addition law\<close>

text \<open>
  Points as quadruples of residues, and the unified addition law of the twisted Edwards curve in
  these coordinates: \<open>x\<^sub>3 = (x\<^sub>1 y\<^sub>2 + x\<^sub>2 y\<^sub>1) / (1 + d x\<^sub>1 x\<^sub>2 y\<^sub>1 y\<^sub>2)\<close> and
  \<open>y\<^sub>3 = (y\<^sub>1 y\<^sub>2 + x\<^sub>1 x\<^sub>2) / (1 - d x\<^sub>1 x\<^sub>2 y\<^sub>1 y\<^sub>2)\<close> with \<open>x = X / Z\<close>, \<open>y = Y / Z\<close>.
\<close>

type_synonym point = "residue \<times> residue \<times> residue \<times> residue"

definition edwards_add :: "point \<Rightarrow> point \<Rightarrow> point" where
  "edwards_add = (\<lambda>(x1, y1, z1, t1) (x2, y2, z2, t2).
     let e = 2 * (x1 * y2 + x2 * y1); h = 2 * (y1 * y2 + x1 * x2);
         g = 2 * (z1 * z2 + res fe_d * t1 * t2); f = 2 * (z1 * z2 - res fe_d * t1 * t2)
     in (e * f, h * g, g * f, e * h))"

definition edwards_neg :: "point \<Rightarrow> point" where
  "edwards_neg = (\<lambda>(x, y, z, t). (- x, y, z, - t))"

definition edwards_scale :: "residue \<Rightarrow> point \<Rightarrow> point" where
  "edwards_scale c = (\<lambda>(x, y, z, t). (c * x, c * y, c * z, c * t))"

definition curve_point :: "point \<Rightarrow> ExtendedGroupElement \<Rightarrow> bool" where
  "curve_point P p \<longleftrightarrow> (case P of (x, y, z, t) \<Rightarrow> extended x y z t p \<and> on_curve x y z t)"

lemma curve_point_add:
  assumes "curve_point P p" "curve_point Q q"
  shows "curve_point (edwards_add P Q) (Completed_ToExtended (geAdd p (Extended_ToCached q)))"
    and "curve_point (edwards_add P (edwards_neg Q)) (Completed_ToExtended (geSub p (Extended_ToCached q)))"
proof -
  obtain x1 y1 z1 t1 x2 y2 z2 t2 where PQ: "P = (x1, y1, z1, t1)" "Q = (x2, y2, z2, t2)"
    by (metis prod_cases4)
  have p: "extended x1 y1 z1 t1 p" "on_curve x1 y1 z1 t1" and q: "extended x2 y2 z2 t2 q" "on_curve x2 y2 z2 t2"
    using assms by (simp_all add: PQ curve_point_def)
  note add = geAdd_formulas [OF p(1) conversions(1) [OF q(1)]]
    and sub = geSub_formulas [OF p(1) conversions(1) [OF q(1)]]
  show "curve_point (edwards_add P Q) (Completed_ToExtended (geAdd p (Extended_ToCached q)))"
    using conversions(4) [OF add] extended_on_curve [OF add_on_curve [OF p(2) q(2)]]
    by (simp add: PQ curve_point_def edwards_add_def Let_def)
  show "curve_point (edwards_add P (edwards_neg Q)) (Completed_ToExtended (geSub p (Extended_ToCached q)))"
    using conversions(4) [OF sub] extended_on_curve [OF sub_on_curve [OF p(2) q(2)]]
    by (simp add: PQ curve_point_def edwards_add_def edwards_neg_def Let_def)
qed

lemma curve_point_mixed:
  assumes "curve_point P p" "precomputed_point x y q" "on_curve x y 1 (x * y)"
  shows "curve_point (edwards_add P (x, y, 1, x * y)) (Completed_ToExtended (geMixedAdd p q))"
    and "curve_point (edwards_add P (edwards_neg (x, y, 1, x * y))) (Completed_ToExtended (geMixedSub p q))"
proof -
  obtain x1 y1 z1 t1 where P: "P = (x1, y1, z1, t1)"
    by (metis prod_cases4)
  have p: "extended x1 y1 z1 t1 p" "on_curve x1 y1 z1 t1"
    using assms by (simp_all add: P curve_point_def)
  note add = geMixedAdd_formulas [OF p(1) assms(2)] and sub = geMixedSub_formulas [OF p(1) assms(2)]
  show "curve_point (edwards_add P (x, y, 1, x * y)) (Completed_ToExtended (geMixedAdd p q))"
    using conversions(4) [OF add] extended_on_curve [OF add_on_curve [OF p(2) assms(3)]]
    by (simp add: P curve_point_def edwards_add_def Let_def)
  show "curve_point (edwards_add P (edwards_neg (x, y, 1, x * y))) (Completed_ToExtended (geMixedSub p q))"
    using conversions(4) [OF sub] extended_on_curve [OF sub_on_curve [OF p(2) assms(3)]]
    by (simp add: P curve_point_def edwards_add_def edwards_neg_def Let_def)
qed

text \<open>The dedicated doubling formulas agree with the addition of a point to itself, up to the scale \<open>4\<close>.\<close>

definition edwards_double :: "point \<Rightarrow> point" where
  "edwards_double = (\<lambda>(x, y, z, t).
     let e = 2 * x * y; h = y ^ 2 + x ^ 2; g = y ^ 2 - x ^ 2; f = 2 * z ^ 2 - g
     in (e * f, h * g, g * f, e * h))"

lemma double_is_addition:
  assumes "on_curve x y z t"
  shows "edwards_add (x, y, z, t) (x, y, z, t) = edwards_scale 4 (edwards_double (x, y, z, t))"
proof -
  define g where "g = y ^ 2 - x ^ 2"
  have "g = z ^ 2 + res fe_d * t ^ 2"
    using assms by (simp add: on_curve_def g_def)
  then have c: "2 * (z * z + res fe_d * t * t) = 2 * g" "2 * (z * z - res fe_d * t * t) = 2 * (2 * z ^ 2 - g)"
    by (simp_all add: power2_eq_square)
  show ?thesis
    unfolding edwards_add_def edwards_double_def edwards_scale_def g_def [symmetric] Let_def prod.case c
    by (simp add: power2_eq_square algebra_simps)
qed

lemma curve_point_double:
  assumes "curve_point P p"
  shows "curve_point (edwards_double P) (Completed_ToExtended (Extended_Double p))"
proof -
  obtain x y z t where P: "P = (x, y, z, t)"
    by (metis prod_cases4)
  have p: "extended x y z t p" "on_curve x y z t"
    using assms by (simp_all add: P curve_point_def)
  show ?thesis
    using conversions(4) [OF Projective_Double_formulas [OF conversions(2) [OF p(1)]]]
      extended_on_curve [OF double_on_curve [OF curve_projective [OF p(2)]]]
    by (simp add: P curve_point_def edwards_double_def Extended_Double_def Let_def)
qed

section \<open>Properties\<close>

lemma zero_point: "curve_point (0, 1, 1, 0) Extended_Zero"
  using rep_constants(1, 2) rep_weaken [OF rep_constants(1)] rep_weaken [OF rep_constants(2)]
  by (simp add: curve_point_def extended_def on_curve_def Extended_Zero_def)

lemma order_four_point: "curve_point (res SqrtM1, 0, 1, 0) \<lparr>eX = SqrtM1, eY = FeZero, eZ = FeOne, eT = FeZero\<rparr>"
  using rep_weaken [OF rep_constants(1)] rep_weaken [OF rep_constants(2)] rep_weaken [OF rep_constants(5)]
  by (simp add: curve_point_def extended_def on_curve_def)

text \<open>
  C19. The group operations refine the unified addition law of the curve: on points of the curve,
  \<^verbatim>\<open>geAdd\<close>, \<^verbatim>\<open>geSub\<close> and \<^verbatim>\<open>Double\<close> give points of the curve within the digit bounds the next
  operation needs, namely the sum, the difference and, up to the common factor 4 of the projective
  coordinates, the sum of a point with itself. No case is excluded: equal, opposite and neutral
  points go through the same formulas.
\<close>

theorem group_law:
  assumes "curve_point P p" "curve_point Q q"
  shows "curve_point (edwards_add P Q) (Completed_ToExtended (geAdd p (Extended_ToCached q)))
    \<and> curve_point (edwards_add P (edwards_neg Q)) (Completed_ToExtended (geSub p (Extended_ToCached q)))
    \<and> curve_point (edwards_double P) (Completed_ToExtended (Extended_Double p))
    \<and> edwards_add P P = edwards_scale 4 (edwards_double P)"
proof -
  obtain x y z t where "P = (x, y, z, t)" "on_curve x y z t"
    using assms(1) by (auto simp: curve_point_def)
  then show ?thesis
    using curve_point_add [OF assms] curve_point_double [OF assms(1)] double_is_addition by simp
qed

theorem group_law_witness:
  "let p = \<lparr>eX = SqrtM1, eY = FeZero, eZ = FeOne, eT = FeZero\<rparr>
   in curve_point (0, - 4, 4, 0) (Completed_ToExtended (geAdd p (Extended_ToCached p)))"
proof -
  have "edwards_add (res SqrtM1, 0, 1, 0) (res SqrtM1, 0, 1, 0) = (0, - 4, 4, 0)"
    by (simp add: edwards_add_def flip: power2_eq_square)
  with group_law [OF order_four_point order_four_point, THEN conjunct1] show ?thesis
    by (simp add: Let_def)
qed

lemma encoded_parts: "length s = 32 \<Longrightarrow> le_value s = take_bit 255 (le_value s) + 2 ^ 255 * of_bool (bit (s ! 31) 7)"
  using take_bit_Suc_from_most [of 255 "le_value s"] le_value_less [of s]
  by (simp add: take_bit_int_eq_self bit_le_value)

lemma extended_zero: "extended x y z t p \<Longrightarrow> x = 0 \<longleftrightarrow> fe_value (eX p) mod fe_prime = 0"
  using residue_eq_iff [of "fe_value (eX p)" 0] by (auto simp: extended_def rep_def res_def)

text \<open>
  C20. Decoding a point: an accepted encoding gives a point of the curve with the encoded
  \<open>y\<close>-coordinate, in affine form. When the \<open>y\<close>-coordinate was written in reduced form and the sign bit
  is not set for a zero \<open>x\<close>-coordinate, encoding the point gives the same 32 bytes back.
\<close>

theorem point_round_trip:
  assumes "length s = 32" "Extended_FromBytes s = Some p"
  shows "(\<exists>x. curve_point (x, of_int (take_bit 255 (le_value s)), 1, x * of_int (take_bit 255 (le_value s))) p)
    \<and> (take_bit 255 (le_value s) < fe_prime \<longrightarrow> fe_value (eX p) mod fe_prime \<noteq> 0 \<or> \<not> bit (s ! 31) 7
        \<longrightarrow> Extended_ToBytes p = s)"
proof -
  let ?y = "take_bit 255 (le_value s)"
  obtain x where x: "extended x (of_int ?y) 1 (x * of_int ?y) p" "on_curve x (of_int ?y) 1 (x * of_int ?y)"
    "eZ p = FeOne" "eY p = FeFromBytes s"
    "x \<noteq> 0 \<longrightarrow> (odd (fe_value (eX p) mod fe_prime) \<longleftrightarrow> bit (s ! 31) 7)"
    by (rule FromBytes_point [OF assms])
  have "Extended_ToBytes p = s"
    if y: "?y < fe_prime" and b: "fe_value (eX p) mod fe_prime \<noteq> 0 \<or> \<not> bit (s ! 31) 7"
  proof (rule le_value_inject)
    have ok: "fe_ok 330 (pX (Extended_ToProjective p))" "fe_ok 330 (pY (Extended_ToProjective p))" "fe_ok 330 (pZ (Extended_ToProjective p))"
      using conversions(2) [OF x(1)] by (auto simp: projective_def rep_def intro: fe_ok_mono)
    note e = Projective_ToBytes_value [OF ok, folded Extended_ToBytes_projective]
    show "length (Extended_ToBytes p) = length s"
      by (simp add: e(1) assms(1))
    have sign: "fe_value (eX p) mod fe_prime mod 2 = of_bool (bit (s ! 31) 7)"
      using b x(5) extended_zero [OF x(1)] by (auto simp: odd_iff_mod_2_eq_one)
    have "fe_value (eY p) mod fe_prime = ?y"
      using y FeFromBytes_correct [OF assms(1)] by (simp add: x(4))
    with sign have "le_value (Extended_ToBytes p) = ?y + 2 ^ 255 * of_bool (bit (s ! 31) 7)"
      by (simp add: e(2) Extended_ToProjective_def x(3) fe_constants(10))
    then show "le_value (Extended_ToBytes p) = le_value s"
      by (subst encoded_parts [OF assms(1)])
  qed
  then show ?thesis
    using x(1, 2) by (auto simp: curve_point_def)
qed

lemma order_four_accepted: "Extended_FromBytes (replicate 32 0) \<noteq> None"
proof -
  have "le_value (replicate n 0) = 0" for n
    by (induction n) simp_all
  moreover have "odd decode_exponent"
    by (simp add: decode_exponent_def)
  ultimately show ?thesis
    using FromBytes_accepts [of "replicate 32 0"] by (simp add: candidate_root_def)
qed

theorem point_round_trip_witness:
  "\<exists>p. Extended_FromBytes (replicate 32 0) = Some p \<and> Extended_ToBytes p = replicate 32 0"
proof -
  have "le_value (replicate n 0) = 0" for n
    by (induction n) simp_all
  moreover obtain p where p: "Extended_FromBytes (replicate 32 0) = Some p"
    using order_four_accepted by auto
  ultimately show ?thesis
    using point_round_trip [OF _ p] by (simp add: fe_prime_def)
qed

end
