(* ===== verification/Ed25519_Mult.thy ===== *)
theory Ed25519_Mult
  imports Ed25519_Table
begin

text \<open>
  Scalar multiplication: the second half of \<^verbatim>\<open>crypto/ed25519/internal/edwards25519/group.go\<close>. The
  scalars are recoded as signed digits, in \<^verbatim>\<open>slide\<close> with a window of five bits and in
  \<^verbatim>\<open>GeScalarMultBase\<close> in radix 16, and drive a schedule of doublings and additions. The recodings are
  shown exact, and the schedules are shown to compute the multiples in every commutative group.
\<close>

section \<open>Operations\<close>

type_synonym int8 = "8 word"

text \<open>\<^verbatim>\<open>slide\<close>: the inner loop that carries, the loop over the window and the loop over the bits.\<close>

function slide_carry :: "nat \<Rightarrow> int8 list \<Rightarrow> int8 list" where
  "slide_carry k r =
     (if k < 256 then if r ! k = 0 then r[k := 1] else slide_carry (Suc k) (r[k := 0]) else r)"
  by pat_completeness auto

termination
  by (relation "measure (\<lambda>(k, r). 256 - k)") auto

function slide_window :: "nat \<Rightarrow> nat \<Rightarrow> int8 list \<Rightarrow> int8 list" where
  "slide_window i b r =
     (if b \<le> 6 \<and> i + b < 256 then
        if r ! (i + b) = 0 then slide_window i (Suc b) r
        else if sint (r ! i + push_bit b (r ! (i + b))) \<le> 15 then
          slide_window i (Suc b) (r[i := r ! i + push_bit b (r ! (i + b)), i + b := 0])
        else if sint (r ! i - push_bit b (r ! (i + b))) \<ge> - 15 then
          slide_window i (Suc b) (slide_carry (i + b) (r[i := r ! i - push_bit b (r ! (i + b))]))
        else r
      else r)"
  by pat_completeness auto

termination
  by (relation "measure (\<lambda>(i, b, r). 7 - b)") auto

declare slide_carry.simps [simp del] slide_window.simps [simp del]

definition slide_bits :: "bytes \<Rightarrow> int8 list" where
  "slide_bits a = map (\<lambda>i. 1 AND drop_bit (i mod 8) (a ! (i div 8))) [0..<256]"

definition slide :: "bytes \<Rightarrow> int8 list" where
  "slide a = fold (\<lambda>i r. if r ! i = 0 then r else slide_window i 1 r) [0..<256] (slide_bits a)"

definition multiples_step :: "ExtendedGroupElement \<Rightarrow> nat \<Rightarrow> CachedGroupElement list \<Rightarrow> CachedGroupElement list" where
  "multiples_step A2 i Ai =
     (let t = geAdd A2 (Ai ! i);
          u = Completed_ToExtended t
      in Ai @ [Extended_ToCached u])"

definition odd_multiples :: "ExtendedGroupElement \<Rightarrow> CachedGroupElement list" where
  "odd_multiples A =
     (let t = Extended_Double A;
          A2 = Completed_ToExtended t
      in fold (multiples_step A2) [0..<7] [Extended_ToCached A])"

text \<open>\<open>top_digit a b n\<close> is one more than the last index below \<open>n\<close> with a non-zero digit, 0 if there is none.\<close>

fun top_digit :: "int8 list \<Rightarrow> int8 list \<Rightarrow> nat \<Rightarrow> nat" where
  "top_digit a b 0 = 0"
| "top_digit a b (Suc i) = (if a ! i \<noteq> 0 \<or> b ! i \<noteq> 0 then Suc i else top_digit a b i)"

definition add_cached_digit :: "CachedGroupElement list \<Rightarrow> int8 \<Rightarrow> CompletedGroupElement \<Rightarrow> CompletedGroupElement" where
  "add_cached_digit Ai d t =
     (if sint d > 0 then geAdd (Completed_ToExtended t) (Ai ! (unat d div 2))
      else if sint d < 0 then geSub (Completed_ToExtended t) (Ai ! (unat (- d) div 2))
      else t)"

definition add_base_digit :: "int8 \<Rightarrow> CompletedGroupElement \<Rightarrow> CompletedGroupElement" where
  "add_base_digit d t =
     (if sint d > 0 then geMixedAdd (Completed_ToExtended t) (bi ! (unat d div 2))
      else if sint d < 0 then geMixedSub (Completed_ToExtended t) (bi ! (unat (- d) div 2))
      else t)"

definition GeDoubleScalarMultVartime :: "bytes \<Rightarrow> ExtendedGroupElement \<Rightarrow> bytes \<Rightarrow> ProjectiveGroupElement" where
  "GeDoubleScalarMultVartime a A b =
     (let aSlide = slide a;
          bSlide = slide b;
          Ai = odd_multiples A;
          n = top_digit aSlide bSlide 256
      in fold (\<lambda>i r. Completed_ToProjective
                  (add_base_digit (bSlide ! i) (add_cached_digit Ai (aSlide ! i) (Projective_Double r))))
           (rev [0..<n]) Projective_Zero)"

definition equal :: "int32 \<Rightarrow> int32 \<Rightarrow> int32" where
  "equal b c = drop_bit 31 ((b XOR c) - 1)"

definition negative :: "int32 \<Rightarrow> int32" where
  "negative b = signed_drop_bit 31 b AND 1"

definition PreComputedGroupElementCMove :: "PreComputedGroupElement \<Rightarrow> PreComputedGroupElement \<Rightarrow> int32 \<Rightarrow> PreComputedGroupElement" where
  "PreComputedGroupElementCMove t u b =
     \<lparr>yPlusX = FeCMove (yPlusX t) (yPlusX u) b, yMinusX = FeCMove (yMinusX t) (yMinusX u) b,
      xy2d = FeCMove (xy2d t) (xy2d u) b\<rparr>"

definition selectPoint :: "nat \<Rightarrow> int32 \<Rightarrow> PreComputedGroupElement" where
  "selectPoint pos b =
     (let bNegative = negative b;
          bAbs = b - push_bit 1 ((- bNegative) AND b);
          t = fold (\<lambda>i t. PreComputedGroupElementCMove t (base ! pos ! i) (equal bAbs (of_nat i + 1))) [0..<8] PreComputed_Zero;
          minusT = \<lparr>yPlusX = yMinusX t, yMinusX = yPlusX t, xy2d = FeNeg (xy2d t)\<rparr>
      in PreComputedGroupElementCMove t minusT bNegative)"

text \<open>The digits of \<^verbatim>\<open>GeScalarMultBase\<close>: half bytes, then the carries.\<close>

definition nibbles :: "bytes \<Rightarrow> int8 list" where
  "nibbles a = concat (map (\<lambda>v. [v AND 15, drop_bit 4 v AND 15]) a)"

definition recode_step :: "nat \<Rightarrow> int8 list \<times> int8 \<Rightarrow> int8 list \<times> int8" where
  "recode_step i = (\<lambda>(e, carry).
     let e = e[i := e ! i + carry];
         carry = signed_drop_bit 4 (e ! i + 8);
         e = e[i := e ! i - push_bit 4 carry]
     in (e, carry))"

definition recode :: "bytes \<Rightarrow> int8 list" where
  "recode a = (let (e, carry) = fold recode_step [0..<63] (nibbles a, 0) in e[63 := e ! 63 + carry])"

definition add_selected :: "int8 list \<Rightarrow> nat \<Rightarrow> ExtendedGroupElement \<Rightarrow> ExtendedGroupElement" where
  "add_selected e i h =
     (let t = selectPoint (i div 2) (scast (e ! i));
          r = geMixedAdd h t
      in Completed_ToExtended r)"

definition times_sixteen :: "ExtendedGroupElement \<Rightarrow> ExtendedGroupElement" where
  "times_sixteen h =
     (let r = Extended_Double h;
          s = Completed_ToProjective r;
          r = Projective_Double s;
          s = Completed_ToProjective r;
          r = Projective_Double s;
          s = Completed_ToProjective r;
          r = Projective_Double s
      in Completed_ToExtended r)"

definition odd_indices :: "nat list" where
  "odd_indices = map (\<lambda>k. 2 * k + 1) [0..<32]"

definition even_indices :: "nat list" where
  "even_indices = map (\<lambda>k. 2 * k) [0..<32]"

definition GeScalarMultBase :: "bytes \<Rightarrow> ExtendedGroupElement" where
  "GeScalarMultBase a =
     (let e = recode a;
          h = fold (add_selected e) odd_indices Extended_Zero;
          h = times_sixteen h
      in fold (add_selected e) even_indices h)"

section \<open>The window recoding\<close>

text \<open>
  The reference: at an odd number take the signed remainder modulo 32 as the digit, at an even number
  0, and go on with the half of the rest.
\<close>

fun naf :: "nat \<Rightarrow> int \<Rightarrow> int list" where
  "naf 0 N = []"
| "naf (Suc n) N =
     (if even N then 0 # naf n (N div 2)
      else let d = (N + 16) mod 32 - 16 in d # naf n ((N - d) div 2))"

definition bits :: "nat \<Rightarrow> int \<Rightarrow> int8 list" where
  "bits n N = map (\<lambda>k. of_bool (bit N k)) [0..<n]"

fun incr :: "int8 list \<Rightarrow> int8 list" where
  "incr [] = []"
| "incr (b # bs) = (if b = 0 then 1 # bs else 0 # incr bs)"

lemma length_bits [simp]: "length (bits n N) = n"
  by (simp add: bits_def)

lemma bits_0 [simp]: "bits 0 N = []"
  by (simp add: bits_def)

lemma bits_Suc: "bits (Suc n) N = of_bool (odd N) # bits n (N div 2)"
  by (rule nth_equalityI) (auto simp: bits_def nth_Cons bit_0 bit_Suc simp del: upt_Suc split: nat.splits)

lemma incr_bits: "incr (bits n N) = bits n (N + 1)"
proof (induction n arbitrary: N)
  case (Suc n)
  have "(N + 1) div 2 = (if odd N then N div 2 + 1 else N div 2)"
    by presburger
  then show ?case
    using Suc by (auto simp: bits_Suc)
qed simp

lemma slide_carry_incr:
  "length ds + length bs = 256 \<Longrightarrow> slide_carry (length ds) (ds @ bs) = ds @ incr bs"
proof (induction bs arbitrary: ds)
  case (Cons b bs)
  show ?case
  proof (cases "b = 0")
    case False
    have "slide_carry (length ds) (ds @ b # bs) = slide_carry (length (ds @ [0])) ((ds @ [0]) @ bs)"
      using Cons.prems False by (simp add: slide_carry.simps [of "length ds"])
    also have "\<dots> = (ds @ [0]) @ incr bs"
      using Cons.prems by (intro Cons.IH) simp
    finally show ?thesis using False by simp
  qed (use Cons.prems in \<open>simp add: slide_carry.simps\<close>)
qed (simp add: slide_carry.simps)

text \<open>Beyond four bits the window cannot grow: the sum and the difference leave the range.\<close>

lemma slide_window_stop:
  assumes "5 \<le> b" "\<bar>sint (r ! i)\<bar> \<le> 15" "\<And>k. i < k \<Longrightarrow> k < 256 \<Longrightarrow> r ! k = 0 \<or> r ! k = 1"
  shows "slide_window i b r = r"
  using assms
proof (induction i b r rule: slide_window.induct)
  case (1 i b r)
  show ?case
  proof (cases "b \<le> 6 \<and> i + b < 256 \<and> r ! (i + b) \<noteq> 0")
    case True
    then have bit: "r ! (i + b) = 1" and b: "b = 5 \<or> b = 6"
      using 1(4) 1(6) [of "i + b"] by auto
    obtain d where d: "r ! i = word_of_int d" "- 15 \<le> d" "d \<le> 15"
      using that [of "sint (r ! i)"] 1(5) by (simp add: abs_le_iff)
    have "sint (word_of_int x :: int8) = x" if "- 128 \<le> x" "x < 128" for x
      using that by (simp add: sint_of_int_word in_word_def)
    from this [of "d + 32"] this [of "d - 32"] this [of "d + 64"] this [of "d - 64"] show ?thesis
      using True d b by (auto simp: slide_window.simps [of i b] bit)
  qed (use 1 in \<open>auto simp: slide_window.simps [of i b]\<close>)
qed

lemma slide_window_adds:
  assumes "length ds + (m + 4) = 256" "odd N"
  shows "slide_window (length ds) 1 (ds @ bits (m + 4) N)
    = slide_window (length ds) 4 (ds @ word_of_int (N mod 16) # 0 # 0 # 0 # bits m (N div 16))"
proof -
  have n: "m + 4 = Suc (Suc (Suc (Suc m)))" by simp
  have h: "N div 2 div 2 = N div 4" "N div 4 div 2 = N div 8" "N div 8 div 2 = N div 16"
    by (simp_all add: div_mult2_eq [symmetric])
  have "(16 :: int) = 2 * 8" "(8 :: int) = 2 * 4" "(4 :: int) = 2 * 2" by simp_all
  note e = this
  have step: "M mod 16 = 2 * (M div 2 mod 8) + M mod 2" "M mod 8 = 2 * (M div 2 mod 4) + M mod 2"
    "M mod 4 = 2 * (M div 2 mod 2) + M mod 2" for M :: int
    by (subst e(1), rule zmod_zmult2_eq, simp) (subst e(2), rule zmod_zmult2_eq, simp, subst e(3), rule zmod_zmult2_eq, simp)
  note step(1) [of N] step(2) [of "N div 2"] step(3) [of "N div 2 div 2"]
  moreover have "a = c + 2 * e + 4 * g + 8 * f" if "a = 2 * b + c" "b = 2 * d + e" "d = 2 * f + g" for a b c d e f g :: int
    using that by simp
  ultimately have "N mod 16 = N mod 2 + 2 * (N div 2 mod 2) + 4 * (N div 2 div 2 mod 2) + 8 * (N div 2 div 2 div 2 mod 2)"
    by blast
  then have w: "N mod 16 = 1 + 2 * of_bool (odd (N div 2)) + 4 * of_bool (odd (N div 4)) + 8 * of_bool (odd (N div 8))"
    using assms(2) [unfolded odd_iff_mod_2_eq_one] by (simp only: h of_bool_odd_eq_mod_2)
  show ?thesis
    using assms(1) by (simp add: n bits_Suc assms(2) h w slide_window.simps [of _ "Suc 0"]
      slide_window.simps [of _ "Suc (Suc 0)"] slide_window.simps [of _ "Suc (Suc (Suc 0))"] nth_append list_update_append
      eval_nat_numeral)
qed

text \<open>The window: the digit is the signed remainder, and the bits above hold the rest.\<close>

lemma bits_zeros: "bits (n + 3) (8 * M) = 0 # 0 # 0 # bits n M"
proof -
  have "bits (Suc (Suc (Suc n))) (8 * M) = 0 # 0 # 0 # bits n M"
    by (simp add: bits_Suc)
  then show ?thesis
    by (simp add: numeral_3_eq_3)
qed

lemma bits_bit: "k < n \<Longrightarrow> bits n N ! k = 0 \<or> bits n N ! k = 1"
  by (simp add: bits_def)

lemma slide_window_digit:
  assumes "length ds + (m + 4) = 256" "odd N" "m = 0 \<longrightarrow> even (N div 16)"
  defines "d \<equiv> (N + 16) mod 32 - 16"
  shows "slide_window (length ds) 1 (ds @ bits (m + 4) N) = ds @ word_of_int d # bits (m + 3) ((N - d) div 2)"
proof -
  define M w where "M = N div 16" and "w = N mod 16"
  have N: "N = 16 * M + w" "0 \<le> w" "w < 16" "odd w"
    using assms(2) by (simp_all add: M_def w_def) presburger
  have small: "sint (word_of_int x :: int8) = x" if "- 128 \<le> x" "x < 128" for x
    using that by (simp add: sint_of_int_word in_word_def)
  have stop: "slide_window (length ds) 5 (ds @ word_of_int x # 0 # 0 # 0 # bits m K) = ds @ word_of_int x # bits (m + 3) (8 * K)"
    if "\<bar>x\<bar> \<le> 15" for x K
    unfolding bits_zeros using that assms(1) bits_bit [of _ m K]
    by (intro slide_window_stop) (auto simp: nth_append small nth_Cons' abs_le_iff)
  have adds: "slide_window (length ds) 1 (ds @ bits (m + 4) N)
      = slide_window (length ds) 4 (ds @ word_of_int w # 0 # 0 # 0 # bits m M)"
    using slide_window_adds [OF assms(1, 2)] by (simp add: w_def M_def)
  show ?thesis
  proof (cases "even M")
    case True
    then obtain K where K: "M = 2 * K" by blast
    have "N + 16 = (w + 16) + K * 32"
      by (simp add: N(1) K)
    then have "(N + 16) mod 32 = w + 16"
      using N by (simp only: mod_mult_self1) simp
    then have d: "d = w" "(N - d) div 2 = 8 * M"
      unfolding d_def using N by simp_all
    have "bits m M ! 0 = 0" if "0 < m"
      using True that by (simp add: bits_def bit_0)
    then have "slide_window (length ds) 4 (ds @ word_of_int w # 0 # 0 # 0 # bits m M)
        = slide_window (length ds) 5 (ds @ word_of_int w # 0 # 0 # 0 # bits m M)"
      using assms(1) by (cases "m = 0") (auto simp: slide_window.simps [of _ 4] slide_window.simps [of _ 5] nth_append)
    then show ?thesis
      unfolding adds d using stop [of w M] N by simp
  next
    case False
    then obtain K where K: "M = 2 * K + 1" by (metis oddE)
    have "N + 16 = w + (K + 1) * 32"
      by (simp add: N(1) K)
    then have "(N + 16) mod 32 = w"
      using N by (simp only: mod_mult_self1) simp
    then have d: "d = w - 16" "(N - d) div 2 = 8 * (M + 1)"
      unfolding d_def using N by simp_all
    have m: "0 < m"
      using False assms(3) by (auto simp: M_def)
    have b: "bits m M ! 0 = 1"
      using False m by (simp add: bits_def bit_0)
    have "1 \<le> w" using N by (cases "w = 0") auto
    then have s: "sint (word_of_int w + push_bit 4 1 :: int8) = w + 16" "sint (word_of_int w - push_bit 4 1 :: int8) = w - 16"
      using small [of "w + 16"] small [of "w - 16"] N by simp_all
    have "slide_window (length ds) 4 (ds @ word_of_int w # 0 # 0 # 0 # bits m M)
        = slide_window (length ds) 5 (slide_carry (length ds + 4) (ds @ word_of_int d # 0 # 0 # 0 # bits m M))"
      using assms(1) m b s \<open>1 \<le> w\<close> by (simp add: slide_window.simps [of _ 4] nth_append list_update_append d)
    also have "slide_carry (length ds + 4) (ds @ word_of_int d # 0 # 0 # 0 # bits m M) = ds @ word_of_int d # 0 # 0 # 0 # bits m (M + 1)"
      using slide_carry_incr [of "ds @ [word_of_int d, 0, 0, 0]" "bits m M"] assms(1)
      by (simp add: incr_bits eval_nat_numeral(2, 3))
    finally show ?thesis
      unfolding adds d(2) using stop [of d "M + 1"] d(1) N \<open>1 \<le> w\<close> by simp
  qed
qed

lemma slide_window_last:
  assumes "length ds + n = 256" "0 < n" "N = 1"
  shows "slide_window (length ds) 1 (ds @ bits n N) = ds @ bits n N"
proof -
  have z: "(ds @ bits n N) ! k = 0" if "length ds < k" "k < 256" for k
    using that assms by (simp add: bits_def nth_append bit_1_iff)
  have "slide_window (length ds) b (ds @ bits n N) = ds @ bits n N" if "0 < b" for b
    using that
  proof (induction "7 - b" arbitrary: b)
    case (Suc j)
    then show ?case
      using z [of "length ds + b"] by (simp add: slide_window.simps [of _ b])
  qed (simp add: slide_window.simps)
  then show ?thesis by simp
qed

text \<open>One step of the outer loop, for a remaining number that leaves room for the carry.\<close>

lemma slide_step:
  assumes "length ds + Suc n = 256" "0 \<le> N" "N \<le> 2 ^ (n - 2)" "n < 2 \<longrightarrow> N = 0"
  defines "d \<equiv> (if even N then 0 else (N + 16) mod 32 - 16)"
  shows "(let r = ds @ bits (Suc n) N in if r ! length ds = 0 then r else slide_window (length ds) 1 r)
    = (ds @ [word_of_int d]) @ bits n ((N - d) div 2)"
proof (cases "even N")
  case True
  then show ?thesis
    by (simp add: d_def bits_Suc nth_append)
next
  case False
  then have "bits (Suc n) N ! 0 = 1" by (simp add: bits_Suc)
  then have r: "(ds @ bits (Suc n) N) ! length ds = 1" by (simp add: nth_append)
  show ?thesis
  proof (cases "n < 3")
    case True
    then have "N = 1"
      using False assms by (cases "n = 2") (auto simp: le_less)
    then show ?thesis
      using slide_window_last [OF assms(1)] r by (simp add: d_def bits_Suc)
  next
    case n: False
    then obtain m where m: "n = m + 3" by (metis add.commute le_Suc_ex not_less)
    have "even (N div 16)" if "m = 0"
      using assms(2,3) that m by simp
    then show ?thesis
      using slide_window_digit [of ds m N] False assms(1) r by (simp add: d_def m add.commute)
  qed
qed

text \<open>The numbers for which the carry of the first \<open>n\<close> bits is never lost.\<close>

definition fits :: "nat \<Rightarrow> int \<Rightarrow> bool" where
  "fits n N \<longleftrightarrow> 0 \<le> N \<and> (if n < 3 then N = 0 else N \<le> 2 ^ (n - 3))"

definition naf_digit :: "int \<Rightarrow> int" where
  "naf_digit N = (if even N then 0 else (N + 16) mod 32 - 16)"

lemma naf_Suc: "naf (Suc n) N = naf_digit N # naf n ((N - naf_digit N) div 2)"
  by (simp add: naf_digit_def Let_def)

lemma naf_digit_range: "naf_digit N = 0 \<or> odd (naf_digit N) \<and> \<bar>naf_digit N\<bar> \<le> 15"
proof (cases "even N")
  case False
  then have "odd ((N + 16) mod 32)" by presburger
  moreover have "0 \<le> (N + 16) mod 32" "(N + 16) mod 32 < 32" by simp_all
  ultimately have "odd (naf_digit N)" "- 16 \<le> naf_digit N" "naf_digit N \<le> 15" "naf_digit N \<noteq> - 16"
    using False by (auto simp: naf_digit_def)
  then show ?thesis by auto
qed (simp add: naf_digit_def)

lemma naf_digit_even: "even (N - naf_digit N)"
  by (simp add: naf_digit_def) presburger

lemma fits_step:
  assumes "fits (Suc n) N"
  shows "fits n ((N - naf_digit N) div 2)"
proof (cases "even N")
  case True
  then obtain K where K: "N = 2 * K" by blast
  show ?thesis
  proof (cases "n < 3")
    case False
    then obtain m where "n = m + 3" by (metis add.commute le_Suc_ex not_less)
    then show ?thesis
      using assms by (simp add: K fits_def naf_digit_def)
  qed (use assms in \<open>auto simp: K fits_def naf_digit_def numeral_3_eq_3 less_Suc_eq\<close>)
next
  case False
  define K where "K = (N + 16) div 32"
  have "N - naf_digit N = 32 * K"
    using False by (simp add: naf_digit_def K_def minus_mod_eq_mult_div [symmetric])
  then have h: "(N - naf_digit N) div 2 = 16 * K" by simp
  have N: "0 \<le> N" "2 \<le> n" "N \<le> 2 ^ (n - 2)"
    using assms False by (auto simp: fits_def split: if_splits)
  then have K: "0 \<le> K" by (simp add: K_def)
  show ?thesis
  proof (cases "n < 7")
    case True
    have "(2 :: int) ^ (n - 2) \<le> 2 ^ 4" using True by (intro power_increasing) auto
    with N False have "N < 16" by (cases "N = 16") auto
    then have "K = 0" using N by (simp add: K_def)
    then show ?thesis by (simp add: h fits_def)
  next
    case n: False
    then obtain m where m: "n = m + 7" by (metis add.commute le_Suc_ex not_less)
    have "N < 32 * 2 ^ m"
      using N False by (cases "N = 32 * 2 ^ m") (auto simp: m power_add)
    then have "K \<le> 2 ^ m"
      by (simp add: K_def)
    then show ?thesis
      using K by (simp add: h fits_def m power_add)
  qed
qed

lemma slide_loop:
  assumes "length ds + n = 256" "fits n N"
  shows "fold (\<lambda>i r. if r ! i = 0 then r else slide_window i 1 r) [length ds..<256] (ds @ bits n N)
    = ds @ map word_of_int (naf n N)"
  using assms
proof (induction n arbitrary: ds N)
  case (Suc n)
  have "(let r = ds @ bits (Suc n) N in if r ! length ds = 0 then r else slide_window (length ds) 1 r)
      = (ds @ [word_of_int (naf_digit N)]) @ bits n ((N - naf_digit N) div 2)"
    unfolding naf_digit_def using Suc.prems by (intro slide_step) (auto simp: fits_def split: if_splits)
  moreover have "[length ds..<256] = length ds # [length (ds @ [word_of_int (naf_digit N)])..<256]"
    using Suc.prems by (simp add: upt_conv_Cons)
  ultimately show ?case
    using Suc.IH [of "ds @ [word_of_int (naf_digit N)]" "(N - naf_digit N) div 2"] Suc.prems fits_step [of n N]
    by (simp add: Let_def naf_Suc del: naf.simps append_assoc)
qed simp

lemma slide_bits_le: "length a = 32 \<Longrightarrow> slide_bits a = bits 256 (le_value a)"
proof (rule nth_equalityI)
  fix i assume a: "length a = 32" "i < length (slide_bits a)"
  then have i: "i < 256" by (simp add: slide_bits_def)
  have "1 AND w = of_bool (bit w 0)" for w :: byte
    by (simp add: one_and_eq bit_0 flip: of_bool_odd_eq_mod_2)
  then show "slide_bits a ! i = bits 256 (le_value a) ! i"
    using i a by (simp add: slide_bits_def bits_def bit_le_value bit_drop_bit_eq bit_simps)
qed (simp add: slide_bits_def)

lemma slide_naf: "length a = 32 \<Longrightarrow> le_value a \<le> 2 ^ 253 \<Longrightarrow> slide a = map word_of_int (naf 256 (le_value a))"
  using slide_loop [of "[]" 256 "le_value a"] by (simp add: slide_def slide_bits_le fits_def)

lemma naf_value: "fits n N \<Longrightarrow> horner_sum id 2 (naf n N) = N"
proof (induction n arbitrary: N)
  case (Suc n)
  then show ?case
    using fits_step [OF Suc.prems] naf_digit_even [of N] by (simp add: naf_Suc del: naf.simps)
qed (simp add: fits_def)

lemma naf_digits: "d \<in> set (naf n N) \<Longrightarrow> d = 0 \<or> odd d \<and> \<bar>d\<bar> \<le> 15"
  by (induction n arbitrary: N) (use naf_digit_range in \<open>auto simp: naf_Suc simp del: naf.simps(2)\<close>)

section \<open>The radix 16 recoding\<close>

fun recode16 :: "int list \<Rightarrow> int \<Rightarrow> int list" where
  "recode16 [] c = []"
| "recode16 [x] c = [x + c]"
| "recode16 (x # y # xs) c = (let z = x + c; c' = (z + 8) div 16 in (z - 16 * c') # recode16 (y # xs) c')"

lemma recode16_value: "xs \<noteq> [] \<Longrightarrow> horner_sum id 16 (recode16 xs c) = horner_sum id 16 xs + c"
  by (induction xs c rule: recode16.induct) (simp_all add: Let_def)

lemma length_recode16 [simp]: "length (recode16 xs c) = length xs"
  by (induction xs c rule: recode16.induct) (simp_all add: Let_def)

lemma recode16_range:
  "\<forall>x\<in>set xs. 0 \<le> x \<and> x < 16 \<Longrightarrow> xs \<noteq> [] \<Longrightarrow> last xs \<le> 7 \<Longrightarrow> 0 \<le> c \<Longrightarrow> c \<le> 1 \<Longrightarrow> d \<in> set (recode16 xs c) \<Longrightarrow> \<bar>d\<bar> \<le> 8"
proof (induction xs c rule: recode16.induct)
  case (3 x y xs c)
  define c' where "c' = (x + c + 8) div 16"
  have z: "0 \<le> x + c + 8" "x + c + 8 < 32" using 3 by simp_all
  then have c': "0 \<le> c'" "c' \<le> 1" by (simp_all add: c'_def)
  have "x + c - 16 * c' = (x + c + 8) mod 16 - 8"
    by (simp add: c'_def minus_mult_div_eq_mod [symmetric])
  then have "\<bar>x + c - 16 * c'\<bar> \<le> 8"
    using pos_mod_bound [of 16 "x + c + 8"] pos_mod_sign [of 16 "x + c + 8"] by linarith
  then show ?case
    using 3 c' by (auto simp: Let_def c'_def [symmetric])
qed auto

lemma recode_step_digit:
  assumes "0 \<le> x" "x < 16" "0 \<le> c" "c \<le> 1"
  defines "c' \<equiv> (x + c + 8) div 16"
  shows "recode_step (length ds) (ds @ word_of_int x # xs, word_of_int c)
    = (ds @ word_of_int (x + c - 16 * c') # xs, word_of_int c')"
proof -
  have "signed_drop_bit 4 (word_of_int (x + c + 8) :: int8) = word_of_int c'"
    unfolding c'_def using assms signed_drop_bit_of_int [where 'a = 8, of "x + c + 8" 4] by (simp add: in_word_def)
  then have "signed_drop_bit 4 (word_of_int x + word_of_int c + 8 :: int8) = word_of_int c'"
    by simp
  moreover have "push_bit 4 (word_of_int c' :: int8) = word_of_int (16 * c')"
    by (simp add: push_bit_eq_mult)
  ultimately show ?thesis
    by (simp add: recode_step_def Let_def nth_append list_update_append)
qed

lemma recode_loop:
  "length xs = Suc m \<Longrightarrow> \<forall>x\<in>set xs. 0 \<le> x \<and> x < 16 \<Longrightarrow> 0 \<le> c \<Longrightarrow> c \<le> 1 \<Longrightarrow>
   (let (e, carry) = fold recode_step [length ds..<length ds + m] (ds @ map word_of_int xs, word_of_int c)
    in e[length ds + m := e ! (length ds + m) + carry]) = ds @ map word_of_int (recode16 xs c)"
proof (induction m arbitrary: ds xs c)
  case 0
  then obtain x where "xs = [x]" by (metis length_0_conv length_Suc_conv)
  then show ?case by (simp add: nth_append list_update_append)
next
  case (Suc m)
  then obtain x y ys where xs: "xs = x # y # ys" "length (y # ys) = Suc m"
    by (metis length_Suc_conv)
  define c' where "c' = (x + c + 8) div 16"
  have "0 \<le> x + c + 8" "x + c + 8 < 32" using Suc.prems by (simp_all add: xs)
  then have c': "0 \<le> c'" "c' \<le> 1" by (simp_all add: c'_def)
  have "recode_step (length ds) (ds @ map word_of_int xs, word_of_int c)
      = ((ds @ [word_of_int (x + c - 16 * c')]) @ map word_of_int (y # ys), word_of_int c')"
    using recode_step_digit [of x c ds] Suc.prems by (simp add: xs c'_def)
  moreover have "[length ds..<length ds + Suc m] = length ds # [length (ds @ [word_of_int (x + c - 16 * c') :: int8])..<length (ds @ [word_of_int (x + c - 16 * c') :: int8]) + m]"
    by (simp add: upt_conv_Cons)
  ultimately show ?case
    using Suc.IH [of "y # ys" c' "ds @ [word_of_int (x + c - 16 * c')]"] Suc.prems c' xs
    by (simp add: Let_def c'_def [symmetric] del: upt_Suc)
qed

definition nibble_values :: "bytes \<Rightarrow> int list" where
  "nibble_values a = concat (map (\<lambda>v. [uint v mod 16, uint v div 16]) a)"

lemma nibbles_values: "nibbles a = map word_of_int (nibble_values a)"
proof -
  have n: "v AND 15 = word_of_int (uint v mod 16)" for v :: byte
  proof -
    have "v AND 15 = v mod 16"
      by (simp add: take_bit_eq_mask mask_eq_exp_minus_1 flip: take_bit_eq_mod [of 4, simplified])
    then show ?thesis
      by (simp add: word_mod_def)
  qed
  have "uint (drop_bit 4 v) mod 16 = uint v div 16" for v :: byte
  proof -
    have "uint (drop_bit 4 v) = uint v div 16"
      using uint_byte_less [of v] by (simp only: unsigned_drop_bit_eq) (simp add: drop_bit_eq_div take_bit_int_eq_self)
    moreover have "0 \<le> uint v div 16" "uint v div 16 < 16"
      using uint_byte_less [of v] by (simp_all add: pos_imp_zdiv_nonneg_iff)
    ultimately show ?thesis by simp
  qed
  with n have "v AND 15 = word_of_int (uint v mod 16)" "drop_bit 4 v AND 15 = word_of_int (uint v div 16)" for v :: byte
    by simp_all
  then show ?thesis
    by (simp add: nibbles_def nibble_values_def map_concat o_def)
qed

lemma nibble_values_sum: "horner_sum id 16 (nibble_values a) = le_value a"
  by (induction a) (simp_all add: nibble_values_def)

lemma nibble_values_range: "x \<in> set (nibble_values a) \<Longrightarrow> 0 \<le> x \<and> x < 16"
proof -
  have "uint b div 16 < 16" for b :: byte
    using uint_byte_less [of b] by linarith
  then show "x \<in> set (nibble_values a) \<Longrightarrow> 0 \<le> x \<and> x < 16"
    by (auto simp: nibble_values_def pos_imp_zdiv_nonneg_iff)
qed

lemma nibble_values_last: "a \<noteq> [] \<Longrightarrow> last (nibble_values a) = uint (last a) div 16"
  by (induction a) (auto simp: nibble_values_def)

lemma nibble_values_empty [simp]: "nibble_values a = [] \<longleftrightarrow> a = []"
  by (cases a) (simp_all add: nibble_values_def)

lemma length_nibble_values: "length (nibble_values a) = 2 * length a"
  by (induction a) (simp_all add: nibble_values_def)

definition base_digits :: "bytes \<Rightarrow> int list" where
  "base_digits a = recode16 (nibble_values a) 0"

lemma recode_digits: "length a = 32 \<Longrightarrow> recode a = map word_of_int (base_digits a)"
  using recode_loop [of "nibble_values a" 63 0 "[]"] nibble_values_range [of _ a]
  by (simp add: recode_def base_digits_def nibbles_values length_nibble_values)

lemma base_digits_value: "a \<noteq> [] \<Longrightarrow> horner_sum id 16 (base_digits a) = le_value a"
  using recode16_value [of "nibble_values a" 0] by (simp add: base_digits_def nibble_values_sum)

lemma base_digits_range:
  assumes "length a = 32" "uint (a ! 31) \<le> 127" "d \<in> set (base_digits a)"
  shows "\<bar>d\<bar> \<le> 8"
proof (rule recode16_range [of "nibble_values a" 0])
  show a: "nibble_values a \<noteq> []" using assms(1) by auto
  then have "last (nibble_values a) = uint (a ! 31) div 16"
    using nibble_values_last [of a] assms(1) by (simp add: last_conv_nth)
  also have "\<dots> \<le> 127 div 16"
    using assms(2) by (intro zdiv_mono1) simp_all
  finally show "last (nibble_values a) \<le> 7" by simp
qed (use nibble_values_range assms(3) in \<open>auto simp: base_digits_def\<close>)

section \<open>The constant-time selection\<close>

definition neg_entry :: "PreComputedGroupElement \<Rightarrow> PreComputedGroupElement" where
  "neg_entry t = \<lparr>yPlusX = yMinusX t, yMinusX = yPlusX t, xy2d = FeNeg (xy2d t)\<rparr>"

definition table_entry :: "nat \<Rightarrow> int \<Rightarrow> PreComputedGroupElement" where
  "table_entry pos d =
     (if d = 0 then PreComputed_Zero
      else if d > 0 then base ! pos ! nat (d - 1)
      else neg_entry (base ! pos ! nat (- d - 1)))"

lemma equal_test: "uint b < 2 ^ 31 \<Longrightarrow> uint c < 2 ^ 31 \<Longrightarrow> equal b c = of_bool (b = c)"
proof (cases "b = c")
  case True
  have "drop_bit 31 (- 1 :: int32) = 1" by simp
  then show ?thesis
    using True by (simp add: equal_def)
next
  case False
  assume "uint b < 2 ^ 31" "uint c < 2 ^ 31"
  then have x: "uint (b XOR c) < 2 ^ 31"
    using XOR_upper [of "uint b" 31 "uint c"] by (simp only: unsigned_xor_eq) simp
  have "b XOR c \<noteq> 0" using False by (metis xor_self_eq xor.assoc xor.right_neutral)
  then have "0 < uint (b XOR c)"
    by (simp add: less_le uint_0_iff)
  moreover from this have "uint ((b XOR c) - 1) = uint (b XOR c) - 1"
    using uint_minus_simple_alt [of 1 "b XOR c"] by (simp add: word_le_def)
  ultimately have "uint ((b XOR c) - 1) < 2 ^ 31" "0 \<le> uint ((b XOR c) - 1)"
    using x by simp_all
  then have "uint (drop_bit 31 ((b XOR c) - 1)) = 0"
    by (simp only: unsigned_drop_bit_eq) (simp add: take_bit_int_eq_self drop_bit_eq_div)
  then have "drop_bit 31 ((b XOR c) - 1) = 0"
    by (simp only: uint_0_iff)
  then show ?thesis
    using False by (simp add: equal_def)
qed

lemma negative_test: "negative b = of_bool (sint b < 0)"
  by (rule bit_word_eqI) (auto simp: negative_def bit_simps bit_signed_drop_bit_iff not_le less_Suc_eq_le simp flip: bit_last_iff)

lemma CMove_selects:
  assumes "entry_ok t" "entry_ok u"
  shows "PreComputedGroupElementCMove t u 0 = t" "PreComputedGroupElementCMove t u 1 = u"
  using assms [unfolded entry_ok_def, THEN conjunct1, THEN fe_ok_length]
    assms [unfolded entry_ok_def, THEN conjunct2, THEN conjunct1, THEN fe_ok_length]
    assms [unfolded entry_ok_def, THEN conjunct2, THEN conjunct2, THEN fe_ok_length]
  by (simp_all add: PreComputedGroupElementCMove_def FeCMove_selects)

lemma entry_ok_zero: "entry_ok PreComputed_Zero"
  using rep_constants(1, 2) by (auto simp: entry_ok_def PreComputed_Zero_def rep_def intro: fe_ok_mono)

lemma entry_ok_neg: "entry_ok t \<Longrightarrow> entry_ok (neg_entry t)"
  using FeNeg_correct [of 101 "xy2d t"] by (simp add: entry_ok_def neg_entry_def)

lemma base_entry_ok: "pos < 32 \<Longrightarrow> i < 8 \<Longrightarrow> entry_ok (base ! pos ! i)"
  using base_ok table_shape by (simp add: list_all_length)

lemma table_entry_ok: "pos < 32 \<Longrightarrow> \<bar>d\<bar> \<le> 8 \<Longrightarrow> entry_ok (table_entry pos d)"
  by (auto simp: table_entry_def entry_ok_zero intro!: entry_ok_neg base_entry_ok)

lemma select_loop:
  assumes "pos < 32" "k \<le> 8" "n \<le> 8"
  shows "fold (\<lambda>i t. PreComputedGroupElementCMove t (base ! pos ! i) (equal (of_nat k) (of_nat i + 1))) [0..<n] PreComputed_Zero
    = (if 0 < k \<and> k \<le> n then base ! pos ! (k - 1) else PreComputed_Zero)"
  using assms(3)
proof (induction n)
  case (Suc n)
  have "equal (of_nat k) (of_nat n + 1) = of_bool (k = Suc n)"
  proof -
    have u: "uint (of_nat j :: int32) = int j" if "j \<le> 8" for j
      using that by (simp add: unsigned_of_nat take_bit_nat_eq_self)
    have "equal (of_nat k) (of_nat (Suc n)) = of_bool ((of_nat k :: int32) = of_nat (Suc n))"
      using u [of k] u [of "Suc n"] assms(2) Suc.prems by (intro equal_test) simp_all
    moreover have "(of_nat k :: int32) = of_nat (Suc n) \<longleftrightarrow> k = Suc n"
      using u [of k] u [of "Suc n"] assms(2) Suc.prems by (metis of_nat_eq_iff)
    ultimately show ?thesis by (simp add: add.commute)
  qed
  moreover have "entry_ok (if 0 < k \<and> k \<le> n then base ! pos ! (k - 1) else PreComputed_Zero)"
    using assms base_entry_ok entry_ok_zero by auto
  ultimately show ?case
    using Suc base_entry_ok [OF assms(1), of n] by (auto simp: CMove_selects le_Suc_eq)
qed auto

lemma selectPoint_entry:
  assumes "pos < 32" "\<bar>d\<bar> \<le> 8"
  shows "selectPoint pos (word_of_int d) = table_entry pos d"
proof -
  define k where "k = nat \<bar>d\<bar>"
  have k: "k \<le> 8" using assms(2) by (simp add: k_def)
  have s: "sint (word_of_int d :: int32) = d"
    using assms(2) by (intro sint_of_int_word) (simp add: in_word_def abs_le_iff)
  have "word_of_int d - push_bit 1 ((- negative (word_of_int d)) AND word_of_int d) = (of_nat k :: int32)"
    by (cases "d < 0") (simp_all add: negative_test s k_def)
  moreover note select_loop [OF assms(1) k order_refl]
  ultimately have "selectPoint pos (word_of_int d) =
      (let t = if 0 < k then base ! pos ! (k - 1) else PreComputed_Zero
       in PreComputedGroupElementCMove t (neg_entry t) (of_bool (d < 0)))"
    using k by (simp add: selectPoint_def Let_def negative_test s neg_entry_def)
  moreover have "entry_ok (if 0 < k then base ! pos ! (k - 1) else PreComputed_Zero)"
    using assms(1) k base_entry_ok entry_ok_zero by auto
  ultimately show ?thesis
    using entry_ok_neg by (auto simp: Let_def CMove_selects table_entry_def k_def nat_diff_distrib)
qed

section \<open>Multiples in a commutative group\<close>

definition multiple :: "int \<Rightarrow> 'g::ab_group_add \<Rightarrow> 'g" where
  "multiple n x = (if 0 \<le> n then ((+) x ^^ nat n) 0 else - (((+) x ^^ nat (- n)) 0))"

lemma multiple_0 [simp]: "multiple 0 x = 0"
  by (simp add: multiple_def)

lemma multiple_succ: "multiple (n + 1) x = multiple n x + x"
proof (cases "0 \<le> n")
  case True
  then have "nat (n + 1) = Suc (nat n)" by simp
  with True show ?thesis by (simp add: multiple_def add.commute)
next
  case False
  then have "nat (- n) = Suc (nat (- (n + 1)))" by simp
  with False show ?thesis
    by (cases "n = - 1") (auto simp: multiple_def)
qed

lemma multiple_add: "multiple (m + n) x = multiple m x + multiple n x"
proof (induction n rule: int_induct [of _ 0])
  case (step1 n)
  then show ?case
    using multiple_succ [of "m + n" x] multiple_succ [of n x] by (simp add: add.assoc)
next
  case (step2 n)
  have "multiple (m + n) x = multiple (m + (n - 1)) x + x" "multiple n x = multiple (n - 1) x + x"
    using multiple_succ [of "m + (n - 1)" x] multiple_succ [of "n - 1" x] by simp_all
  with step2 show ?case
    by (metis add.assoc add_right_cancel)
qed simp

lemma multiple_1 [simp]: "multiple 1 x = x"
  using multiple_succ [of 0 x] by simp

lemma multiple_minus: "multiple (- n) x = - multiple n x"
  using multiple_add [of "- n" n x] by (simp add: eq_neg_iff_add_eq_0)

lemma multiple_diff: "multiple (m - n) x = multiple m x - multiple n x"
  using multiple_add [of m "- n" x] by (simp add: multiple_minus)

lemma multiple_mult: "multiple (m * n) x = multiple m (multiple n x)"
proof (induction m rule: int_induct [of _ 0])
  case (step1 m)
  then show ?case by (simp add: distrib_right multiple_add)
next
  case (step2 m)
  then show ?case by (simp add: left_diff_distrib multiple_diff)
qed simp

lemma multiple_plus: "multiple c (x + y) = multiple c x + multiple c y"
  by (induction c rule: int_induct [of _ 0]) (simp_all add: multiple_add multiple_diff)

lemma multiple_zero [simp]: "multiple c (0 :: 'g::ab_group_add) = 0"
  using multiple_plus [of c "0 :: 'g" 0] by simp

lemma multiple_sum: "multiple (\<Sum>k\<leftarrow>ks. f k) x = (\<Sum>k\<leftarrow>ks. multiple (f k) x)"
  by (induction ks) (simp_all add: multiple_add)

lemma fold_add_sum: "fold (\<lambda>i h. h + f i) ks z = z + (\<Sum>i\<leftarrow>ks. f i)" for z :: "'g::ab_group_add"
  by (induction ks arbitrary: z) (simp_all add: add.assoc)

section \<open>The schedules\<close>

text \<open>
  The two multiplications for arbitrary operations: \<open>base_schedule\<close> for \<^verbatim>\<open>GeScalarMultBase\<close>, and
  \<open>odd_table\<close>, \<open>add_digit\<close> and \<open>double_schedule\<close> for \<^verbatim>\<open>GeDoubleScalarMultVartime\<close>.
\<close>

definition base_schedule :: "('p \<Rightarrow> 'p) \<Rightarrow> ('p \<Rightarrow> 'e \<Rightarrow> 'p) \<Rightarrow> (nat \<Rightarrow> int \<Rightarrow> 'e) \<Rightarrow> 'p \<Rightarrow> int list \<Rightarrow> 'p" where
  "base_schedule sixteen padd entry z e =
     (let h = fold (\<lambda>i h. padd h (entry (i div 2) (e ! i))) odd_indices z
      in fold (\<lambda>i h. padd h (entry (i div 2) (e ! i))) even_indices (sixteen h))"

definition odd_table :: "('p \<Rightarrow> 'c \<Rightarrow> 'c) \<Rightarrow> 'p \<Rightarrow> 'c \<Rightarrow> 'c list" where
  "odd_table padd twice once = fold (\<lambda>i T. T @ [padd twice (T ! i)]) [0..<7] [once]"

definition add_digit :: "('p \<Rightarrow> 'c \<Rightarrow> 'p) \<Rightarrow> ('p \<Rightarrow> 'c \<Rightarrow> 'p) \<Rightarrow> 'c list \<Rightarrow> int \<Rightarrow> 'p \<Rightarrow> 'p" where
  "add_digit padd psub T d t =
     (if d > 0 then padd t (T ! (nat d div 2)) else if d < 0 then psub t (T ! (nat (- d) div 2)) else t)"

fun top_index :: "int list \<Rightarrow> int list \<Rightarrow> nat \<Rightarrow> nat" where
  "top_index a b 0 = 0"
| "top_index a b (Suc i) = (if a ! i \<noteq> 0 \<or> b ! i \<noteq> 0 then Suc i else top_index a b i)"

definition double_schedule ::
  "('p \<Rightarrow> 't) \<Rightarrow> (int \<Rightarrow> 't \<Rightarrow> 't) \<Rightarrow> (int \<Rightarrow> 't \<Rightarrow> 't) \<Rightarrow> ('t \<Rightarrow> 'p) \<Rightarrow> 'p \<Rightarrow> int list \<Rightarrow> int list \<Rightarrow> 'p" where
  "double_schedule double addA addB final z a b =
     fold (\<lambda>i r. final (addB (b ! i) (addA (a ! i) (double r)))) (rev [0..<top_index a b 256]) z"

lemma sum_pairs: "(\<Sum>n<2 * m. g n) = (\<Sum>k<m. g (2 * k) + g (2 * k + 1))" for g :: "nat \<Rightarrow> int"
  by (induction m) (simp_all add: algebra_simps)

lemma base_schedule_multiple:
  assumes "length e = 64"
  shows "base_schedule (multiple 16) (+) (\<lambda>pos d. multiple (d * 256 ^ pos) B) 0 e = multiple (horner_sum id 16 e) B"
proof -
  have "horner_sum id 16 e = (\<Sum>n<2 * 32. e ! n * 16 ^ n)"
    using assms by (simp add: horner_sum_eq_sum atLeast0LessThan)
  also have "\<dots> = (\<Sum>k<32. e ! (2 * k) * 256 ^ k + 16 * (e ! (2 * k + 1) * 256 ^ k))"
    unfolding sum_pairs by (intro sum.cong) (simp_all add: power_mult power_add)
  also have "\<dots> = 16 * (\<Sum>k\<leftarrow>[0..<32]. e ! (2 * k + 1) * 256 ^ k) + (\<Sum>k\<leftarrow>[0..<32]. e ! (2 * k) * 256 ^ k)"
    by (simp add: sum.distrib sum_distrib_left interv_sum_list_conv_sum_set_nat atLeast0LessThan)
  finally show ?thesis
    by (simp only: base_schedule_def Let_def fold_add_sum odd_indices_def even_indices_def map_map o_def
      multiple_add multiple_mult [of 16] multiple_sum) (simp add: o_def)
qed

lemma odd_table_multiples: "odd_table (+) (multiple 2 P) P = map (\<lambda>j. multiple (2 * int j + 1) P) [0..<8]"
proof -
  have "fold (\<lambda>i T. T @ [multiple 2 P + T ! i]) [0..<n] [P] = map (\<lambda>j. multiple (2 * int j + 1) P) [0..<Suc n]" for n
  proof (induction n)
    case (Suc n)
    have "multiple 2 P + multiple (2 * int n + 1) P = multiple (2 * int (Suc n) + 1) P"
      by (simp add: multiple_add [symmetric] add.commute)
    then show ?case
      using Suc by (simp add: nth_append)
  qed simp
  from this [of 7] show ?thesis
    by (simp add: odd_table_def)
qed

lemma add_digit_multiple:
  assumes "d = 0 \<or> odd d \<and> \<bar>d\<bar> \<le> 15"
  shows "add_digit (+) (-) (map (\<lambda>j. multiple (2 * int j + 1) P) [0..<8]) d t = t + multiple d P"
proof -
  have "2 * int (nat c div 2) + 1 = c" "nat c div 2 < 8" if "odd c" "0 < c" "c \<le> 15" for c
  proof -
    obtain k where "c = 2 * k + 1" using \<open>odd c\<close> by (metis oddE)
    moreover from this have "nat c div 2 = nat k" using that by (simp add: nat_add_distrib nat_mult_distrib)
    ultimately show "2 * int (nat c div 2) + 1 = c" "nat c div 2 < 8" using that by simp_all
  qed
  from this [of d] this [of "- d"] show ?thesis
    using assms by (auto simp: add_digit_def multiple_minus)
qed

lemma double_loop:
  fixes P B :: "'g::ab_group_add"
  shows "fold (\<lambda>i r. multiple 2 r + multiple (a i) P + multiple (b i) B) (rev [0..<n]) z
    = multiple (2 ^ n) z + multiple (\<Sum>i<n. a i * 2 ^ i) P + multiple (\<Sum>i<n. b i * 2 ^ i) B"
proof (induction n arbitrary: z)
  case (Suc n)
  have "fold (\<lambda>i r. multiple 2 r + multiple (a i) P + multiple (b i) B) (rev [0..<Suc n]) z
      = multiple (2 ^ n) (multiple 2 z + multiple (a n) P + multiple (b n) B)
        + multiple (\<Sum>i<n. a i * 2 ^ i) P + multiple (\<Sum>i<n. b i * 2 ^ i) B"
    by (simp add: Suc)
  also have "\<dots> = multiple (2 ^ Suc n) z + multiple (\<Sum>i<Suc n. a i * 2 ^ i) P + multiple (\<Sum>i<Suc n. b i * 2 ^ i) B"
    by (simp add: multiple_plus multiple_add multiple_mult [symmetric] ac_simps)
  finally show ?case .
qed simp

lemma top_index_le: "top_index a b n \<le> n"
  by (induction n) simp_all

lemma top_index_zero: "top_index a b n \<le> i \<Longrightarrow> i < n \<Longrightarrow> a ! i = 0 \<and> b ! i = 0"
  by (induction n) (auto simp: less_Suc_eq split: if_splits)

lemma top_index_sum:
  assumes "length a = 256" "length b = 256"
  shows "(\<Sum>i<top_index a b 256. a ! i * 2 ^ i) = horner_sum id 2 a" "(\<Sum>i<top_index a b 256. b ! i * 2 ^ i) = horner_sum id 2 b"
proof -
  have "(\<Sum>i<top_index a b 256. c i * 2 ^ i) = (\<Sum>i<256. c i * 2 ^ i)"
    if "\<And>i. top_index a b 256 \<le> i \<Longrightarrow> i < 256 \<Longrightarrow> c i = 0" for c :: "nat \<Rightarrow> int"
    using that top_index_le [of a b 256] by (intro sum.mono_neutral_left) auto
  then show "(\<Sum>i<top_index a b 256. a ! i * 2 ^ i) = horner_sum id 2 a" "(\<Sum>i<top_index a b 256. b ! i * 2 ^ i) = horner_sum id 2 b"
    using top_index_zero [of a b 256] assms by (simp_all add: horner_sum_eq_sum atLeast0LessThan)
qed

lemma double_schedule_multiple:
  fixes P B :: "'g::ab_group_add"
  assumes "length a = 256" "length b = 256"
    and "\<And>d. d \<in> set a \<union> set b \<Longrightarrow> d = 0 \<or> odd d \<and> \<bar>d\<bar> \<le> 15"
  shows "double_schedule (multiple 2) (add_digit (+) (-) (odd_table (+) (multiple 2 P) P))
      (add_digit (+) (-) (map (\<lambda>j. multiple (2 * int j + 1) B) [0..<8])) id 0 a b
    = multiple (horner_sum id 2 a) P + multiple (horner_sum id 2 b) B"
proof -
  have "add_digit (+) (-) (map (\<lambda>j. multiple (2 * int j + 1) B) [0..<8]) (b ! i)
      (add_digit (+) (-) (map (\<lambda>j. multiple (2 * int j + 1) P) [0..<8]) (a ! i) (multiple 2 r))
      = multiple 2 r + multiple (a ! i) P + multiple (b ! i) B" if "i < 256" for i r
    using assms that by (simp add: add_digit_multiple)
  then have "double_schedule (multiple 2) (add_digit (+) (-) (odd_table (+) (multiple 2 P) P))
      (add_digit (+) (-) (map (\<lambda>j. multiple (2 * int j + 1) B) [0..<8])) id 0 a b
      = fold (\<lambda>i r. multiple 2 r + multiple (a ! i) P + multiple (b ! i) B) (rev [0..<top_index a b 256]) 0"
    unfolding double_schedule_def odd_table_multiples using top_index_le [of a b 256] by (intro fold_cong) auto
  also have "\<dots> = multiple (horner_sum id 2 a) P + multiple (horner_sum id 2 b) B"
    unfolding double_loop top_index_sum [OF assms(1, 2)] by simp
  finally show ?thesis .
qed

section \<open>The code follows the schedules\<close>

lemma sint_small: "\<bar>d\<bar> < 128 \<Longrightarrow> sint (word_of_int d :: int8) = d"
  by (rule sint_of_int_word) (simp add: in_word_def abs_less_iff)

lemma GeScalarMultBase_schedule:
  assumes "length a = 32" "uint (a ! 31) \<le> 127"
  shows "GeScalarMultBase a
    = base_schedule times_sixteen (\<lambda>h t. Completed_ToExtended (geMixedAdd h t)) table_entry Extended_Zero (base_digits a)"
proof -
  have l: "length (base_digits a) = 64"
    by (simp add: base_digits_def length_nibble_values assms(1))
  have "add_selected (recode a) i h = Completed_ToExtended (geMixedAdd h (table_entry (i div 2) (base_digits a ! i)))" if "i < 64" for i h
  proof -
    have d: "\<bar>base_digits a ! i\<bar> \<le> 8"
      using base_digits_range [OF assms] that l by simp
    then have "(scast (word_of_int (base_digits a ! i) :: int8) :: int32) = word_of_int (base_digits a ! i)"
      by (simp add: scast_eq sint_small)
    then show ?thesis
      using that l d by (simp add: add_selected_def recode_digits [OF assms(1)] selectPoint_entry)
  qed
  then have f: "fold (add_selected (recode a)) ks h
      = fold (\<lambda>i h. Completed_ToExtended (geMixedAdd h (table_entry (i div 2) (base_digits a ! i)))) ks h"
    if "set ks \<subseteq> {..<64}" for ks h
    using that by (intro fold_cong) auto
  show ?thesis
    unfolding GeScalarMultBase_def base_schedule_def Let_def
    by (subst (1 2) f) (auto simp: odd_indices_def even_indices_def)
qed

lemma word_of_int_0_iff: "\<bar>d\<bar> < 128 \<Longrightarrow> (word_of_int d :: int8) = 0 \<longleftrightarrow> d = 0"
  using sint_small [of d] by auto

lemma digit_index:
  assumes "0 < d" "d < 128"
  shows "unat (word_of_int d :: int8) = nat d"
  using assms by (simp add: unsigned_of_int take_bit_int_eq_self)

lemma add_cached_digit_code:
  assumes "\<bar>d\<bar> < 128"
  shows "add_cached_digit Ai (word_of_int d) t
      = add_digit (\<lambda>t. geAdd (Completed_ToExtended t)) (\<lambda>t. geSub (Completed_ToExtended t)) Ai d t"
    and "add_base_digit (word_of_int d) t
      = add_digit (\<lambda>t. geMixedAdd (Completed_ToExtended t)) (\<lambda>t. geMixedSub (Completed_ToExtended t)) bi d t"
  using digit_index [of d] digit_index [of "- d"] assms
  by (simp_all add: add_cached_digit_def add_base_digit_def add_digit_def sint_small)

lemma top_digit_code:
  assumes "\<And>d. d \<in> set a \<union> set b \<Longrightarrow> \<bar>d\<bar> < 128" "n \<le> length a" "n \<le> length b"
  shows "top_digit (map word_of_int a) (map word_of_int b) n = top_index a b n"
  using assms(2, 3) by (induction n) (simp_all add: word_of_int_0_iff assms(1))

lemma length_naf [simp]: "length (naf n N) = n"
  by (induction n arbitrary: N) (simp_all add: Let_def)

lemma GeDoubleScalarMultVartime_schedule:
  assumes "length a = 32" "le_value a \<le> 2 ^ 253" "length b = 32" "le_value b \<le> 2 ^ 253"
  shows "GeDoubleScalarMultVartime a A b
    = double_schedule Projective_Double
        (add_digit (\<lambda>t. geAdd (Completed_ToExtended t)) (\<lambda>t. geSub (Completed_ToExtended t)) (odd_multiples A))
        (add_digit (\<lambda>t. geMixedAdd (Completed_ToExtended t)) (\<lambda>t. geMixedSub (Completed_ToExtended t)) bi)
        Completed_ToProjective Projective_Zero (naf 256 (le_value a)) (naf 256 (le_value b))"
proof -
  have d: "\<bar>d\<bar> < 128" if "d \<in> set (naf 256 (le_value a)) \<union> set (naf 256 (le_value b))" for d
    using that naf_digits by fastforce
  have t: "top_digit (map word_of_int (naf 256 (le_value a))) (map word_of_int (naf 256 (le_value b))) 256
      = top_index (naf 256 (le_value a)) (naf 256 (le_value b)) 256"
    using d by (intro top_digit_code) auto
  show ?thesis
    unfolding GeDoubleScalarMultVartime_def double_schedule_def Let_def slide_naf [OF assms(1, 2)] slide_naf [OF assms(3, 4)] t
    using top_index_le [of "naf 256 (le_value a)" "naf 256 (le_value b)" 256] d
    by (intro fold_cong) (auto simp: add_cached_digit_code)
qed

section \<open>Bounds of the results\<close>

definition bounded_extended :: "ExtendedGroupElement \<Rightarrow> bool" where
  "bounded_extended p \<longleftrightarrow> (\<exists>x y z t. extended x y z t p)"

lemma geMixedAdd_bounded:
  assumes "bounded_extended p" "entry_ok q"
  shows "bounded_extended (Completed_ToExtended (geMixedAdd p q))"
proof -
  obtain x y z t where "extended x y z t p" using assms(1) by (auto simp: bounded_extended_def)
  then have r: "rep 200 x (eX p)" "rep 101 y (eY p)" "rep 101 z (eZ p)" "rep 101 t (eT p)"
    "rep 101 (res (yPlusX q)) (yPlusX q)" "rep 101 (res (yMinusX q)) (yMinusX q)" "rep 101 (res (xy2d q)) (xy2d q)"
    using assms(2) by (simp_all add: extended_def entry_ok_def rep_def)
  have "completed ((y + x) * res (yPlusX q) - (y - x) * res (yMinusX q)) ((y + x) * res (yPlusX q) + (y - x) * res (yMinusX q))
      (2 * z + res (xy2d q) * t) (2 * z - res (xy2d q) * t) (geMixedAdd p q)"
    unfolding completed_def geMixedAdd_def Let_def
    by (simp, intro conjI; rule rep_eq, (rule r rep_ops | (simp add: algebra_simps; fail))+)
  from conversions(4) [OF this] show ?thesis
    unfolding bounded_extended_def by blast
qed

lemma times_sixteen_bounded:
  assumes "bounded_extended p"
  shows "bounded_extended (times_sixteen p)"
proof -
  have d: "\<exists>x y z. projective x y z (Completed_ToProjective (Projective_Double q))" "\<exists>x y z t. completed x y z t (Projective_Double q)"
    if "\<exists>x y z. projective x y z q" for q
    using that Projective_Double_formulas conversions(3) by blast+
  have "\<exists>x y z. projective x y z (Extended_ToProjective p)"
    using assms conversions(2) unfolding bounded_extended_def by blast
  from d(2) [OF d(1) [OF d(1) [OF d(1) [OF this]]]] show ?thesis
    unfolding bounded_extended_def times_sixteen_def Extended_Double_def Let_def using conversions(4) by blast
qed

lemma GeScalarMultBase_bounded:
  assumes "length a = 32" "uint (a ! 31) \<le> 127"
  shows "bounded_extended (GeScalarMultBase a)"
proof -
  have l: "length (base_digits a) = 64"
    by (simp add: base_digits_def length_nibble_values assms(1))
  have ok: "entry_ok (table_entry (i div 2) (base_digits a ! i))" if "i < 64" for i
    using base_digits_range [OF assms] that l by (intro table_entry_ok) simp_all
  have f: "bounded_extended (fold (\<lambda>i h. Completed_ToExtended (geMixedAdd h (table_entry (i div 2) (base_digits a ! i)))) ks h)"
    if "set ks \<subseteq> {..<64}" "bounded_extended h" for ks h
    using that by (induction ks arbitrary: h) (auto intro: geMixedAdd_bounded ok)
  have "bounded_extended Extended_Zero"
    using zero_point by (auto simp: curve_point_def bounded_extended_def)
  then show ?thesis
    unfolding GeScalarMultBase_schedule [OF assms] base_schedule_def Let_def
    by (intro f times_sixteen_bounded) (auto simp: odd_indices_def even_indices_def)
qed

section \<open>Properties\<close>



text \<open>
  C22. The double multiplication: for scalars up to \<open>2 ^ 253\<close> the digits of \<^verbatim>\<open>slide\<close> are exactly the
  window-five signed digits of the reference \<open>naf\<close>, zero or odd with absolute value at most 15, and sum to the
  scalar; the code follows the schedule they give; and in every commutative group, with the odd multiples
  \<open>B, 3B, ..., 15B\<close> for the table, this schedule computes \<open>a * P + b * B\<close>.
\<close>

theorem double_scalar_mult:
  fixes P B :: "'g::ab_group_add"
  assumes "length a = 32" "le_value a \<le> 2 ^ 253" "length b = 32" "le_value b \<le> 2 ^ 253"
  shows "map sint (slide a) = naf 256 (le_value a)
    \<and> list_all (\<lambda>d. d = 0 \<or> odd d \<and> \<bar>d\<bar> \<le> 15) (naf 256 (le_value a)) \<and> horner_sum id 2 (naf 256 (le_value a)) = le_value a
    \<and> GeDoubleScalarMultVartime a A b
      = double_schedule Projective_Double
          (add_digit (\<lambda>t. geAdd (Completed_ToExtended t)) (\<lambda>t. geSub (Completed_ToExtended t))
            (odd_table (\<lambda>p c. Extended_ToCached (Completed_ToExtended (geAdd p c)))
              (Completed_ToExtended (Extended_Double A)) (Extended_ToCached A)))
          (add_digit (\<lambda>t. geMixedAdd (Completed_ToExtended t)) (\<lambda>t. geMixedSub (Completed_ToExtended t)) bi)
          Completed_ToProjective Projective_Zero (naf 256 (le_value a)) (naf 256 (le_value b))
    \<and> double_schedule (multiple 2) (add_digit (+) (-) (odd_table (+) (multiple 2 P) P))
          (add_digit (+) (-) (map (\<lambda>j. multiple (2 * int j + 1) B) [0..<8])) id 0 (naf 256 (le_value a)) (naf 256 (le_value b))
      = multiple (le_value a) P + multiple (le_value b) B"
proof -
  have f: "fits 256 (le_value a)" "fits 256 (le_value b)"
    using assms by (simp_all add: fits_def)
  have "map sint (slide a) = naf 256 (le_value a)"
  proof -
    have "sint (word_of_int d :: int8) = d" if "d \<in> set (naf 256 (le_value a))" for d
      using naf_digits [OF that] by (intro sint_small) auto
    then show ?thesis
      unfolding slide_naf [OF assms(1, 2)] by (simp add: o_def map_idI)
  qed
  moreover have "odd_multiples A = odd_table (\<lambda>p c. Extended_ToCached (Completed_ToExtended (geAdd p c)))
      (Completed_ToExtended (Extended_Double A)) (Extended_ToCached A)"
    by (simp add: odd_multiples_def odd_table_def multiples_step_def [abs_def] Let_def)
  ultimately show ?thesis
    using naf_digits naf_value [OF f(1)] naf_value [OF f(2)] GeDoubleScalarMultVartime_schedule [OF assms, of A]
      double_schedule_multiple [of "naf 256 (le_value a)" "naf 256 (le_value b)" P B]
    by (auto simp: list_all_iff)
qed

theorem double_scalar_mult_witness:
  "horner_sum id 2 (map sint (slide (200 # replicate 30 7 @ [15]))) = le_value (200 # replicate 30 7 @ [15])"
proof -
  have "le_value (200 # replicate 30 7 @ [15]) \<le> 2 ^ 253" "le_value (replicate 32 0) \<le> 2 ^ 253"
    by code_simp+
  then show ?thesis
    using double_scalar_mult [where a = "200 # replicate 30 7 @ [15]" and b = "replicate 32 0" and A = Extended_Zero
        and P = "1 :: int" and B = "1 :: int"]
    by simp
qed

end
