(* ===== verification/Go_Sha512.thy ===== *)
theory Go_Sha512
  imports Carrier_Prelude
begin

text \<open>
  SHA-512 as \<^verbatim>\<open>crypto/sha512\<close> of the standard library computes it (FIPS 180-4): padding, the message
  schedule, eighty rounds per block of 128 bytes, and the eight words written in big-endian order. The
  signatures of \<^verbatim>\<open>crypto/ed25519\<close> use it.
\<close>

section \<open>The hash\<close>

definition sha512_K :: "uint64 list" where
  "sha512_K =
    [0x428a2f98d728ae22, 0x7137449123ef65cd, 0xb5c0fbcfec4d3b2f, 0xe9b5dba58189dbbc,
     0x3956c25bf348b538, 0x59f111f1b605d019, 0x923f82a4af194f9b, 0xab1c5ed5da6d8118,
     0xd807aa98a3030242, 0x12835b0145706fbe, 0x243185be4ee4b28c, 0x550c7dc3d5ffb4e2,
     0x72be5d74f27b896f, 0x80deb1fe3b1696b1, 0x9bdc06a725c71235, 0xc19bf174cf692694,
     0xe49b69c19ef14ad2, 0xefbe4786384f25e3, 0x0fc19dc68b8cd5b5, 0x240ca1cc77ac9c65,
     0x2de92c6f592b0275, 0x4a7484aa6ea6e483, 0x5cb0a9dcbd41fbd4, 0x76f988da831153b5,
     0x983e5152ee66dfab, 0xa831c66d2db43210, 0xb00327c898fb213f, 0xbf597fc7beef0ee4,
     0xc6e00bf33da88fc2, 0xd5a79147930aa725, 0x06ca6351e003826f, 0x142929670a0e6e70,
     0x27b70a8546d22ffc, 0x2e1b21385c26c926, 0x4d2c6dfc5ac42aed, 0x53380d139d95b3df,
     0x650a73548baf63de, 0x766a0abb3c77b2a8, 0x81c2c92e47edaee6, 0x92722c851482353b,
     0xa2bfe8a14cf10364, 0xa81a664bbc423001, 0xc24b8b70d0f89791, 0xc76c51a30654be30,
     0xd192e819d6ef5218, 0xd69906245565a910, 0xf40e35855771202a, 0x106aa07032bbd1b8,
     0x19a4c116b8d2d0c8, 0x1e376c085141ab53, 0x2748774cdf8eeb99, 0x34b0bcb5e19b48a8,
     0x391c0cb3c5c95a63, 0x4ed8aa4ae3418acb, 0x5b9cca4f7763e373, 0x682e6ff3d6b2b8a3,
     0x748f82ee5defb2fc, 0x78a5636f43172f60, 0x84c87814a1f0ab72, 0x8cc702081a6439ec,
     0x90befffa23631e28, 0xa4506cebde82bde9, 0xbef9a3f7b2c67915, 0xc67178f2e372532b,
     0xca273eceea26619c, 0xd186b8c721c0c207, 0xeada7dd6cde0eb1e, 0xf57d4f7fee6ed178,
     0x06f067aa72176fba, 0x0a637dc5a2c898a6, 0x113f9804bef90dae, 0x1b710b35131c471b,
     0x28db77f523047d84, 0x32caab7b40c72493, 0x3c9ebe0a15c9bebc, 0x431d67c49c100d4c,
     0x4cc5d4becb3e42b6, 0x597f299cfc657e2a, 0x5fcb6fab3ad6faec, 0x6c44198c4a475817]"

definition sha512_H :: "uint64 list" where
  "sha512_H =
    [0x6a09e667f3bcc908, 0xbb67ae8584caa73b, 0x3c6ef372fe94f82b, 0xa54ff53a5f1d36f1,
     0x510e527fade682d1, 0x9b05688c2b3e6c1f, 0x1f83d9abfb41bd6b, 0x5be0cd19137e2179]"

definition sha512_pad :: "bytes \<Rightarrow> bytes" where
  "sha512_pad m =
     m @ [0x80] @ replicate ((239 - length m mod 128) mod 128) 0
       @ map (\<lambda>i. of_nat (8 * length m div 256 ^ (15 - i))) [0..<16]"

definition be_word :: "bytes \<Rightarrow> uint64" where
  "be_word bs = fold (\<lambda>b w. push_bit 8 w OR ucast b) bs 0"

definition be_word_bytes :: "uint64 \<Rightarrow> bytes" where
  "be_word_bytes w = map (\<lambda>i. ucast (drop_bit (56 - 8 * i) w)) [0..<8]"

definition sha512_schedule :: "bytes \<Rightarrow> uint64 list" where
  "sha512_schedule block =
     fold (\<lambda>t W.
         let v1 = W ! (t - 2);
             t1 = word_rotr 19 v1 XOR word_rotr 61 v1 XOR drop_bit 6 v1;
             v2 = W ! (t - 15);
             t2 = word_rotr 1 v2 XOR word_rotr 8 v2 XOR drop_bit 7 v2
         in W @ [t1 + W ! (t - 7) + t2 + W ! (t - 16)])
       [16..<80] (map (\<lambda>i. be_word (take 8 (drop (8 * i) block))) [0..<16])"

definition sha512_round :: "uint64 list \<Rightarrow> nat \<Rightarrow> uint64 list \<Rightarrow> uint64 list" where
  "sha512_round W t s =
     (let a = s ! 0; b = s ! 1; c = s ! 2; d = s ! 3; e = s ! 4; f = s ! 5; g = s ! 6; h = s ! 7;
          t1 = h + (word_rotr 14 e XOR word_rotr 18 e XOR word_rotr 41 e)
             + ((e AND f) XOR (NOT e AND g)) + sha512_K ! t + W ! t;
          t2 = (word_rotr 28 a XOR word_rotr 34 a XOR word_rotr 39 a)
             + ((a AND b) XOR (a AND c) XOR (b AND c))
      in [t1 + t2, a, b, c, d + t1, e, f, g])"

definition sha512_block :: "bytes \<Rightarrow> uint64 list \<Rightarrow> uint64 list" where
  "sha512_block block s = map2 (+) s (fold (sha512_round (sha512_schedule block)) [0..<80] s)"

definition sha512 :: "bytes \<Rightarrow> bytes" where
  "sha512 m =
     (let p = sha512_pad m;
          s = fold (\<lambda>k. sha512_block (take 128 (drop (128 * k) p))) [0..<length p div 128] sha512_H
      in concat (map be_word_bytes s))"

lemma length_sha512_block: "length s = 8 \<Longrightarrow> length (sha512_block block s) = 8"
proof -
  have "length (fold (sha512_round W) ts s) = 8" if "length s = 8" for W ts s
    using that by (induction ts arbitrary: s) (auto simp: sha512_round_def Let_def)
  then show "length s = 8 \<Longrightarrow> length (sha512_block block s) = 8"
    by (simp add: sha512_block_def)
qed

lemma length_sha512 [simp]: "length (sha512 m) = 64"
proof -
  have "length (fold (\<lambda>k. sha512_block (f k)) ks s) = 8" if "length s = 8" for f ks s
    using that by (induction ks arbitrary: s) (auto simp: length_sha512_block)
  moreover have "length sha512_H = 8" by (simp add: sha512_H_def)
  moreover have "length (concat (map be_word_bytes ws)) = 8 * length ws" for ws
    by (induction ws) (simp_all add: be_word_bytes_def)
  ultimately show ?thesis
    by (simp add: sha512_def Let_def)
qed

lemma sha512_pad_blocks: "length (sha512_pad m) mod 128 = 0"
proof -
  define r where "r = length m mod 128"
  have "r < 128" by (simp add: r_def)
  have "length (sha512_pad m) mod 128 = (length m + (17 + (239 - r) mod 128)) mod 128"
    by (simp add: sha512_pad_def r_def)
  also have "\<dots> = (r + (17 + (239 - r))) mod 128"
    by (intro mod_add_cong) (simp_all add: r_def)
  also have "\<dots> = 0"
    using \<open>r < 128\<close> by simp
  finally show ?thesis .
qed

end
