(* ===== verification/Ed25519_Sign.thy ===== *)
theory Ed25519_Sign
  imports Ed25519_Scalar Ed25519_Mult Go_Sha512 Go_Net Crypto_Keys
begin

text \<open>
  Keys and signatures: \<^verbatim>\<open>crypto/ed25519/base.go\<close>, and the signature policy of \<^verbatim>\<open>crypto/ed25519/ed25519.go\<close>
  for the key pairs of \<^verbatim>\<open>crypto/keypair.go\<close>. What a key generation reads from its random source is an
  argument.
\<close>

section \<open>Keys and signatures\<close>

definition ed25519_PublicKeySize :: nat where
  "ed25519_PublicKeySize = 32"

definition ed25519_PrivateKeySize :: nat where
  "ed25519_PrivateKeySize = 64"

definition ed25519_SignatureSize :: nat where
  "ed25519_SignatureSize = 64"

definition ed25519_Public :: "bytes \<Rightarrow> bytes result" where
  "ed25519_Public priv =
     (if length priv < 32 then Inl (Panic ''slice bounds out of range'')
      else Inr (take ed25519_PublicKeySize (drop 32 priv @ replicate ed25519_PublicKeySize 0)))"

definition GenerateKey :: "bytes result \<Rightarrow> (bytes \<times> bytes) result" where
  "GenerateKey entropy =
     rbind entropy (\<lambda>seed.
       let digest = sha512 seed;
           digest = digest[0 := digest ! 0 AND 248];
           digest = digest[31 := digest ! 31 AND 127];
           digest = digest[31 := digest ! 31 OR 64];
           hBytes = take 32 digest;
           A = GeScalarMultBase hBytes;
           publicKeyBytes = Extended_ToBytes A
       in Inr (publicKeyBytes, seed @ publicKeyBytes))"

definition ed25519_Sign :: "bytes \<Rightarrow> bytes \<Rightarrow> bytes result" where
  "ed25519_Sign privateKey message =
     (if length privateKey \<noteq> ed25519_PrivateKeySize then
        Inl (Panic (''ed25519: bad private key length: '' @ Itoa (length privateKey)))
      else
        let digest1 = sha512 (take 32 privateKey);
            expandedSecretKey = take 32 digest1;
            expandedSecretKey = expandedSecretKey[0 := expandedSecretKey ! 0 AND 248];
            expandedSecretKey = expandedSecretKey[31 := expandedSecretKey ! 31 AND 63];
            expandedSecretKey = expandedSecretKey[31 := expandedSecretKey ! 31 OR 64];
            messageDigest = sha512 (drop 32 digest1 @ message);
            messageDigestReduced = ScReduce messageDigest;
            R = GeScalarMultBase messageDigestReduced;
            encodedR = Extended_ToBytes R;
            hramDigest = sha512 (encodedR @ drop 32 privateKey @ message);
            hramDigestReduced = ScReduce hramDigest;
            s = ScMulAdd hramDigestReduced expandedSecretKey messageDigestReduced
        in Inr (encodedR @ s))"

definition PrivateKey_Sign :: "bytes \<Rightarrow> bytes \<Rightarrow> nat \<Rightarrow> bytes result" where
  "PrivateKey_Sign priv message hashFunc =
     (if hashFunc \<noteq> 0 then Inl (Err ''ed25519: cannot sign hashed message'') else ed25519_Sign priv message)"

definition ed25519_Verify :: "bytes \<Rightarrow> bytes \<Rightarrow> bytes \<Rightarrow> bool result" where
  "ed25519_Verify publicKey message sig =
     (if length publicKey \<noteq> ed25519_PublicKeySize then
        Inl (Panic (''ed25519: bad public key length: '' @ Itoa (length publicKey)))
      else if length sig \<noteq> ed25519_SignatureSize \<or> sig ! 63 AND 224 \<noteq> 0 then Inr False
      else case Extended_FromBytes publicKey of
             None \<Rightarrow> Inr False
           | Some A \<Rightarrow>
               let A = A\<lparr>eX := FeNeg (eX A)\<rparr>;
                   A = A\<lparr>eT := FeNeg (eT A)\<rparr>;
                   digest = sha512 (take 32 sig @ publicKey @ message);
                   hReduced = ScReduce digest;
                   b = drop 32 sig;
                   R = GeDoubleScalarMultVartime hReduced A b;
                   checkR = Projective_ToBytes R
               in Inr (take 32 sig = checkR))"

section \<open>The signature policy\<close>

definition Ed25519_GenerateKeys :: "bytes result \<Rightarrow> (bytes \<times> bytes) result" where
  "Ed25519_GenerateKeys entropy = rbind (GenerateKey entropy) (\<lambda>(publicKey, privateKey). Inr (privateKey, publicKey))"

definition Ed25519_Sign :: "bytes \<Rightarrow> bytes \<Rightarrow> bytes result" where
  "Ed25519_Sign privateKey message =
     (if length privateKey \<noteq> ed25519_PrivateKeySize then Inr [] else ed25519_Sign privateKey message)"

definition Ed25519_Verify :: "bytes \<Rightarrow> bytes \<Rightarrow> bytes \<Rightarrow> bool result" where
  "Ed25519_Verify publicKey message signature =
     (if length publicKey \<noteq> ed25519_PublicKeySize then Inr False else ed25519_Verify publicKey message signature)"

definition RandomKeyPair :: "bytes result \<Rightarrow> KeyPair result" where
  "RandomKeyPair entropy =
     (case GenerateKey entropy of
        Inl e \<Rightarrow> Inl (Panic ''GenerateKey'')
      | Inr (publicKey, privateKey) \<Rightarrow> Inr \<lparr>PrivateKey = privateKey, PublicKey = publicKey\<rparr>)"

text \<open>
  The policy as the key pairs see it: its operations return plain values, which is right because
  neither panics (\<open>Ed25519_total\<close>).
\<close>

definition Ed25519 :: SignaturePolicy where
  "Ed25519 = \<lparr>PrivateKeySize = int ed25519_PrivateKeySize, PublicKeySize = int ed25519_PublicKeySize,
     PrivateToPublic = ed25519_Public,
     policy_Sign = (\<lambda>sk m. projr (Ed25519_Sign sk m)), policy_Verify = (\<lambda>pk m s. projr (Ed25519_Verify pk m s))\<rparr>"

lemma Ed25519_total: "\<exists>s. Ed25519_Sign sk m = Inr s" "\<exists>b. Ed25519_Verify pk m sig = Inr b"
  by (auto simp: Ed25519_Sign_def ed25519_Sign_def Ed25519_Verify_def ed25519_Verify_def Let_def split: option.splits)

section \<open>The secret scalar\<close>

text \<open>The scalar of a seed: bits 0 to 2 cleared, bit 254 set, bit 255 cleared.\<close>

definition secret_scalar :: "bytes \<Rightarrow> int" where
  "secret_scalar digest = 2 ^ 254 + 8 * (le_value (take 32 digest) mod 2 ^ 254 div 8)"

lemma clamp_low: "uint (x AND 248 :: byte) = 8 * (uint x div 8)"
proof -
  have "uint x AND push_bit 3 (mask 5) = push_bit 3 (drop_bit 3 (uint x))"
    by (rule bit_eqI) (auto simp: bit_simps dest: bit_imp_le_length)
  moreover have "push_bit 3 (mask 5) = (248 :: int)" by (simp add: mask_eq_exp_minus_1 push_bit_eq_mult)
  ultimately show ?thesis
    by (simp add: unsigned_and_eq push_bit_eq_mult drop_bit_eq_div)
qed

lemma clamp_high: "uint ((x AND 63) OR 64 :: byte) = uint x mod 64 + 64" "(x AND 127) OR 64 = ((x AND 63) OR 64 :: byte)"
proof -
  have m: "(63 :: byte) = mask 6" "(64 :: byte) = push_bit 6 1" "(127 :: byte) = mask 7"
    by (simp_all add: mask_eq_exp_minus_1 push_bit_eq_mult)
  have "uint ((x AND 63) OR 64 :: byte) = take_bit 6 (uint x) OR push_bit 6 1"
    unfolding m by (rule bit_eqI) (auto simp: bit_simps simp del: push_bit_of_1)
  also have "\<dots> = take_bit 6 (uint x) + push_bit 6 1"
    by (rule disjunctive_add [symmetric]) (simp add: bit_simps del: push_bit_of_1)
  finally show "uint ((x AND 63) OR 64 :: byte) = uint x mod 64 + 64"
    by (simp add: take_bit_eq_mod push_bit_eq_mult)
  show "(x AND 127) OR 64 = ((x AND 63) OR 64 :: byte)"
    unfolding m by (rule bit_word_eqI) (auto simp: bit_simps simp del: push_bit_of_1)
qed

lemma clamped_value:
  assumes "length d = 32"
  shows "le_value ((d[0 := d ! 0 AND 248])[31 := (d ! 31 AND 63) OR 64]) = 2 ^ 254 + 8 * (le_value d mod 2 ^ 254 div 8)"
proof -
  obtain x t where "d = x # t" "length t = 31" using assms by (auto simp: length_Suc_conv numeral_eq_Suc)
  then obtain m y where d: "d = x # m @ [y]" "length m = 30"
    by (metis append_butlast_last_id diff_Suc_1 eval_nat_numeral(3) length_0_conv length_butlast nat.simps(3))
  define q r where "q = uint y div 64" and "r = uint y mod 64"
  have y: "uint y = 64 * q + r" "0 \<le> r" "r < 64" by (simp_all add: q_def r_def)
  let ?w = "uint x + 256 * le_value m + 2 ^ 248 * r"
  have w: "0 \<le> ?w" "?w < 2 ^ 254"
    using uint_byte_less [of x] le_value_less [of m] d(2) y(2, 3) by simp_all
  have "le_value d = ?w + q * 2 ^ 254"
    by (simp add: d le_value_append y(1))
  then have "le_value d mod 2 ^ 254 = ?w"
    using w by (simp only: mod_mult_self1) simp
  moreover have "8 * (?w div 8) = 8 * (uint x div 8) + 256 * le_value m + 2 ^ 248 * r"
  proof -
    have "?w = uint x + 8 * (32 * le_value m + 2 ^ 245 * r)" by simp
    then have "?w div 8 = (32 * le_value m + 2 ^ 245 * r) + uint x div 8"
      by (simp only: div_mult_self2)
    then show ?thesis by simp
  qed
  ultimately show ?thesis
    by (simp add: d(1)) (simp add: d(2) le_value_append clamp_low clamp_high r_def [symmetric] list_update_append nth_append)
qed

lemma clamped_length: "length (d :: bytes) = 32 \<Longrightarrow> uint (((d[0 := d ! 0 AND 248])[31 := (d ! 31 AND 63) OR 64]) ! 31) \<le> 127"
  using pos_mod_bound [of 64 "uint (d ! 31)"] clamp_high(1) [of "d ! 31"] by simp

lemma length_Extended_ToBytes: "bounded_extended p \<Longrightarrow> length (Extended_ToBytes p) = 32"
proof -
  assume "bounded_extended p"
  then obtain x y z t where "extended x y z t p" by (auto simp: bounded_extended_def)
  then have "fe_ok 330 (pX (Extended_ToProjective p))" "fe_ok 330 (pY (Extended_ToProjective p))" "fe_ok 330 (pZ (Extended_ToProjective p))"
    using conversions(2) [of x y z t p] by (auto simp: projective_def rep_def intro: fe_ok_mono)
  then show ?thesis
    using Projective_ToBytes_value(1) Extended_ToBytes_projective by simp
qed

lemma le_value_high_byte:
  assumes "length s = 32" "le_value s < 2 ^ k" "248 \<le> k" "k \<le> 256"
  shows "uint (s ! 31) < 2 ^ (k - 248)"
proof -
  have "s = take 31 s @ [s ! 31]"
    using take_Suc_conv_app_nth [of 31 s] assms(1) by simp
  then have "le_value s = le_value (take 31 s) + 2 ^ 248 * uint (s ! 31)"
    using le_value_append [of "take 31 s" "[s ! 31]"] assms(1) by simp
  then have "2 ^ 248 * uint (s ! 31) < 2 ^ 248 * 2 ^ (k - 248)"
    using assms le_value_nonneg [of "take 31 s"] by (simp only: power_add [symmetric] le_add_diff_inverse)
  then show ?thesis by simp
qed

lemma top_bits_clear: "uint x < 32 \<Longrightarrow> x AND 224 = (0 :: byte)"
proof -
  assume "uint x < 32"
  then have "take_bit 5 (uint x) = uint x" by (simp add: take_bit_int_eq_self)
  then have "take_bit 5 x = x" by (metis unsigned_take_bit_eq word_uint_eq_iff)
  moreover have "take_bit 5 x AND push_bit 5 (mask 3) = 0"
    by (rule bit_word_eqI) (auto simp: bit_simps)
  moreover have "push_bit 5 (mask 3) = (224 :: byte)"
    by (simp add: mask_eq_exp_minus_1 push_bit_eq_mult)
  ultimately show ?thesis by simp
qed

lemma scalar_small: "x mod sc_order < 2 ^ 253"
  using pos_mod_bound [of sc_order x] by (simp add: sc_order_def)

lemma high_bits_clear:
  assumes "length s = 32" "s ! 31 AND 224 = 0"
  shows "le_value s < 2 ^ 253"
proof -
  have "(224 :: byte) = push_bit 5 (mask 3)"
    by (simp add: mask_eq_exp_minus_1 push_bit_eq_mult)
  with assms(2) have z: "s ! 31 AND push_bit 5 (mask 3) = 0" by simp
  have top: "\<not> bit (s ! 31) k" if "5 \<le> k" "k < 8" for k
  proof -
    have "bit (s ! 31 AND push_bit 5 (mask 3)) k \<longleftrightarrow> bit (s ! 31) k"
      using that by (auto simp: bit_simps)
    then show ?thesis by (simp only: z) simp
  qed
  have "take_bit 253 (le_value s) = le_value s"
  proof (rule bit_eqI)
    fix n
    have "\<not> bit (le_value s) n" if "253 \<le> n"
    proof
      assume b: "bit (le_value s) n"
      then have "n div 8 < 32" "bit (s ! (n div 8)) (n mod 8)" using assms(1) by (simp_all add: bit_le_value)
      moreover from this have "n div 8 = 31" using that by linarith
      moreover from this have "5 \<le> n mod 8" using that div_mult_mod_eq [of n 8] by linarith
      ultimately show False using top [of "n mod 8"] by simp
    qed
    then show "bit (take_bit 253 (le_value s)) n \<longleftrightarrow> bit (le_value s) n"
      by (cases "n < 253") (simp_all add: bit_take_bit_iff)
  qed
  then show ?thesis
    using take_bit_int_less_exp [of 253 "le_value s"] by simp
qed

text \<open>
  What \<^verbatim>\<open>Verify\<close> passes to the double multiplication: the negated point lies on the curve and both scalars are
  within the range for which the window recoding is exact.
\<close>

lemma curve_point_neg:
  assumes "curve_point P A"
  shows "curve_point (edwards_neg P) (A\<lparr>eX := FeNeg (eX A), eT := FeNeg (eT A)\<rparr>)"
proof -
  obtain x y z t where P: "P = (x, y, z, t)" by (metis prod_cases4)
  have "extended x y z t A" "on_curve x y z t"
    using assms by (simp_all add: P curve_point_def)
  then show ?thesis
    using rep_neg by (simp add: P curve_point_def edwards_neg_def extended_def neg_on_curve)
qed

lemma Verify_arguments:
  assumes "ed25519_Verify pk m sig = Inr True"
  shows "\<exists>A P. length pk = 32 \<and> length sig = 64 \<and> Extended_FromBytes pk = Some A \<and> curve_point P A \<and>
    curve_point (edwards_neg P) (A\<lparr>eX := FeNeg (eX A), eT := FeNeg (eT A)\<rparr>) \<and>
    le_value (drop 32 sig) \<le> 2 ^ 253 \<and> le_value (ScReduce (sha512 (take 32 sig @ pk @ m))) \<le> 2 ^ 253"
proof -
  have v: "length pk = 32" "length sig = 64" "sig ! 63 AND 224 = 0"
    using assms by (auto simp: ed25519_Verify_def ed25519_PublicKeySize_def ed25519_SignatureSize_def split: if_splits)
  then obtain A where A: "Extended_FromBytes pk = Some A"
    using assms by (auto simp: ed25519_Verify_def ed25519_PublicKeySize_def ed25519_SignatureSize_def split: option.splits)
  obtain x where "extended x (of_int (take_bit 255 (le_value pk))) 1 (x * of_int (take_bit 255 (le_value pk))) A"
    "on_curve x (of_int (take_bit 255 (le_value pk))) 1 (x * of_int (take_bit 255 (le_value pk)))"
    by (rule FromBytes_point [OF v(1) A])
  then obtain P where P: "curve_point P A"
    by (auto simp: curve_point_def)
  have "le_value (drop 32 sig) < 2 ^ 253"
    using v by (intro high_bits_clear) simp_all
  moreover have "le_value (ScReduce (sha512 (take 32 sig @ pk @ m))) < 2 ^ 253"
    using scalar_small by (simp add: ScReduce_bytes le_value_residue)
  ultimately show ?thesis
    using v(1, 2) A P curve_point_neg [OF P] by (intro exI [of _ A] exI [of _ P]) simp
qed

section \<open>Properties\<close>

text \<open>
  C24. Generated keys: a seed of 32 bytes gives a public key of 32 bytes, the encoding of the point
  computed from the secret scalar of the seed, and a private key of 64 bytes, the seed followed by the
  public key, from which \<^verbatim>\<open>PrivateToPublic\<close> and the key pairs of \<^verbatim>\<open>crypto\<close> read the same public key back.
  A failing random source is returned as an error by \<^verbatim>\<open>GenerateKey\<close> and makes \<^verbatim>\<open>RandomKeyPair\<close> panic.
\<close>

theorem generated_keys:
  assumes "length seed = 32"
  shows "\<exists>pk a. RandomKeyPair (Inr seed) = Inr \<lparr>PrivateKey = seed @ pk, PublicKey = pk\<rparr> \<and>
      Ed25519_GenerateKeys (Inr seed) = Inr (seed @ pk, pk) \<and> length pk = 32 \<and>
      length a = 32 \<and> le_value a = secret_scalar (sha512 seed) \<and> pk = Extended_ToBytes (GeScalarMultBase a) \<and>
      fromPrivateKeyBytes Ed25519 (seed @ pk) = Inr \<lparr>PrivateKey = seed @ pk, PublicKey = pk\<rparr>
    \<and> GenerateKey (Inl e) = Inl e \<and> panics (RandomKeyPair (Inl e))"
proof -
  define d where "d = take 32 (sha512 seed)"
  define a where "a = (d[0 := d ! 0 AND 248])[31 := (d ! 31 AND 63) OR 64]"
  define pk where "pk = Extended_ToBytes (GeScalarMultBase a)"
  have d: "length d = 32" by (simp add: d_def)
  have a: "length a = 32" "uint (a ! 31) \<le> 127" "le_value a = secret_scalar (sha512 seed)"
    using clamped_length [OF d] clamped_value [OF d] d by (simp_all add: a_def secret_scalar_def d_def)
  have pk: "length pk = 32"
    unfolding pk_def by (intro length_Extended_ToBytes GeScalarMultBase_bounded a)
  have "GenerateKey (Inr seed) = Inr (pk, seed @ pk)"
    by (simp add: GenerateKey_def Let_def pk_def a_def d_def take_update_swap clamp_high)
  then show ?thesis
    using a pk assms
    by (auto simp: RandomKeyPair_def Ed25519_GenerateKeys_def pk_def [symmetric] fromPrivateKeyBytes_def Ed25519_def
      ed25519_PrivateKeySize_def ed25519_Public_def ed25519_PublicKeySize_def GenerateKey_def intro!: exI [of _ pk] exI [of _ a])
qed

theorem generated_keys_witness: "\<exists>pk. RandomKeyPair (Inr (replicate 32 0)) = Inr \<lparr>PrivateKey = replicate 32 0 @ pk, PublicKey = pk\<rparr> \<and> length pk = 32"
  using generated_keys [of "replicate 32 0" "Err ''EOF''"] by auto

text \<open>
  C23. Signatures: with a private key of 64 bytes signing never panics and returns 64 bytes, the encoding of
  the point computed from the nonce \<open>r\<close> and the scalar \<open>(h * a + r) mod l\<close>, where \<open>a\<close> is the secret scalar of
  the seed half of the key, \<open>r\<close> the digest of the key's prefix and the message, and \<open>h\<close> the digest of the encoded
  point, the public half of the key and the message, both modulo \<open>l\<close>. The scalar is reduced, so the format check
  of \<^verbatim>\<open>Verify\<close> never refuses a signature. Keys of another length panic, and give an empty signature through the policy.
\<close>

theorem signature_equation:
  assumes "length sk = 64"
  defines "d \<equiv> sha512 (take 32 sk)"
  shows "\<exists>R s r. ed25519_Sign sk m = Inr (R @ s) \<and> length R = 32 \<and> length s = 32 \<and>
      length r = 32 \<and> le_value r = le_value (sha512 (drop 32 d @ m)) mod sc_order \<and> R = Extended_ToBytes (GeScalarMultBase r) \<and>
      le_value s = (le_value (sha512 (R @ drop 32 sk @ m)) mod sc_order * secret_scalar d + le_value r) mod sc_order \<and>
      (R @ s) ! 63 AND 224 = 0
    \<and> (length sk' \<noteq> 64 \<longrightarrow> panics (ed25519_Sign sk' m) \<and> policy_Sign Ed25519 sk' m = [])"
proof -
  define a where "a = ((take 32 d)[0 := take 32 d ! 0 AND 248])[31 := (take 32 d ! 31 AND 63) OR 64]"
  define r where "r = ScReduce (sha512 (drop 32 d @ m))"
  define R where "R = Extended_ToBytes (GeScalarMultBase r)"
  define h where "h = ScReduce (sha512 (R @ drop 32 sk @ m))"
  define s where "s = ScMulAdd h a r"
  have a: "length a = 32" "le_value a = secret_scalar d"
    using clamped_value [of "take 32 d"] by (simp_all add: a_def secret_scalar_def d_def)
  have r: "length r = 32" "le_value r = le_value (sha512 (drop 32 d @ m)) mod sc_order"
    and h: "length h = 32" "le_value h = le_value (sha512 (R @ drop 32 sk @ m)) mod sc_order"
    by (simp_all add: r_def h_def ScReduce_bytes le_value_residue)
  have s: "length s = 32" "le_value s = (le_value h * le_value a + le_value r) mod sc_order"
    using a(1) r(1) h(1) by (simp_all add: s_def ScMulAdd_bytes le_value_residue)
  have "le_value r < 2 ^ 253" "le_value s < 2 ^ 253"
    unfolding r(2) s(2) by (rule scalar_small)+
  from le_value_high_byte [OF r(1) this(1)] le_value_high_byte [OF s(1) this(2)] have b: "uint (r ! 31) \<le> 127" "uint (s ! 31) < 32" by simp_all
  have R: "length R = 32"
    unfolding R_def using r(1) b(1) by (intro length_Extended_ToBytes GeScalarMultBase_bounded)
  have "ed25519_Sign sk m = Inr (R @ s)"
    using assms(1) by (simp add: ed25519_Sign_def ed25519_PrivateKeySize_def Let_def R_def s_def h_def r_def a_def d_def)
  moreover have "(R @ s) ! 63 AND 224 = 0"
    using R top_bits_clear [OF b(2)] by (simp add: nth_append)
  moreover have "length sk' \<noteq> 64 \<longrightarrow> panics (ed25519_Sign sk' m) \<and> policy_Sign Ed25519 sk' m = []"
    by (simp add: Ed25519_def Ed25519_Sign_def ed25519_Sign_def ed25519_PrivateKeySize_def)
  ultimately show ?thesis
    using R s r h a by (intro exI [of _ R] exI [of _ s] exI [of _ r] conjI) (simp_all add: R_def)
qed

theorem signature_equation_witness:
  "\<exists>R s. ed25519_Sign (replicate 64 1) [7] = Inr (R @ s) \<and> length R = 32 \<and> length s = 32 \<and> panics (ed25519_Sign [1] [7])"
proof -
  have "length (replicate 64 1 :: bytes) = 64" by simp
  from signature_equation [OF this, of "[7]" "[1]"] show ?thesis by fastforce
qed

end
